theory Spec2Isabelle
  imports Complex_Main "HOL-Library.Word" "HOL-Library.Multiset"
begin

unbundle bit_operations_syntax

section \<open>The per-iteration bounce loop of the path tracer (src/pathtrace.cu)\<close>

text \<open>
  The development embeds \<^verbatim>\<open>pathtrace.cu\<close> shallowly. A CUDA kernel is a function of
  its thread index that updates the device arrays it is given; a kernel launch folds that
  function over every thread index of the grid. Each kernel below touches only the array slot
  of its own thread, so the sequential fold computes what the parallel launch computes.

  Numbers: positions, directions and distances are idealised as \<^typ>\<open>real\<close>; colours and
  emittances are binary32 values with their infinities and NaN (below); \<^verbatim>\<open>int\<close>
  counters whose sign matters are \<^typ>\<open>int\<close>, thread and array indices are \<^typ>\<open>nat\<close>,
  and the seed arithmetic of the random engine is done on 32-bit words.
\<close>

subsection \<open>Colour arithmetic (binary32 float)\<close>

text \<open>
  A \<^verbatim>\<open>float\<close> that holds a colour channel or an emittance is a finite value, an
  infinity or NaN. A finite result beyond \<^verbatim>\<open>FLT_MAX\<close> in magnitude overflows to the
  infinity of its sign; infinity times zero and the sum of opposite infinities are NaN; every
  comparison with NaN is false. The rounding of finite results and the sign of zero are left
  out.
\<close>

datatype float = Finite real | PInf | NInf | NaN

definition FLT_MAX :: real where
  "FLT_MAX = 340282346638528859811704183484516925440"

definition to_float :: "real \<Rightarrow> float" where
  "to_float r = (if FLT_MAX < r then PInf else if r < - FLT_MAX then NInf else Finite r)"

text \<open>An infinity (the negative one if \<open>neg\<close>) times a finite factor.\<close>

definition inf_times :: "bool \<Rightarrow> real \<Rightarrow> float" where
  "inf_times neg r = (if r = 0 then NaN else if (r < 0) = neg then PInf else NInf)"

instantiation float :: "{zero, one, plus, times, ord}"
begin

definition zero_float :: float where
  "zero_float = Finite 0"

definition one_float :: float where
  "one_float = Finite 1"

fun plus_float :: "float \<Rightarrow> float \<Rightarrow> float" where
  "plus_float (Finite a) (Finite b) = to_float (a + b)"
| "plus_float NaN _ = NaN"
| "plus_float _ NaN = NaN"
| "plus_float PInf NInf = NaN"
| "plus_float NInf PInf = NaN"
| "plus_float PInf _ = PInf"
| "plus_float _ PInf = PInf"
| "plus_float NInf _ = NInf"
| "plus_float _ NInf = NInf"

fun times_float :: "float \<Rightarrow> float \<Rightarrow> float" where
  "times_float (Finite a) (Finite b) = to_float (a * b)"
| "times_float NaN _ = NaN"
| "times_float _ NaN = NaN"
| "times_float PInf (Finite b) = inf_times False b"
| "times_float NInf (Finite b) = inf_times True b"
| "times_float (Finite a) PInf = inf_times False a"
| "times_float (Finite a) NInf = inf_times True a"
| "times_float PInf PInf = PInf"
| "times_float NInf NInf = PInf"
| "times_float PInf NInf = NInf"
| "times_float NInf PInf = NInf"

fun less_float :: "float \<Rightarrow> float \<Rightarrow> bool" where
  "less_float (Finite a) (Finite b) = (a < b)"
| "less_float NInf (Finite b) = True"
| "less_float NInf PInf = True"
| "less_float (Finite a) PInf = True"
| "less_float _ _ = False"

fun less_eq_float :: "float \<Rightarrow> float \<Rightarrow> bool" where
  "less_eq_float (Finite a) (Finite b) = (a \<le> b)"
| "less_eq_float NaN _ = False"
| "less_eq_float _ NaN = False"
| "less_eq_float NInf _ = True"
| "less_eq_float _ PInf = True"
| "less_eq_float _ _ = False"

instance ..

end

subsection \<open>Vectors (glm::vec3)\<close>

datatype 'a vec3 = Vec3 (vx: 'a) (vy: 'a) (vz: 'a)

fun vadd :: "'a::plus vec3 \<Rightarrow> 'a vec3 \<Rightarrow> 'a vec3" where
  "vadd (Vec3 a b c) (Vec3 d e f) = Vec3 (a + d) (b + e) (c + f)"

fun vsub :: "'a::minus vec3 \<Rightarrow> 'a vec3 \<Rightarrow> 'a vec3" where
  "vsub (Vec3 a b c) (Vec3 d e f) = Vec3 (a - d) (b - e) (c - f)"

text \<open>\<^verbatim>\<open>vec3 * vec3\<close> of glm is the componentwise product.\<close>

fun vmul :: "'a::times vec3 \<Rightarrow> 'a vec3 \<Rightarrow> 'a vec3" where
  "vmul (Vec3 a b c) (Vec3 d e f) = Vec3 (a * d) (b * e) (c * f)"

fun smul :: "'a::times vec3 \<Rightarrow> 'a \<Rightarrow> 'a vec3" where
  "smul (Vec3 a b c) k = Vec3 (a * k) (b * k) (c * k)"

fun dot :: "'a::{plus,times} vec3 \<Rightarrow> 'a vec3 \<Rightarrow> 'a" where
  "dot (Vec3 a b c) (Vec3 d e f) = a * d + b * e + c * f"

text \<open>\<^verbatim>\<open>glm::normalize(v) = v * inversesqrt(dot(v, v))\<close>.\<close>

definition normalize_vec :: "real vec3 \<Rightarrow> real vec3" where
  "normalize_vec v = smul v (1 / sqrt (dot v v))"

text \<open>
  The one template serves both uses: \<^typ>\<open>real vec3\<close> for positions, directions and
  normals, \<^typ>\<open>float vec3\<close> for colours.
\<close>

definition nonneg :: "'a::{zero,ord} vec3 \<Rightarrow> bool" where
  "nonneg v = (0 \<le> vx v \<and> 0 \<le> vy v \<and> 0 \<le> vz v)"

subsection \<open>The scene structures that pathtrace.cu uses\<close>

text \<open>
  \<^verbatim>\<open>sceneStructs.h\<close> is not among the sources. The records carry the fields that
  \<^verbatim>\<open>pathtrace.cu\<close> reads and writes; what else a geometry or a material holds
  (transforms, vertices, reflectance parameters) is the type parameter of its record.
\<close>

datatype GeomType = SPHERE | CUBE | BV | TRIANGLE

record 'g Geom =
  gtype :: GeomType
  materialid :: int
  shape :: 'g

record 'm Material =
  mcolor :: "float vec3"
  emittance :: float
  bsdf :: 'm

record Ray =
  origin :: "real vec3"
  direction :: "real vec3"
  intersect :: "real vec3"

record PathSegment =
  ray :: Ray
  color :: "float vec3"
  pixelIndex :: nat
  remainingBounces :: int

record ShadeableIntersection =
  isect_t :: real
  surfaceNormal :: "real vec3"
  materialId :: int

record Camera =
  resolution_x :: nat
  resolution_y :: nat
  position :: "real vec3"
  view :: "real vec3"
  up :: "real vec3"
  right :: "real vec3"
  pixelLength_x :: real
  pixelLength_y :: real

subsection \<open>The random engine\<close>

text \<open>
  A \<^verbatim>\<open>thrust::default_random_engine\<close> is deterministic: its state is fixed by the seed it
  was constructed from and by the number of samples drawn from it so far.
\<close>

record rng =
  seed :: "32 word"
  drawn :: nat

subsection \<open>Functions of the repository and of its libraries that pathtrace.cu calls\<close>

text \<open>
  The intersection tests (\<^verbatim>\<open>intersections.h\<close>), \<^verbatim>\<open>scatterRay\<close>
  (\<^verbatim>\<open>interactions.h\<close>), \<^verbatim>\<open>utilhash\<close> (\<^verbatim>\<open>utilities.h\<close>) and the thrust
  primitives are not among the sources; they are parameters of the model, collected in one
  record. A test takes its three reference arguments (intersection point, normal, outside) and
  returns the distance with their new values. \<^verbatim>\<open>scatterRay\<close> takes the path segment by
  reference and returns it. \<^verbatim>\<open>uniform_real_distribution a b\<close> gives the sample drawn from
  an engine in a given state; drawing advances the engine by one. \<^verbatim>\<open>thrust_partition\<close>
  returns the reordered range and the length of its first part;
  \<^verbatim>\<open>sort_by_key_perm\<close> gives, for a list of keys, the order in which
  \<^verbatim>\<open>thrust::sort_by_key\<close> arranges the positions of the range.
  The last five fields are the values that the local variables of
  \<^verbatim>\<open>computeIntersections\<close> declared without an initialiser hold when the thread
  \<open>path_index\<close> of the launch at \<open>depth\<close> starts: the source does not fix them.
\<close>

record ('g, 'm) ext =
  boxIntersectionTest :: "'g Geom \<Rightarrow> Ray \<Rightarrow> real vec3 \<Rightarrow> real vec3 \<Rightarrow> bool \<Rightarrow> real \<times> real vec3 \<times> real vec3 \<times> bool"
  sphereIntersectionTest :: "'g Geom \<Rightarrow> Ray \<Rightarrow> real vec3 \<Rightarrow> real vec3 \<Rightarrow> bool \<Rightarrow> real \<times> real vec3 \<times> real vec3 \<times> bool"
  triangleIntersectionTest :: "'g Geom \<Rightarrow> Ray \<Rightarrow> real vec3 \<Rightarrow> real vec3 \<Rightarrow> bool \<Rightarrow> real \<times> real vec3 \<times> real vec3 \<times> bool"
  boundingVolumeIntersectionTest :: "'g Geom \<Rightarrow> Ray \<Rightarrow> bool"
  scatterRay :: "PathSegment \<Rightarrow> real vec3 \<Rightarrow> real vec3 \<Rightarrow> 'm Material \<Rightarrow> rng \<Rightarrow> PathSegment"
  utilhash :: "32 word \<Rightarrow> 32 word"
  uniform_real_distribution :: "real \<Rightarrow> real \<Rightarrow> rng \<Rightarrow> real"
  thrust_partition :: "(PathSegment \<Rightarrow> bool) \<Rightarrow> PathSegment list \<Rightarrow> PathSegment list \<times> nat"
  sort_by_key_perm :: "int list \<Rightarrow> nat list"
  uninit_t :: "int \<Rightarrow> nat \<Rightarrow> real"
  uninit_intersect_point :: "int \<Rightarrow> nat \<Rightarrow> real vec3"
  uninit_normal :: "int \<Rightarrow> nat \<Rightarrow> real vec3"
  uninit_tmp_intersect :: "int \<Rightarrow> nat \<Rightarrow> real vec3"
  uninit_tmp_normal :: "int \<Rightarrow> nat \<Rightarrow> real vec3"

subsection \<open>Kernel launches\<close>

text \<open>
  \<^verbatim>\<open>kernel<<<numBlocks, blockSize>>>\<close> runs the kernel once for every thread index
  \<^verbatim>\<open>blockIdx.x * blockDim.x + threadIdx.x\<close> below \<open>numBlocks * blockSize\<close>.
\<close>

definition launch1d :: "nat \<Rightarrow> nat \<Rightarrow> (nat \<Rightarrow> 's \<Rightarrow> 's) \<Rightarrow> 's \<Rightarrow> 's" where
  "launch1d numBlocks blockSize thread s = fold thread [0..<numBlocks * blockSize] s"

definition blockSize1d :: nat where
  "blockSize1d = 128"

text \<open>The grid of a one-dimensional launch over \<open>n\<close> slots: \<^verbatim>\<open>(n + blockSize1d - 1) / blockSize1d\<close>.\<close>

definition numblocks1d :: "nat \<Rightarrow> nat" where
  "numblocks1d n = (n + blockSize1d - 1) div blockSize1d"

subsection \<open>makeSeededRandomEngine\<close>

definition makeSeededRandomEngine :: "('g, 'm) ext \<Rightarrow> int \<Rightarrow> int \<Rightarrow> int \<Rightarrow> rng" where
  "makeSeededRandomEngine E iter index depth =
     (let h = utilhash E (push_bit 31 1 OR push_bit 22 (word_of_int depth) OR word_of_int iter)
              XOR utilhash E (word_of_int index)
      in \<lparr>seed = h, drawn = 0\<rparr>)"

subsection \<open>shadeMaterial\<close>

text \<open>The body of the kernel for the thread \<open>idx\<close>, on that thread's intersection and path.\<close>

definition shadeMaterial_path ::
  "('g, 'm) ext \<Rightarrow> int \<Rightarrow> nat \<Rightarrow> ShadeableIntersection \<Rightarrow> (int \<Rightarrow> 'm Material) \<Rightarrow> int
     \<Rightarrow> PathSegment \<Rightarrow> PathSegment" where
  "shadeMaterial_path E iter idx intersection materials depth p =
     (if isect_t intersection > 0 \<and> remainingBounces p > 0 then
        (let rng = makeSeededRandomEngine E iter (int idx) depth;
             material = materials (materialId intersection);
             materialColor = mcolor material
         in if emittance material > 0 then
              p\<lparr>color := vmul (color p) (smul materialColor (emittance material)),
                remainingBounces := 0\<rparr>
            else
              (let q = scatterRay E p (intersect (ray p)) (surfaceNormal intersection) material rng
               in q\<lparr>remainingBounces := remainingBounces q - 1\<rparr>))
      else if remainingBounces p > 0 then
        p\<lparr>color := Vec3 0 0 0, remainingBounces := 0\<rparr>
      else p)"

definition shadeMaterial ::
  "('g, 'm) ext \<Rightarrow> int \<Rightarrow> nat \<Rightarrow> ShadeableIntersection list \<Rightarrow> (int \<Rightarrow> 'm Material) \<Rightarrow> int
     \<Rightarrow> nat \<Rightarrow> PathSegment list \<Rightarrow> PathSegment list" where
  "shadeMaterial E iter num_paths shadeableIntersections materials depth idx pathSegments =
     (if idx < num_paths then
        pathSegments[idx := shadeMaterial_path E iter idx (shadeableIntersections ! idx)
                              materials depth (pathSegments ! idx)]
      else pathSegments)"

subsection \<open>has_no_bounces\<close>

text \<open>The predicate handed to \<^verbatim>\<open>thrust::partition\<close>: true of a path that still bounces.\<close>

definition has_no_bounces :: "PathSegment \<Rightarrow> bool" where
  "has_no_bounces path = (remainingBounces path > 0)"

subsection \<open>generateRayFromCamera\<close>

definition launch2d :: "nat \<times> nat \<Rightarrow> nat \<times> nat \<Rightarrow> (nat \<Rightarrow> nat \<Rightarrow> 's \<Rightarrow> 's) \<Rightarrow> 's \<Rightarrow> 's" where
  "launch2d blocksPerGrid blockSize thread s =
     fold (\<lambda>(x, y). thread x y)
       (List.product [0..<fst blocksPerGrid * fst blockSize] [0..<snd blocksPerGrid * snd blockSize]) s"

definition blockSize2d :: "nat \<times> nat" where
  "blockSize2d = (8, 8)"

definition blocksPerGrid2d :: "Camera \<Rightarrow> nat \<times> nat" where
  "blocksPerGrid2d cam =
     ((resolution_x cam + fst blockSize2d - 1) div fst blockSize2d,
      (resolution_y cam + snd blockSize2d - 1) div snd blockSize2d)"

text \<open>
  The local \<^verbatim>\<open>rng\<close> of the thread \<open>(x, y)\<close>. The call in the source is
  \<^verbatim>\<open>makeSeededRandomEngine(iter, x, y)\<close>: \<open>x\<close> is the engine's index argument and
  \<open>y\<close> its depth argument.
\<close>

definition generateRay_rng :: "('g, 'm) ext \<Rightarrow> int \<Rightarrow> nat \<Rightarrow> nat \<Rightarrow> rng" where
  "generateRay_rng E iter x y = makeSeededRandomEngine E iter (int x) (int y)"

text \<open>
  The segment that the thread \<open>(x, y)\<close> leaves in its slot. The field
  \<^verbatim>\<open>ray.intersect\<close> is not written.
\<close>

definition generateRay_segment ::
  "('g, 'm) ext \<Rightarrow> Camera \<Rightarrow> int \<Rightarrow> int \<Rightarrow> nat \<Rightarrow> nat \<Rightarrow> PathSegment \<Rightarrow> PathSegment" where
  "generateRay_segment E cam iter traceDepth x y segment =
     (let index = x + y * resolution_x cam;
          rng = generateRay_rng E iter x y;
          xOffset = uniform_real_distribution E (- 0.5) 0.5 rng;
          rng1 = rng\<lparr>drawn := drawn rng + 1\<rparr>;
          yOffset = uniform_real_distribution E (- 0.5) 0.5 rng1;
          dir = normalize_vec
                  (vsub
                     (vsub (view cam)
                        (smul (smul (right cam) (pixelLength_x cam))
                           (real x + xOffset - real (resolution_x cam) * 0.5)))
                     (smul (smul (up cam) (pixelLength_y cam))
                        (real y + yOffset - real (resolution_y cam) * 0.5)))
      in segment\<lparr>ray := (ray segment)\<lparr>origin := position cam, direction := dir\<rparr>,
                 color := Vec3 1 1 1,
                 pixelIndex := index,
                 remainingBounces := traceDepth\<rparr>)"

definition generateRayFromCamera ::
  "('g, 'm) ext \<Rightarrow> Camera \<Rightarrow> int \<Rightarrow> int \<Rightarrow> nat \<Rightarrow> nat \<Rightarrow> PathSegment list \<Rightarrow> PathSegment list" where
  "generateRayFromCamera E cam iter traceDepth x y pathSegments =
     (if x < resolution_x cam \<and> y < resolution_y cam then
        (let index = x + y * resolution_x cam
         in pathSegments[index :=
              generateRay_segment E cam iter traceDepth x y (pathSegments ! index)])
      else pathSegments)"

subsection \<open>setMaterialIds\<close>

definition setMaterialIds ::
  "nat \<Rightarrow> ShadeableIntersection list \<Rightarrow> nat \<Rightarrow> int list \<times> int list \<Rightarrow> int list \<times> int list" where
  "setMaterialIds num_paths intersections index ids =
     (case ids of (pathIds, isectIds) \<Rightarrow>
        if index < num_paths then
          (pathIds[index := materialId (intersections ! index)],
           isectIds[index := materialId (intersections ! index)])
        else (pathIds, isectIds))"

subsection \<open>computeIntersections\<close>

text \<open>The local variables of one thread, and the field \<^verbatim>\<open>ray.intersect\<close> of its path.\<close>

record isect_locals =
  l_t :: real
  l_intersect_point :: "real vec3"
  l_normal :: "real vec3"
  l_t_min :: real
  l_hit_geom_index :: int
  l_outside :: bool
  l_hitmesh :: bool
  l_tmp_intersect :: "real vec3"
  l_tmp_normal :: "real vec3"
  l_ray_intersect :: "real vec3"

text \<open>\<^verbatim>\<open>t = test(geom, ray, tmp_intersect, tmp_normal, outside)\<close>.\<close>

definition call_test ::
  "('x \<Rightarrow> Ray \<Rightarrow> real vec3 \<Rightarrow> real vec3 \<Rightarrow> bool \<Rightarrow> real \<times> real vec3 \<times> real vec3 \<times> bool) \<Rightarrow> 'x \<Rightarrow> Ray
     \<Rightarrow> isect_locals \<Rightarrow> isect_locals" where
  "call_test test geom r L =
     (case test geom r (l_tmp_intersect L) (l_tmp_normal L) (l_outside L) of
        (t', ti, tn, out) \<Rightarrow>
          L\<lparr>l_t := t', l_tmp_intersect := ti, l_tmp_normal := tn, l_outside := out\<rparr>)"

text \<open>The body of the loop over the triangles (BOUNDINGVOLUME branch).\<close>

definition triangle_step ::
  "('g, 'm) ext \<Rightarrow> Ray \<Rightarrow> 'g Geom list \<Rightarrow> nat \<Rightarrow> isect_locals \<Rightarrow> isect_locals" where
  "triangle_step E r triangles p L =
     (let L1 = call_test (triangleIntersectionTest E) (triangles ! p) r L
      in if l_t L1 > 0 \<and> l_t_min L1 > l_t L1 then
           L1\<lparr>l_t_min := l_t L1,
              l_hit_geom_index := int p,
              l_intersect_point := l_tmp_intersect L1,
              l_normal := l_tmp_normal L1,
              l_ray_intersect := l_tmp_intersect L1,
              l_hitmesh := True\<rparr>
         else L1)"

text \<open>The body of the loop over the geoms.\<close>

definition geom_step ::
  "('g, 'm) ext \<Rightarrow> Ray \<Rightarrow> 'g Geom list \<Rightarrow> 'g Geom list \<Rightarrow> nat \<Rightarrow> nat \<Rightarrow> isect_locals
     \<Rightarrow> isect_locals" where
  "geom_step E r geoms triangles triangles_size i L =
     (let geom = geoms ! i;
          L1 = (if gtype geom = CUBE then call_test (boxIntersectionTest E) geom r L
                else if gtype geom = SPHERE then call_test (sphereIntersectionTest E) geom r L
                else if gtype geom = BV then
                  (if boundingVolumeIntersectionTest E geom r then
                     fold (triangle_step E r triangles) [0..<triangles_size] L
                   else L)
                else L)
      in if l_t L1 > 0 \<and> l_t_min L1 > l_t L1 \<and> \<not> l_hitmesh L1 then
           L1\<lparr>l_t_min := l_t L1,
              l_hit_geom_index := int i,
              l_intersect_point := l_tmp_intersect L1,
              l_normal := l_tmp_normal L1,
              l_ray_intersect := l_tmp_intersect L1\<rparr>
         else L1)"

definition init_locals :: "('g, 'm) ext \<Rightarrow> int \<Rightarrow> nat \<Rightarrow> PathSegment \<Rightarrow> isect_locals" where
  "init_locals E depth path_index pathSegment =
     \<lparr>l_t = uninit_t E depth path_index,
      l_intersect_point = uninit_intersect_point E depth path_index,
      l_normal = uninit_normal E depth path_index,
      l_t_min = FLT_MAX,
      l_hit_geom_index = - 1,
      l_outside = True,
      l_hitmesh = False,
      l_tmp_intersect = uninit_tmp_intersect E depth path_index,
      l_tmp_normal = uninit_tmp_normal E depth path_index,
      l_ray_intersect = intersect (ray pathSegment)\<rparr>"

text \<open>The locals of the thread when its loop over the geoms has ended.\<close>

definition scan_geoms ::
  "('g, 'm) ext \<Rightarrow> int \<Rightarrow> nat \<Rightarrow> 'g Geom list \<Rightarrow> 'g Geom list \<Rightarrow> nat \<Rightarrow> nat \<Rightarrow> PathSegment
     \<Rightarrow> isect_locals" where
  "scan_geoms E depth path_index geoms triangles geoms_size triangles_size pathSegment =
     fold (geom_step E (ray pathSegment) geoms triangles triangles_size) [0..<geoms_size]
       (init_locals E depth path_index pathSegment)"

text \<open>What the thread writes to \<^verbatim>\<open>intersections[path_index]\<close>.\<close>

definition write_intersection ::
  "'g Geom list \<Rightarrow> 'g Geom list \<Rightarrow> isect_locals \<Rightarrow> ShadeableIntersection \<Rightarrow> ShadeableIntersection" where
  "write_intersection geoms triangles L isect =
     (if l_hit_geom_index L = - 1 then isect\<lparr>isect_t := - 1\<rparr>
      else
        isect\<lparr>isect_t := l_t_min L,
              materialId :=
                (if \<not> l_hitmesh L then materialid (geoms ! nat (l_hit_geom_index L))
                 else materialid (triangles ! nat (l_hit_geom_index L))),
              surfaceNormal := l_normal L\<rparr>)"

definition computeIntersections ::
  "('g, 'm) ext \<Rightarrow> int \<Rightarrow> nat \<Rightarrow> 'g Geom list \<Rightarrow> 'g Geom list \<Rightarrow> nat \<Rightarrow> nat \<Rightarrow> nat
     \<Rightarrow> PathSegment list \<times> ShadeableIntersection list
     \<Rightarrow> PathSegment list \<times> ShadeableIntersection list" where
  "computeIntersections E depth num_paths geoms triangles geoms_size triangles_size path_index s =
     (case s of (pathSegments, intersections) \<Rightarrow>
        if path_index < num_paths then
          (let pathSegment = pathSegments ! path_index;
               L = scan_geoms E depth path_index geoms triangles geoms_size triangles_size
                     pathSegment
           in (pathSegments[path_index :=
                 pathSegment\<lparr>ray := (ray pathSegment)\<lparr>intersect := l_ray_intersect L\<rparr>\<rparr>],
               intersections[path_index :=
                 write_intersection geoms triangles L (intersections ! path_index)]))
        else (pathSegments, intersections))"

subsection \<open>finalGather\<close>

definition finalGather :: "nat \<Rightarrow> PathSegment list \<Rightarrow> nat \<Rightarrow> float vec3 list \<Rightarrow> float vec3 list" where
  "finalGather nPaths iterationPaths index img =
     (if index < nPaths then
        (let iterationPath = iterationPaths ! index
         in img[pixelIndex iterationPath :=
              vadd (img ! pixelIndex iterationPath) (color iterationPath)])
      else img)"

subsection \<open>pathtrace\<close>

text \<open>The scene read by an iteration, and the device buffers it works on.\<close>

record ('g, 'm) Scene =
  geoms :: "'g Geom list"
  triangles :: "'g Geom list"
  materials :: "int \<Rightarrow> 'm Material"
  camera :: Camera
  traceDepth :: int

record device =
  dev_image :: "float vec3 list"
  dev_paths :: "PathSegment list"
  dev_intersections :: "ShadeableIntersection list"
  dev_isect_ids :: "int list"
  dev_ps_ids :: "int list"
  num_paths :: nat
  depth :: int

text \<open>The compile-time switches of the source, as it sets them.\<close>

definition MATERIALS :: bool where
  "MATERIALS = False"

definition pixelcount :: "('g, 'm) Scene \<Rightarrow> nat" where
  "pixelcount scene = resolution_x (camera scene) * resolution_y (camera scene)"

text \<open>\<^verbatim>\<open>cudaMemset(dev_intersections, 0, pixelcount * sizeof(ShadeableIntersection))\<close>.\<close>

definition cudaMemset_intersections :: "nat \<Rightarrow> ShadeableIntersection list \<Rightarrow> ShadeableIntersection list" where
  "cudaMemset_intersections n xs =
     replicate n \<lparr>isect_t = 0, surfaceNormal = Vec3 0 0 0, materialId = 0\<rparr> @ drop n xs"

text \<open>\<^verbatim>\<open>thrust::sort_by_key(keys, keys + n, values)\<close> on the first \<open>n\<close> keys and values.\<close>

definition sort_by_key :: "('g, 'm) ext \<Rightarrow> nat \<Rightarrow> int list \<Rightarrow> 'v list \<Rightarrow> int list \<times> 'v list" where
  "sort_by_key E n keys vals =
     (let order = sort_by_key_perm E (take n keys)
      in (map (\<lambda>j. keys ! j) order @ drop n keys, map (\<lambda>j. vals ! j) order @ drop n vals))"

text \<open>
  \<^verbatim>\<open>dev_path_end = thrust::partition(dev_paths, dev_paths + num_paths, has_no_bounces());
  num_paths = dev_path_end - dev_paths\<close>.
\<close>

definition compact_paths :: "('g, 'm) ext \<Rightarrow> nat \<Rightarrow> PathSegment list \<Rightarrow> PathSegment list \<times> nat" where
  "compact_paths E n paths =
     (case thrust_partition E has_no_bounces (take n paths) of
        (front, k) \<Rightarrow> (front @ drop n paths, k))"

text \<open>
  One pass of the \<^verbatim>\<open>while\<close> loop is four stages. The first clears the intersection
  buffer, launches \<^verbatim>\<open>computeIntersections\<close> and increments \<^verbatim>\<open>depth\<close>.
\<close>

definition numblocksPathSegmentTracing :: "device \<Rightarrow> nat" where
  "numblocksPathSegmentTracing d = numblocks1d (num_paths d)"

definition stage_intersect :: "('g, 'm) ext \<Rightarrow> ('g, 'm) Scene \<Rightarrow> device \<Rightarrow> device" where
  "stage_intersect E scene d =
     (let isects0 = cudaMemset_intersections (pixelcount scene) (dev_intersections d);
          (paths1, isects1) =
             launch1d (numblocksPathSegmentTracing d) blockSize1d
               (computeIntersections E (depth d) (num_paths d) (geoms scene) (triangles scene)
                  (length (geoms scene)) (length (triangles scene)))
               (dev_paths d, isects0)
      in d\<lparr>dev_paths := paths1, dev_intersections := isects1, depth := depth d + 1\<rparr>)"

text \<open>
  The second stage is the block under \<^verbatim>\<open>#if MATERIALS\<close>; the argument \<open>matsort\<close> is
  that switch.
\<close>

definition stage_sort :: "('g, 'm) ext \<Rightarrow> bool \<Rightarrow> device \<Rightarrow> device" where
  "stage_sort E matsort d =
     (if matsort then
        (let (ps_ids1, isect_ids1) =
               launch1d (numblocksPathSegmentTracing d) blockSize1d
                 (setMaterialIds (num_paths d) (dev_intersections d))
                 (dev_ps_ids d, dev_isect_ids d);
             (ps_ids2, paths2) = sort_by_key E (num_paths d) ps_ids1 (dev_paths d);
             (isect_ids2, isects2) = sort_by_key E (num_paths d) isect_ids1 (dev_intersections d)
         in d\<lparr>dev_paths := paths2, dev_intersections := isects2,
               dev_isect_ids := isect_ids2, dev_ps_ids := ps_ids2\<rparr>)
      else d)"

definition stage_shade :: "('g, 'm) ext \<Rightarrow> ('g, 'm) Scene \<Rightarrow> int \<Rightarrow> device \<Rightarrow> device" where
  "stage_shade E scene iter d =
     d\<lparr>dev_paths :=
         launch1d (numblocksPathSegmentTracing d) blockSize1d
           (shadeMaterial E iter (num_paths d) (dev_intersections d) (materials scene) (depth d))
           (dev_paths d)\<rparr>"

definition stage_compact :: "('g, 'm) ext \<Rightarrow> device \<Rightarrow> device" where
  "stage_compact E d =
     (case compact_paths E (num_paths d) (dev_paths d) of
        (paths', k) \<Rightarrow> d\<lparr>dev_paths := paths', num_paths := k\<rparr>)"

definition bounce_step :: "('g, 'm) ext \<Rightarrow> bool \<Rightarrow> ('g, 'm) Scene \<Rightarrow> int \<Rightarrow> device \<Rightarrow> device" where
  "bounce_step E matsort scene iter d =
     stage_compact E (stage_shade E scene iter (stage_sort E matsort (stage_intersect E scene d)))"

text \<open>The test that ends the loop: \<^verbatim>\<open>depth == traceDepth || num_paths == 0\<close>.\<close>

definition iteration_complete :: "('g, 'm) Scene \<Rightarrow> device \<Rightarrow> bool" where
  "iteration_complete scene d = (depth d = traceDepth scene \<or> num_paths d = 0)"

text \<open>
  The \<^verbatim>\<open>while (!iterationComplete)\<close> loop. It returns the buffers at the exit of the
  loop, with \<^verbatim>\<open>num_paths\<close> reset to the pixel count; \<open>None\<close> is a loop that never exits.
\<close>

partial_function (option) bounce_loop ::
  "('g, 'm) ext \<Rightarrow> bool \<Rightarrow> ('g, 'm) Scene \<Rightarrow> int \<Rightarrow> device \<Rightarrow> device option" where
  "bounce_loop E matsort scene iter d =
     (let d1 = bounce_step E matsort scene iter d
      in if iteration_complete scene d1 then Some (d1\<lparr>num_paths := pixelcount scene\<rparr>)
         else bounce_loop E matsort scene iter d1)"

text \<open>
  One call of \<^verbatim>\<open>pathtrace\<close>, up to the accumulation into \<^verbatim>\<open>dev_image\<close>. The
  conversion of the image for display (\<^verbatim>\<open>sendImageToPBO\<close>) and its copy to the host
  do not write to the buffers modelled here.
\<close>

definition generate_paths :: "('g, 'm) ext \<Rightarrow> ('g, 'm) Scene \<Rightarrow> int \<Rightarrow> PathSegment list \<Rightarrow> PathSegment list" where
  "generate_paths E scene iter paths =
     launch2d (blocksPerGrid2d (camera scene)) blockSize2d
       (generateRayFromCamera E (camera scene) iter (traceDepth scene)) paths"

text \<open>The buffers when the loop is entered: the rays generated, every path active, depth 0.\<close>

definition loop_entry :: "('g, 'm) ext \<Rightarrow> ('g, 'm) Scene \<Rightarrow> int \<Rightarrow> device \<Rightarrow> device" where
  "loop_entry E scene iter d =
     d\<lparr>dev_paths := generate_paths E scene iter (dev_paths d),
       num_paths := pixelcount scene, depth := 0\<rparr>"

definition gather_image :: "('g, 'm) Scene \<Rightarrow> device \<Rightarrow> float vec3 list" where
  "gather_image scene d =
     launch1d (numblocks1d (pixelcount scene)) blockSize1d
       (finalGather (num_paths d) (dev_paths d)) (dev_image d)"

definition pathtrace_with ::
  "('g, 'm) ext \<Rightarrow> bool \<Rightarrow> ('g, 'm) Scene \<Rightarrow> int \<Rightarrow> device \<Rightarrow> device option" where
  "pathtrace_with E matsort scene iter d =
     (case bounce_loop E matsort scene iter (loop_entry E scene iter d) of
        None \<Rightarrow> None
      | Some d1 \<Rightarrow> Some (d1\<lparr>dev_image := gather_image scene d1\<rparr>))"

definition pathtrace :: "('g, 'm) ext \<Rightarrow> ('g, 'm) Scene \<Rightarrow> int \<Rightarrow> device \<Rightarrow> device option" where
  "pathtrace E scene iter d = pathtrace_with E MATERIALS scene iter d"

text \<open>What a path carries to the accumulation: its pixel, its colour and its counter.\<close>

definition carried :: "PathSegment \<Rightarrow> nat \<times> float vec3 \<times> int" where
  "carried p = (pixelIndex p, color p, remainingBounces p)"

section \<open>What is assumed of the parameters\<close>

text \<open>
  \<^verbatim>\<open>thrust::partition\<close> reorders the range so that the elements satisfying the predicate
  come first, and returns the end of that first part.
\<close>

definition partition_contract ::
  "((PathSegment \<Rightarrow> bool) \<Rightarrow> PathSegment list \<Rightarrow> PathSegment list \<times> nat) \<Rightarrow> bool" where
  "partition_contract part =
     (\<forall>P xs. case part P xs of
        (ys, k) \<Rightarrow> mset ys = mset xs \<and> k \<le> length ys
                   \<and> (\<forall>y \<in> set (take k ys). P y) \<and> (\<forall>y \<in> set (drop k ys). \<not> P y))"


text \<open>
  A colour none of whose channels is negative: each is at least 0 (possibly infinite) or NaN.
\<close>

definition not_negative :: "float vec3 \<Rightarrow> bool" where
  "not_negative v = (\<not> vx v < 0 \<and> \<not> vy v < 0 \<and> \<not> vz v < 0)"

text \<open>
  \<^verbatim>\<open>scatterRay\<close> receives the whole path segment by reference. The spec has it
  produce a new ray and attenuate the colour by the material's colour; the two predicates say
  that it leaves \<^verbatim>\<open>pixelIndex\<close> and \<^verbatim>\<open>remainingBounces\<close> alone, and that it
  makes no channel of the colour negative when the material's colour is non-negative.
\<close>

definition scatter_keeps_identity ::
  "(PathSegment \<Rightarrow> real vec3 \<Rightarrow> real vec3 \<Rightarrow> 'm Material \<Rightarrow> rng \<Rightarrow> PathSegment) \<Rightarrow> bool" where
  "scatter_keeps_identity sr =
     (\<forall>p x n m g. pixelIndex (sr p x n m g) = pixelIndex p
                \<and> remainingBounces (sr p x n m g) = remainingBounces p)"

definition scatter_keeps_sign ::
  "(PathSegment \<Rightarrow> real vec3 \<Rightarrow> real vec3 \<Rightarrow> 'm Material \<Rightarrow> rng \<Rightarrow> PathSegment) \<Rightarrow> bool" where
  "scatter_keeps_sign sr =
     (\<forall>p x n m g. not_negative (color p) \<and> nonneg (mcolor m) \<longrightarrow>
                  not_negative (color (sr p x n m g)))"

text \<open>
  The branch of \<^verbatim>\<open>shadeMaterial\<close> that calls \<^verbatim>\<open>scatterRay\<close>: a hit, bounces left, and
  a material whose emittance is not positive.
\<close>

definition scatter_branch :: "(int \<Rightarrow> 'm Material) \<Rightarrow> ShadeableIntersection \<Rightarrow> PathSegment \<Rightarrow> bool" where
  "scatter_branch mats i p =
     (0 < isect_t i \<and> 0 < remainingBounces p \<and> \<not> 0 < emittance (mats (materialId i)))"

text \<open>The buffers as \<^verbatim>\<open>pathtraceInit\<close> allocates them: one slot per pixel.\<close>

definition wf_device :: "('g, 'm) Scene \<Rightarrow> device \<Rightarrow> bool" where
  "wf_device scene d =
     (length (dev_paths d) = pixelcount scene
      \<and> length (dev_intersections d) = pixelcount scene
      \<and> length (dev_image d) = pixelcount scene
      \<and> num_paths d \<le> pixelcount scene)"

text \<open>
  What holds of the buffers whenever the loop body is entered: the slots beyond the active count
  hold terminated paths.
\<close>

definition loop_inv :: "('g, 'm) Scene \<Rightarrow> device \<Rightarrow> bool" where
  "loop_inv scene d =
     (wf_device scene d
      \<and> (\<forall>p \<in> set (drop (num_paths d) (dev_paths d)). remainingBounces p \<le> 0))"

text \<open>The buffers after \<open>k\<close> passes of the loop of one call, as the source is compiled.\<close>

definition passes :: "('g, 'm) ext \<Rightarrow> ('g, 'm) Scene \<Rightarrow> int \<Rightarrow> nat \<Rightarrow> device \<Rightarrow> device" where
  "passes E scene iter k d = ((bounce_step E MATERIALS scene iter) ^^ k) (loop_entry E scene iter d)"

text \<open>
  How a path after a step relates to the path it comes from: the same pixel, a counter that has
  not grown, and a colour that still has no negative channel if it had none.
\<close>

definition path_kept :: "PathSegment \<Rightarrow> PathSegment \<Rightarrow> bool" where
  "path_kept p p' =
     (pixelIndex p' = pixelIndex p \<and> remainingBounces p' \<le> remainingBounces p
      \<and> (not_negative (color p) \<longrightarrow> not_negative (color p')))"

text \<open>What the terminated paths of the buffer carry, as a multiset.\<close>

definition settled :: "device \<Rightarrow> (nat \<times> float vec3 \<times> int) multiset" where
  "settled d = filter_mset (\<lambda>c. snd (snd c) \<le> 0) (mset (map carried (dev_paths d)))"

text \<open>
  Following the spec's words for the ray generator (section 4.1, with the Random Stream of
  section 2 keyed by iteration, pixel index and bounce depth): the stream of the pixel
  \<open>(x, y)\<close> at bounce depth 0.
\<close>

definition spec_generateRay_rng :: "('g, 'm) ext \<Rightarrow> Camera \<Rightarrow> int \<Rightarrow> nat \<Rightarrow> nat \<Rightarrow> rng" where
  "spec_generateRay_rng E cam iter x y =
     makeSeededRandomEngine E iter (int (x + y * resolution_x cam)) 0"

text \<open>\<^verbatim>\<open>uniform_real_distribution<float>(a, b)\<close> draws from \<open>[a, b)\<close>.\<close>

definition uniform_contract :: "(real \<Rightarrow> real \<Rightarrow> rng \<Rightarrow> real) \<Rightarrow> bool" where
  "uniform_contract u = (\<forall>a b g. a < b \<longrightarrow> a \<le> u a b g \<and> u a b g < b)"

text \<open>
  The buffers on which \<^verbatim>\<open>shadeMaterial\<close> is launched in pass \<open>k + 1\<close> of the loop: the
  buffers after \<open>k\<close> passes, intersected (and sorted, were the switch on).
\<close>

definition shade_input :: "('g, 'm) ext \<Rightarrow> ('g, 'm) Scene \<Rightarrow> int \<Rightarrow> nat \<Rightarrow> device \<Rightarrow> device" where
  "shade_input E scene iter k d =
     stage_sort E MATERIALS (stage_intersect E scene (passes E scene iter k d))"

text \<open>
  The path of the pixel \<open>px\<close> receives an application of the shader in pass \<open>k + 1\<close>: a thread
  \<open>idx < num_paths\<close> of that launch finds it in its slot.
\<close>

definition shaded_in_pass ::
  "('g, 'm) ext \<Rightarrow> ('g, 'm) Scene \<Rightarrow> int \<Rightarrow> nat \<Rightarrow> device \<Rightarrow> nat \<Rightarrow> bool" where
  "shaded_in_pass E scene iter k d px =
     (px \<in> set (map pixelIndex
                  (take (num_paths (shade_input E scene iter k d))
                     (dev_paths (shade_input E scene iter k d)))))"

text \<open>The number of applications of the shader that the path of a pixel receives in the first \<open>m\<close> passes.\<close>

definition shader_applications ::
  "('g, 'm) ext \<Rightarrow> ('g, 'm) Scene \<Rightarrow> int \<Rightarrow> nat \<Rightarrow> device \<Rightarrow> nat \<Rightarrow> nat" where
  "shader_applications E scene iter m d px =
     length (filter (\<lambda>k. shaded_in_pass E scene iter k d px) [0..<m])"


section \<open>The locals of computeIntersections\<close>

text \<open>No hit is recorded and \<^verbatim>\<open>t\<close> holds no positive distance.\<close>

definition no_hit_locals :: "isect_locals \<Rightarrow> bool" where
  "no_hit_locals L = (l_t L \<le> 0 \<and> l_hit_geom_index L = - 1)"

text \<open>
  Outside the triangle collection, a positive \<^verbatim>\<open>t\<close> is not below \<^verbatim>\<open>t_min\<close>, and
  a recorded hit is the hit of a cube or a sphere.
\<close>

definition analytic_locals :: "'g Geom list \<Rightarrow> isect_locals \<Rightarrow> bool" where
  "analytic_locals gs L =
     ((0 < l_t L \<and> \<not> l_hitmesh L \<longrightarrow> l_t_min L \<le> l_t L)
      \<and> (l_hit_geom_index L \<noteq> - 1 \<and> \<not> l_hitmesh L \<longrightarrow>
            0 \<le> l_hit_geom_index L
            \<and> (gtype (gs ! nat (l_hit_geom_index L)) = CUBE
               \<or> gtype (gs ! nat (l_hit_geom_index L)) = SPHERE)))"

text \<open>The test at the end of the loop body, on the locals that the dispatch on the type leaves.\<close>

definition record_hit :: "nat \<Rightarrow> isect_locals \<Rightarrow> isect_locals" where
  "record_hit i L1 =
     (if l_t L1 > 0 \<and> l_t_min L1 > l_t L1 \<and> \<not> l_hitmesh L1 then
        L1\<lparr>l_t_min := l_t L1,
           l_hit_geom_index := int i,
           l_intersect_point := l_tmp_intersect L1,
           l_normal := l_tmp_normal L1,
           l_ray_intersect := l_tmp_intersect L1\<rparr>
      else L1)"

section \<open>A scripted scene\<close>

text \<open>
  Concrete values for the parameters, on which the theorems below are exercised. A geometry
  carries the distance at which its test reports a hit and a side: 0 is hit by every ray, a
  positive side by the rays whose direction has a positive x component, a negative side by
  the others; the hit is reported at the point \<open>(0, 0, distance)\<close> with the normal
  \<open>(0, 0, -1)\<close>. The scripted \<^verbatim>\<open>scatterRay\<close> restarts the ray at the intersection point along
  the normal and weights the colour by a factor drawn from the engine it is given.
\<close>

definition demo_test :: "(real \<times> int) Geom \<Rightarrow> Ray \<Rightarrow> real vec3 \<Rightarrow> real vec3 \<Rightarrow> bool \<Rightarrow> real \<times> real vec3 \<times> real vec3 \<times> bool" where
  "demo_test g r ti tn out =
     (case shape g of (tdist, side) \<Rightarrow>
        if side = 0 \<or> (0 < side \<and> 0 < vx (direction r)) \<or> (side < 0 \<and> vx (direction r) \<le> 0) then
          (tdist, Vec3 0 0 tdist, Vec3 0 0 (- 1), True)
        else (- 1, ti, tn, out))"

definition demo_scatter :: "PathSegment \<Rightarrow> real vec3 \<Rightarrow> real vec3 \<Rightarrow> unit Material \<Rightarrow> rng \<Rightarrow> PathSegment" where
  "demo_scatter p x n m g =
     p\<lparr>ray := \<lparr>origin = x, direction = n, intersect = intersect (ray p)\<rparr>,
       color := smul (vmul (color p) (mcolor m)) (if even (unat (seed g)) then 1 else Finite (1 / 2))\<rparr>"

definition demo_partition :: "(PathSegment \<Rightarrow> bool) \<Rightarrow> PathSegment list \<Rightarrow> PathSegment list \<times> nat" where
  "demo_partition P xs = (filter P xs @ filter (\<lambda>x. \<not> P x) xs, length (filter P xs))"

definition demo_ext :: "(real \<times> int, unit) ext" where
  "demo_ext =
     \<lparr>boxIntersectionTest = demo_test,
      sphereIntersectionTest = demo_test,
      triangleIntersectionTest = demo_test,
      boundingVolumeIntersectionTest = (\<lambda>g r. fst (shape g) > 0),
      scatterRay = demo_scatter,
      utilhash = (\<lambda>w. w),
      uniform_real_distribution = (\<lambda>a b g. (a + b) / 2),
      thrust_partition = demo_partition,
      sort_by_key_perm = (\<lambda>keys. sort_key (\<lambda>j. keys ! j) [0..<length keys]),
      uninit_t = (\<lambda>d i. 0),
      uninit_intersect_point = (\<lambda>d i. Vec3 0 0 0),
      uninit_normal = (\<lambda>d i. Vec3 0 0 0),
      uninit_tmp_intersect = (\<lambda>d i. Vec3 0 0 0),
      uninit_tmp_normal = (\<lambda>d i. Vec3 0 0 0)\<rparr>"

definition demo_ray :: Ray where
  "demo_ray = \<lparr>origin = Vec3 0 0 0, direction = Vec3 0 0 1, intersect = Vec3 0 0 2\<rparr>"

definition demo_path :: "nat \<Rightarrow> int \<Rightarrow> PathSegment" where
  "demo_path k b = \<lparr>ray = demo_ray, color = Vec3 1 1 1, pixelIndex = k, remainingBounces = b\<rparr>"

definition demo_materials :: "int \<Rightarrow> unit Material" where
  "demo_materials i =
     (if i = 0 then \<lparr>mcolor = Vec3 1 1 1, emittance = Finite 5, bsdf = ()\<rparr>
      else \<lparr>mcolor = Vec3 (Finite (1 / 2)) (Finite (1 / 4)) 0, emittance = 0, bsdf = ()\<rparr>)"

definition demo_hit :: "real \<Rightarrow> int \<Rightarrow> ShadeableIntersection" where
  "demo_hit d m = \<lparr>isect_t = d, surfaceNormal = Vec3 0 0 (- 1), materialId = m\<rparr>"

definition demo_device :: device where
  "demo_device =
     \<lparr>dev_image = [Vec3 0 0 0, Vec3 0 0 0, Vec3 0 0 0, Vec3 0 0 0],
      dev_paths = [demo_path 0 0, demo_path 1 2, demo_path 2 0, demo_path 3 1],
      dev_intersections = [demo_hit 4 0, demo_hit 4 1, demo_hit (- 1) 0, demo_hit 4 1],
      dev_isect_ids = [], dev_ps_ids = [], num_paths = 3, depth = 1\<rparr>"


text \<open>
  A scene of two pixels. The ray of pixel 0 leans to positive x and meets the diffuse sphere;
  the ray of pixel 1 does not and meets the emissive box. After its bounce off the sphere the
  path of pixel 0 travels along the normal and meets the box too.
\<close>

definition demo_camera :: Camera where
  "demo_camera =
     \<lparr>resolution_x = 2, resolution_y = 1, position = Vec3 0 0 0, view = Vec3 0 0 1,
      up = Vec3 0 1 0, right = Vec3 1 0 0, pixelLength_x = 1, pixelLength_y = 1\<rparr>"

definition demo_sphere :: "(real \<times> int) Geom" where
  "demo_sphere = \<lparr>gtype = SPHERE, materialid = 1, shape = (4, 1)\<rparr>"

definition demo_box :: "(real \<times> int) Geom" where
  "demo_box = \<lparr>gtype = CUBE, materialid = 0, shape = (3, - 1)\<rparr>"

definition demo_scene :: "(real \<times> int, unit) Scene" where
  "demo_scene =
     \<lparr>geoms = [demo_sphere, demo_box], triangles = [], materials = demo_materials,
      camera = demo_camera, traceDepth = 2\<rparr>"

definition demo_start :: device where
  "demo_start =
     \<lparr>dev_image = [Vec3 0 0 0, Vec3 0 0 0],
      dev_paths = [demo_path 0 0, demo_path 0 0],
      dev_intersections = [demo_hit 0 0, demo_hit 0 0],
      dev_isect_ids = [0, 0], dev_ps_ids = [0, 0], num_paths = 0, depth = 0\<rparr>"

text \<open>The two paths as the ray generator leaves them.\<close>

definition demo_primary0 :: PathSegment where
  "demo_primary0 =
     \<lparr>ray = \<lparr>origin = Vec3 0 0 0, direction = normalize_vec (Vec3 1 (1 / 2) 1),
              intersect = Vec3 0 0 2\<rparr>,
      color = Vec3 1 1 1, pixelIndex = 0, remainingBounces = 2\<rparr>"

definition demo_primary1 :: PathSegment where
  "demo_primary1 =
     \<lparr>ray = \<lparr>origin = Vec3 0 0 0, direction = normalize_vec (Vec3 0 (1 / 2) 1),
              intersect = Vec3 0 0 2\<rparr>,
      color = Vec3 1 1 1, pixelIndex = 1, remainingBounces = 2\<rparr>"

text \<open>The path of pixel 0 after its bounce off the sphere, with the weight of its sample.\<close>

definition demo_bounced :: "real \<Rightarrow> int \<Rightarrow> PathSegment" where
  "demo_bounced w b =
     \<lparr>ray = \<lparr>origin = Vec3 0 0 4, direction = Vec3 0 0 (- 1), intersect = Vec3 0 0 4\<rparr>,
      color = Vec3 (Finite (w / 2)) (Finite (w / 4)) 0, pixelIndex = 0, remainingBounces = b\<rparr>"

text \<open>The path of pixel 1 once it has met the light.\<close>

definition demo_lit :: PathSegment where
  "demo_lit =
     \<lparr>ray = \<lparr>origin = Vec3 0 0 0, direction = normalize_vec (Vec3 0 (1 / 2) 1),
              intersect = Vec3 0 0 3\<rparr>,
      color = Vec3 (Finite 5) (Finite 5) (Finite 5), pixelIndex = 1, remainingBounces = 0\<rparr>"

definition demo_entered :: device where
  "demo_entered =
     \<lparr>dev_image = [Vec3 0 0 0, Vec3 0 0 0],
      dev_paths = [demo_primary0, demo_primary1],
      dev_intersections = [demo_hit 0 0, demo_hit 0 0],
      dev_isect_ids = [0, 0], dev_ps_ids = [0, 0], num_paths = 2, depth = 0\<rparr>"

definition demo_done :: "real \<Rightarrow> PathSegment" where
  "demo_done w =
     \<lparr>ray = \<lparr>origin = Vec3 0 0 4, direction = Vec3 0 0 (- 1), intersect = Vec3 0 0 3\<rparr>,
      color = Vec3 (Finite (5 * w / 2)) (Finite (5 * w / 4)) 0, pixelIndex = 0, remainingBounces = 0\<rparr>"

definition demo_zero_isect :: ShadeableIntersection where
  "demo_zero_isect = \<lparr>isect_t = 0, surfaceNormal = Vec3 0 0 0, materialId = 0\<rparr>"

definition demo_intersected1 :: device where
  "demo_intersected1 =
     \<lparr>dev_image = [Vec3 0 0 0, Vec3 0 0 0],
      dev_paths = [demo_primary0\<lparr>ray := (ray demo_primary0)\<lparr>intersect := Vec3 0 0 4\<rparr>\<rparr>,
                   demo_primary1\<lparr>ray := (ray demo_primary1)\<lparr>intersect := Vec3 0 0 3\<rparr>\<rparr>],
      dev_intersections = [demo_hit 4 1, demo_hit 3 0],
      dev_isect_ids = [0, 0], dev_ps_ids = [0, 0], num_paths = 2, depth = 1\<rparr>"

text \<open>After the first pass, with the weight that the bounce of pixel 0 drew.\<close>

definition demo_pass1 :: "real \<Rightarrow> int list \<Rightarrow> device" where
  "demo_pass1 w ids =
     \<lparr>dev_image = [Vec3 0 0 0, Vec3 0 0 0],
      dev_paths = [demo_bounced w 1, demo_lit],
      dev_intersections = (if ids = [0, 0] then [demo_hit 4 1, demo_hit 3 0]
                           else [demo_hit 3 0, demo_hit 4 1]),
      dev_isect_ids = ids, dev_ps_ids = ids, num_paths = 1, depth = 1\<rparr>"

definition demo_pass2 :: "real \<Rightarrow> int list \<Rightarrow> device" where
  "demo_pass2 w ids =
     \<lparr>dev_image = [Vec3 0 0 0, Vec3 0 0 0],
      dev_paths = [demo_done w, demo_lit],
      dev_intersections = [demo_hit 3 0, demo_zero_isect],
      dev_isect_ids = ids, dev_ps_ids = ids, num_paths = 0, depth = 2\<rparr>"

text \<open>
  The same scene with a light whose colour times its emittance is beyond \<^verbatim>\<open>FLT_MAX\<close>:
  all its material values are finite and non-negative.
\<close>

definition demo_hot :: "int \<Rightarrow> unit Material" where
  "demo_hot i =
     (if i = 0 then
        \<lparr>mcolor = Vec3 (Finite FLT_MAX) (Finite FLT_MAX) (Finite FLT_MAX), emittance = Finite 2,
         bsdf = ()\<rparr>
      else demo_materials i)"

definition demo_hot_scene :: "(real \<times> int, unit) Scene" where
  "demo_hot_scene = demo_scene\<lparr>materials := demo_hot\<rparr>"

text \<open>In that scene, the path of pixel 1 once it has met the light, and the path of pixel 0 once it has.\<close>

definition demo_glare :: PathSegment where
  "demo_glare =
     \<lparr>ray = \<lparr>origin = Vec3 0 0 0, direction = normalize_vec (Vec3 0 (1 / 2) 1),
              intersect = Vec3 0 0 3\<rparr>,
      color = Vec3 PInf PInf PInf, pixelIndex = 1, remainingBounces = 0\<rparr>"

definition demo_burnt :: PathSegment where
  "demo_burnt =
     \<lparr>ray = \<lparr>origin = Vec3 0 0 4, direction = Vec3 0 0 (- 1), intersect = Vec3 0 0 3\<rparr>,
      color = Vec3 PInf PInf NaN, pixelIndex = 0, remainingBounces = 0\<rparr>"

text \<open>The scripted scene with a trace depth of 0.\<close>

definition demo_flat_scene :: "(real \<times> int, unit) Scene" where
  "demo_flat_scene = demo_scene\<lparr>traceDepth := 0\<rparr>"


text \<open>
  A scene whose only geometry is a bounding volume that no ray enters (the scripted bounding
  test passes for a positive distance only), and the scripted parameters with a local
  \<^verbatim>\<open>t\<close> that starts at 1 instead of 0.
\<close>

definition demo_volume :: "(real \<times> int) Geom" where
  "demo_volume = \<lparr>gtype = BV, materialid = 7, shape = (0, 0)\<rparr>"

definition demo_stale_ext :: "(real \<times> int, unit) ext" where
  "demo_stale_ext = demo_ext\<lparr>uninit_t := (\<lambda>d i. 1)\<rparr>"

section \<open>Kernel launches as maps over the active range\<close>

lemma fold_guarded_update_snoc:
  "n \<le> length xs \<Longrightarrow>
   fold (\<lambda>i ys. if i < n then ys[i := f i (ys ! i)] else ys) [0..<m] xs =
   map (\<lambda>i. f i (xs ! i)) [0..<min m n] @ drop (min m n) xs"
proof (induction m)
  case 0
  then show ?case by simp
next
  case (Suc m)
  show ?case
  proof (cases "m < n")
    case True
    then have mn: "min m n = m" "min (Suc m) n = Suc m" by simp_all
    have len: "m < length xs" using True Suc.prems by simp
    have "fold (\<lambda>i ys. if i < n then ys[i := f i (ys ! i)] else ys) [0..<Suc m] xs =
          (map (\<lambda>i. f i (xs ! i)) [0..<m] @ drop m xs)[m := f m ((map (\<lambda>i. f i (xs ! i)) [0..<m] @ drop m xs) ! m)]"
      using Suc.IH[OF Suc.prems] True mn by simp
    also have "(map (\<lambda>i. f i (xs ! i)) [0..<m] @ drop m xs) ! m = xs ! m"
      using len by (simp add: nth_append)
    also have "(map (\<lambda>i. f i (xs ! i)) [0..<m] @ drop m xs)[m := f m (xs ! m)] =
               map (\<lambda>i. f i (xs ! i)) [0..<m] @ (drop m xs)[0 := f m (xs ! m)]"
      by (simp add: list_update_append)
    also have "(drop m xs)[0 := f m (xs ! m)] = f m (xs ! m) # drop (Suc m) xs"
      using len by (simp add: Cons_nth_drop_Suc[symmetric])
    finally show ?thesis using mn by simp
  next
    case False
    then have mn: "min m n = n" "min (Suc m) n = n" by simp_all
    show ?thesis using Suc.IH[OF Suc.prems] False mn by simp
  qed
qed

lemma launch1d_guarded_update:
  assumes "n \<le> length xs" and "n \<le> numBlocks * blockSize"
  shows "launch1d numBlocks blockSize (\<lambda>i ys. if i < n then ys[i := f i (ys ! i)] else ys) xs =
         map (\<lambda>i. f i (xs ! i)) [0..<n] @ drop n xs"
  using fold_guarded_update_snoc[OF assms(1), of f "numBlocks * blockSize"] assms(2)
  by (simp add: launch1d_def min_absorb2)

lemma grid_covers: "n \<le> numblocks1d n * blockSize1d"
proof -
  have "(n + 127) mod 128 \<le> 127" by simp
  moreover have "(n + 127) div 128 * 128 + (n + 127) mod 128 = n + 127" by simp
  ultimately have "n \<le> ((n + 127) div 128) * (128::nat)" by linarith
  then show ?thesis by (simp add: blockSize1d_def numblocks1d_def)
qed

lemma shadeMaterial_launch:
  assumes "n \<le> length pathSegments"
  shows "launch1d (numblocks1d n) blockSize1d
           (shadeMaterial E iter n isects mats dep) pathSegments =
         map (\<lambda>i. shadeMaterial_path E iter i (isects ! i) mats dep (pathSegments ! i)) [0..<n]
           @ drop n pathSegments"
proof -
  have "shadeMaterial E iter n isects mats dep =
        (\<lambda>i ys. if i < n then ys[i := shadeMaterial_path E iter i (isects ! i) mats dep (ys ! i)] else ys)"
    by (intro ext) (simp add: shadeMaterial_def)
  then show ?thesis
    using launch1d_guarded_update[OF assms grid_covers, of "\<lambda>i. shadeMaterial_path E iter i (isects ! i) mats dep"]
    by simp
qed

lemma shadeMaterial_launch_nth:
  assumes "n \<le> length pathSegments" "idx < n"
  shows "launch1d (numblocks1d n) blockSize1d
           (shadeMaterial E iter n isects mats dep) pathSegments ! idx =
         shadeMaterial_path E iter idx (isects ! idx) mats dep (pathSegments ! idx)"
  by (subst shadeMaterial_launch[OF assms(1)]) (simp add: nth_append assms(2))

lemma fold_guarded_update2:
  assumes "n \<le> length xs" "n \<le> length ws"
  shows "fold (\<lambda>i s. case s of (ys, zs) \<Rightarrow>
                 if i < n then (ys[i := f i (ys ! i)], zs[i := g i (ys ! i) (zs ! i)]) else (ys, zs))
           [0..<m] (xs, ws) =
         (map (\<lambda>i. f i (xs ! i)) [0..<min m n] @ drop (min m n) xs,
          map (\<lambda>i. g i (xs ! i) (ws ! i)) [0..<min m n] @ drop (min m n) ws)"
proof (induction m)
  case 0
  then show ?case by simp
next
  case (Suc m)
  show ?case
  proof (cases "m < n")
    case True
    then have mn: "min m n = m" "min (Suc m) n = Suc m" by simp_all
    have len: "m < length xs" "m < length ws" using True assms by simp_all
    have a: "(map (\<lambda>i. f i (xs ! i)) [0..<m] @ drop m xs) ! m = xs ! m"
      using len by (simp add: nth_append)
    have b: "(map (\<lambda>i. g i (xs ! i) (ws ! i)) [0..<m] @ drop m ws) ! m = ws ! m"
      using len by (simp add: nth_append)
    have c: "(map h [0..<m] @ drop m us)[m := v] = map h [0..<m] @ v # drop (Suc m) us"
      if "m < length us" for h :: "nat \<Rightarrow> 'z" and us v
      using that by (simp add: list_update_append Cons_nth_drop_Suc[symmetric])
    show ?thesis
      using Suc.IH True mn len by (simp add: a b c)
  next
    case False
    then have mn: "min m n = n" "min (Suc m) n = n" by simp_all
    show ?thesis using Suc.IH False mn by simp
  qed
qed

lemma computeIntersections_launch:
  assumes "n \<le> length ps" "n \<le> length iss"
  shows "launch1d (numblocks1d n) blockSize1d
           (computeIntersections E dep n gs ts gsz tsz) (ps, iss) =
         (map (\<lambda>i. (ps ! i)\<lparr>ray := (ray (ps ! i))\<lparr>intersect :=
                  l_ray_intersect (scan_geoms E dep i gs ts gsz tsz (ps ! i))\<rparr>\<rparr>) [0..<n] @ drop n ps,
          map (\<lambda>i. write_intersection gs ts (scan_geoms E dep i gs ts gsz tsz (ps ! i)) (iss ! i)) [0..<n]
            @ drop n iss)"
proof -
  have eq: "computeIntersections E dep n gs ts gsz tsz =
        (\<lambda>i s. case s of (ys, zs) \<Rightarrow>
           if i < n then
             (ys[i := (\<lambda>i p. p\<lparr>ray := (ray p)\<lparr>intersect := l_ray_intersect (scan_geoms E dep i gs ts gsz tsz p)\<rparr>\<rparr>) i (ys ! i)],
              zs[i := (\<lambda>i p z. write_intersection gs ts (scan_geoms E dep i gs ts gsz tsz p) z) i (ys ! i) (zs ! i)])
           else (ys, zs))"
    by (intro ext) (simp add: computeIntersections_def Let_def split: prod.splits)
  have m: "min (numblocks1d n * blockSize1d) n = n"
    using grid_covers[of n] by (simp add: min_absorb2)
  show ?thesis
    unfolding launch1d_def eq
    by (subst fold_guarded_update2[OF assms]) (simp only: m)
qed

lemma map_upt_nth_carried:
  assumes "n \<le> length ps" "\<And>i. i < n \<Longrightarrow> carried (f i (ps ! i)) = carried (ps ! i)"
  shows "map carried (map (\<lambda>i. f i (ps ! i)) [0..<n] @ drop n ps) = map carried ps"
proof -
  have "map carried (map (\<lambda>i. f i (ps ! i)) [0..<n]) = map carried (take n ps)"
    using assms by (auto simp: list_eq_iff_nth_eq)
  then have "map carried (map (\<lambda>i. f i (ps ! i)) [0..<n] @ drop n ps) = map carried (take n ps @ drop n ps)"
    by (simp only: map_append)
  then show ?thesis by (simp only: append_take_drop_id)
qed

lemma stage_intersect_paths:
  assumes "num_paths d \<le> length (dev_paths d)" "length (dev_intersections d) = pixelcount scene"
      "num_paths d \<le> pixelcount scene"
  shows "dev_paths (stage_intersect E scene d) =
           map (\<lambda>i. (dev_paths d ! i)\<lparr>ray := (ray (dev_paths d ! i))\<lparr>intersect :=
                  l_ray_intersect (scan_geoms E (depth d) i (geoms scene) (triangles scene)
                     (length (geoms scene)) (length (triangles scene)) (dev_paths d ! i))\<rparr>\<rparr>)
             [0..<num_paths d] @ drop (num_paths d) (dev_paths d)"
proof -
  have "num_paths d \<le> length (cudaMemset_intersections (pixelcount scene) (dev_intersections d))"
    using assms by (simp add: cudaMemset_intersections_def)
  then show ?thesis
    by (simp add: stage_intersect_def numblocksPathSegmentTracing_def Let_def
        computeIntersections_launch[OF assms(1)])
qed

lemma stage_intersect_fields:
  "num_paths (stage_intersect E scene d) = num_paths d"
  "depth (stage_intersect E scene d) = depth d + 1"
  "dev_image (stage_intersect E scene d) = dev_image d"
  by (simp_all add: stage_intersect_def Let_def split: prod.splits)

lemma stage_intersect_carried:
  assumes "num_paths d \<le> length (dev_paths d)" "length (dev_intersections d) = pixelcount scene"
      "num_paths d \<le> pixelcount scene"
  shows "map carried (dev_paths (stage_intersect E scene d)) = map carried (dev_paths d)"
  unfolding stage_intersect_paths[OF assms]
  by (rule map_upt_nth_carried[OF assms(1)]) (simp add: carried_def)

lemma stage_intersect_length:
  assumes "num_paths d \<le> length (dev_paths d)" "length (dev_intersections d) = pixelcount scene"
      "num_paths d \<le> pixelcount scene"
  shows "length (dev_paths (stage_intersect E scene d)) = length (dev_paths d)"
    and "length (dev_intersections (stage_intersect E scene d)) = pixelcount scene"
proof -
  show "length (dev_paths (stage_intersect E scene d)) = length (dev_paths d)"
    using stage_intersect_carried[OF assms, of E] by (metis length_map)
  have "num_paths d \<le> length (cudaMemset_intersections (pixelcount scene) (dev_intersections d))"
    using assms by (simp add: cudaMemset_intersections_def)
  then show "length (dev_intersections (stage_intersect E scene d)) = pixelcount scene"
    using assms
    by (simp add: stage_intersect_def numblocksPathSegmentTracing_def Let_def
        computeIntersections_launch[OF assms(1)] cudaMemset_intersections_def)
qed


lemma stage_shade_paths:
  assumes "num_paths d \<le> length (dev_paths d)"
  shows "dev_paths (stage_shade E scene iter d) =
           map (\<lambda>i. shadeMaterial_path E iter i (dev_intersections d ! i) (materials scene) (depth d)
                      (dev_paths d ! i)) [0..<num_paths d]
             @ drop (num_paths d) (dev_paths d)"
  by (simp add: stage_shade_def numblocksPathSegmentTracing_def shadeMaterial_launch[OF assms])

lemma stage_shade_fields:
  "num_paths (stage_shade E scene iter d) = num_paths d"
  "depth (stage_shade E scene iter d) = depth d"
  "dev_image (stage_shade E scene iter d) = dev_image d"
  "dev_intersections (stage_shade E scene iter d) = dev_intersections d"
  by (simp_all add: stage_shade_def)

lemma stage_shade_length:
  assumes "num_paths d \<le> length (dev_paths d)"
  shows "length (dev_paths (stage_shade E scene iter d)) = length (dev_paths d)"
  using assms by (simp add: stage_shade_paths)

lemma stage_shade_nth:
  assumes "num_paths d \<le> length (dev_paths d)" "i < length (dev_paths d)"
  shows "dev_paths (stage_shade E scene iter d) ! i =
           (if i < num_paths d then
              shadeMaterial_path E iter i (dev_intersections d ! i) (materials scene) (depth d)
                (dev_paths d ! i)
            else dev_paths d ! i)"
  using assms by (simp add: stage_shade_paths nth_append)

lemma shade_terminated: "remainingBounces p \<le> 0 \<Longrightarrow> shadeMaterial_path E iter i x mats dep p = p"
  by (simp add: shadeMaterial_path_def)

lemma shade_pixelIndex:
  "scatter_keeps_identity (scatterRay E) \<Longrightarrow>
   pixelIndex (shadeMaterial_path E iter i x mats dep p) = pixelIndex p"
  by (simp add: shadeMaterial_path_def scatter_keeps_identity_def Let_def)

lemma shade_remainingBounces:
  assumes "scatter_keeps_identity (scatterRay E)"
  shows "remainingBounces (shadeMaterial_path E iter i x mats dep p) \<le> remainingBounces p"
    and "0 < remainingBounces p \<Longrightarrow>
           remainingBounces (shadeMaterial_path E iter i x mats dep p) < remainingBounces p
           \<and> 0 \<le> remainingBounces (shadeMaterial_path E iter i x mats dep p)"
  using assms by (simp_all add: shadeMaterial_path_def scatter_keeps_identity_def Let_def)

text \<open>The facts that evaluate colour arithmetic on given values.\<close>

lemmas float_eval = zero_float_def one_float_def to_float_def inf_times_def FLT_MAX_def

text \<open>Products of colour channels: no negative channel comes from factors that have none.\<close>

lemma FLT_MAX_pos: "0 < FLT_MAX"
  by (simp add: FLT_MAX_def)

lemma to_float_not_negative: "0 \<le> r \<Longrightarrow> \<not> to_float r < 0"
  using FLT_MAX_pos by (simp add: to_float_def zero_float_def)

lemma float_le_not_less: "(a::float) \<le> b \<Longrightarrow> \<not> b < a"
  by (cases a; cases b) simp_all

lemma float_less_not_less: "(a::float) < b \<Longrightarrow> \<not> b < a"
  by (cases a; cases b) simp_all

lemma float_times_not_negative:
  assumes "\<not> a < (0::float)" "\<not> b < 0"
  shows "\<not> a * b < 0"
proof (cases a)
  case (Finite x)
  then have x: "0 \<le> x" using assms(1) by (simp add: zero_float_def)
  show ?thesis
  proof (cases b)
    case (Finite y)
    then have "0 \<le> y" using assms(2) by (simp add: zero_float_def)
    then have "0 \<le> x * y" using x by simp
    then show ?thesis using \<open>a = Finite x\<close> Finite by (simp add: to_float_not_negative)
  next
    case PInf
    then show ?thesis using \<open>a = Finite x\<close> x by (simp add: inf_times_def zero_float_def)
  next
    case NInf
    then show ?thesis using assms(2) by (simp add: zero_float_def)
  next
    case NaN
    then show ?thesis using \<open>a = Finite x\<close> by (simp add: zero_float_def)
  qed
next
  case PInf
  show ?thesis
  proof (cases b)
    case (Finite y)
    then have "0 \<le> y" using assms(2) by (simp add: zero_float_def)
    then show ?thesis using PInf Finite by (simp add: inf_times_def zero_float_def)
  next
    case NInf
    then show ?thesis using assms(2) by (simp add: zero_float_def)
  qed (simp_all add: PInf zero_float_def)
next
  case NInf
  then show ?thesis using assms(1) by (simp add: zero_float_def)
next
  case NaN
  then show ?thesis by (simp add: zero_float_def)
qed

lemma nonneg_not_negative: "nonneg (v::float vec3) \<Longrightarrow> not_negative v"
  by (simp add: nonneg_def not_negative_def float_le_not_less)

lemma not_negative_vmul_smul:
  assumes "not_negative c" "nonneg m" "0 < e"
  shows "not_negative (vmul c (smul m e))"
proof -
  have e: "\<not> e < 0" by (rule float_less_not_less[OF assms(3)])
  have m: "not_negative m" by (rule nonneg_not_negative[OF assms(2)])
  show ?thesis
    using assms(1) m e
    by (cases c; cases m) (simp add: not_negative_def float_times_not_negative)
qed

lemma shade_not_negative:
  assumes "scatter_keeps_sign (scatterRay E)" "\<forall>k. nonneg (mcolor (mats k))"
    "not_negative (color p)"
  shows "not_negative (color (shadeMaterial_path E iter i x mats dep p))"
proof -
  have z: "not_negative (Vec3 0 0 0)" by (simp add: not_negative_def zero_float_def)
  show ?thesis
    using assms z
    by (auto simp: shadeMaterial_path_def scatter_keeps_sign_def Let_def
        intro!: not_negative_vmul_smul)
qed

lemma compact_paths_contract:
  assumes "partition_contract (thrust_partition E)" "n \<le> length ps"
  obtains front k where
    "thrust_partition E has_no_bounces (take n ps) = (front, k)"
    "compact_paths E n ps = (front @ drop n ps, k)"
    "mset front = mset (take n ps)" "length front = n" "k \<le> n"
    "\<forall>p \<in> set (take k front). 0 < remainingBounces p"
    "\<forall>p \<in> set (drop k front). remainingBounces p \<le> 0"
proof -
  obtain front k where fk: "thrust_partition E has_no_bounces (take n ps) = (front, k)"
    by (cases "thrust_partition E has_no_bounces (take n ps)")
  from assms(1) have c: "mset front = mset (take n ps) \<and> k \<le> length front
      \<and> (\<forall>y \<in> set (take k front). has_no_bounces y) \<and> (\<forall>y \<in> set (drop k front). \<not> has_no_bounces y)"
    unfolding partition_contract_def
    by (metis (mono_tags, lifting) fk case_prod_conv)
  have len: "length front = n"
    using c assms(2) by (metis length_take min_absorb2 size_mset)
  show thesis
  proof (rule that[OF fk])
    show "compact_paths E n ps = (front @ drop n ps, k)" by (simp add: compact_paths_def fk)
    show "mset front = mset (take n ps)" using c by simp
    show "length front = n" by (rule len)
    show "k \<le> n" using c len by simp
    show "\<forall>p \<in> set (take k front). 0 < remainingBounces p" using c by (simp add: has_no_bounces_def)
    show "\<forall>p \<in> set (drop k front). remainingBounces p \<le> 0"
      using c by (auto simp: has_no_bounces_def not_less)
  qed
qed


lemma stage_compact_fields:
  "depth (stage_compact E d) = depth d"
  "dev_image (stage_compact E d) = dev_image d"
  "dev_intersections (stage_compact E d) = dev_intersections d"
  by (simp_all add: stage_compact_def split: prod.splits)

section \<open>The stages of one pass\<close>

lemma stage_sort_off: "stage_sort E False d = d"
  by (simp add: stage_sort_def)

lemma bounce_loop_funpow:
  assumes "iteration_complete scene (((bounce_step E ms scene iter) ^^ Suc k) d)"
      and "\<forall>j<k. \<not> iteration_complete scene (((bounce_step E ms scene iter) ^^ Suc j) d)"
  shows "bounce_loop E ms scene iter d =
           Some ((((bounce_step E ms scene iter) ^^ Suc k) d)\<lparr>num_paths := pixelcount scene\<rparr>)"
  using assms
proof (induction k arbitrary: d)
  case 0
  then show ?case by (subst bounce_loop.simps) (simp add: Let_def)
next
  case (Suc k)
  let ?f = "bounce_step E ms scene iter"
  have sh: "(?f ^^ Suc n) x = (?f ^^ n) (?f x)" for n x
    by (simp add: funpow_swap1)
  have nc: "\<not> iteration_complete scene (?f d)"
    using Suc.prems(2)[rule_format, of 0] by simp
  have a: "iteration_complete scene ((?f ^^ Suc k) (?f d))"
    using Suc.prems(1) unfolding sh[of "Suc k" d] .
  have b: "\<forall>j<k. \<not> iteration_complete scene ((?f ^^ Suc j) (?f d))"
  proof (intro allI impI)
    fix j assume "j < k"
    then have "Suc j < Suc k" by simp
    then have "\<not> iteration_complete scene ((?f ^^ Suc (Suc j)) d)"
      using Suc.prems(2) by blast
    then show "\<not> iteration_complete scene ((?f ^^ Suc j) (?f d))"
      unfolding sh[of "Suc j" d] .
  qed
  have "bounce_loop E ms scene iter d = bounce_loop E ms scene iter (?f d)"
    by (subst bounce_loop.simps) (simp add: Let_def nc)
  also have "\<dots> = Some (((?f ^^ Suc k) (?f d))\<lparr>num_paths := pixelcount scene\<rparr>)"
    by (rule Suc.IH[OF a b])
  also have "(?f ^^ Suc k) (?f d) = (?f ^^ Suc (Suc k)) d"
    by (rule sh[symmetric])
  finally show ?case .
qed

text \<open>One pass, with the sort switched off.\<close>

lemma wf_stage_intersect:
  assumes "wf_device scene d"
  shows "wf_device scene (stage_intersect E scene d)"
proof -
  from assms have a: "num_paths d \<le> length (dev_paths d)"
    "length (dev_intersections d) = pixelcount scene" "num_paths d \<le> pixelcount scene"
    by (simp_all add: wf_device_def)
  show ?thesis
    using assms stage_intersect_length[OF a, of E] stage_intersect_fields[of E scene d]
    by (simp add: wf_device_def)
qed

lemma wf_stage_shade:
  assumes "wf_device scene d"
  shows "wf_device scene (stage_shade E scene iter d)"
proof -
  from assms have a: "num_paths d \<le> length (dev_paths d)" by (simp add: wf_device_def)
  show ?thesis
    using assms stage_shade_length[OF a, of E scene iter] stage_shade_fields[of E scene iter d]
    by (simp add: wf_device_def)
qed

lemma stage_compact_facts:
  assumes "partition_contract (thrust_partition E)" "num_paths d \<le> length (dev_paths d)"
  shows "num_paths (stage_compact E d) \<le> num_paths d"
    and "mset (dev_paths (stage_compact E d)) = mset (dev_paths d)"
    and "length (dev_paths (stage_compact E d)) = length (dev_paths d)"
    and "\<forall>p \<in> set (take (num_paths (stage_compact E d)) (dev_paths (stage_compact E d))). 0 < remainingBounces p"
    and "(\<forall>p \<in> set (drop (num_paths d) (dev_paths d)). remainingBounces p \<le> 0) \<Longrightarrow>
         \<forall>p \<in> set (drop (num_paths (stage_compact E d)) (dev_paths (stage_compact E d))). remainingBounces p \<le> 0"
    and "num_paths (stage_compact E d) = length (filter (\<lambda>p. 0 < remainingBounces p) (take (num_paths d) (dev_paths d)))"
proof -
  obtain front k where c:
    "compact_paths E (num_paths d) (dev_paths d) = (front @ drop (num_paths d) (dev_paths d), k)"
    "mset front = mset (take (num_paths d) (dev_paths d))" "length front = num_paths d"
    "k \<le> num_paths d"
    "\<forall>p \<in> set (take k front). 0 < remainingBounces p"
    "\<forall>p \<in> set (drop k front). remainingBounces p \<le> 0"
    using compact_paths_contract[OF assms] by metis
  have ps': "dev_paths (stage_compact E d) = front @ drop (num_paths d) (dev_paths d)"
    and k: "num_paths (stage_compact E d) = k"
    by (simp_all add: stage_compact_def c(1))
  show "num_paths (stage_compact E d) \<le> num_paths d" using c(4) k by simp
  show m: "mset (dev_paths (stage_compact E d)) = mset (dev_paths d)"
  proof -
    have "mset (front @ drop (num_paths d) (dev_paths d))
        = mset (take (num_paths d) (dev_paths d) @ drop (num_paths d) (dev_paths d))"
      using c(2) by (simp only: mset_append)
    then show ?thesis by (simp add: ps')
  qed
  show "length (dev_paths (stage_compact E d)) = length (dev_paths d)"
    using m by (metis size_mset)
  show "\<forall>p \<in> set (take (num_paths (stage_compact E d)) (dev_paths (stage_compact E d))). 0 < remainingBounces p"
    using c(3,4,5) by (simp add: ps' k)
  show "\<forall>p \<in> set (drop (num_paths (stage_compact E d)) (dev_paths (stage_compact E d))). remainingBounces p \<le> 0"
    if "\<forall>p \<in> set (drop (num_paths d) (dev_paths d)). remainingBounces p \<le> 0"
    using c(3,4,6) that by (auto simp: ps' k)
  show "num_paths (stage_compact E d) = length (filter (\<lambda>p. 0 < remainingBounces p) (take (num_paths d) (dev_paths d)))"
  proof -
    have "filter (\<lambda>p. 0 < remainingBounces p) (take k front @ drop k front) = take k front"
      unfolding filter_append using c(5,6) by (auto simp: filter_empty_conv not_less)
    then have "length (filter (\<lambda>p. 0 < remainingBounces p) front) = k"
      using c(3,4) by simp
    moreover have "mset (filter (\<lambda>p. 0 < remainingBounces p) front)
        = mset (filter (\<lambda>p. 0 < remainingBounces p) (take (num_paths d) (dev_paths d)))"
      using c(2) by (metis mset_filter)
    ultimately show ?thesis by (metis size_mset k)
  qed
qed

lemma wf_stage_compact:
  assumes "partition_contract (thrust_partition E)" "wf_device scene d"
  shows "wf_device scene (stage_compact E d)"
proof -
  from assms(2) have a: "num_paths d \<le> length (dev_paths d)" by (simp add: wf_device_def)
  show ?thesis
    using assms(2) stage_compact_facts(1,3)[OF assms(1) a] stage_compact_fields[of E d]
    by (simp add: wf_device_def)
qed

lemma stage_intersect_drop:
  assumes "wf_device scene d"
  shows "drop (num_paths d) (dev_paths (stage_intersect E scene d)) = drop (num_paths d) (dev_paths d)"
proof -
  from assms have a: "num_paths d \<le> length (dev_paths d)"
    "length (dev_intersections d) = pixelcount scene" "num_paths d \<le> pixelcount scene"
    by (simp_all add: wf_device_def)
  show ?thesis by (simp add: stage_intersect_paths[OF a])
qed

lemma stage_shade_drop:
  assumes "num_paths d \<le> length (dev_paths d)"
  shows "drop (num_paths d) (dev_paths (stage_shade E scene iter d)) = drop (num_paths d) (dev_paths d)"
  by (simp add: stage_shade_paths[OF assms])

lemma loop_inv_step:
  assumes "partition_contract (thrust_partition E)" "loop_inv scene d"
  shows "loop_inv scene (bounce_step E False scene iter d)"
proof -
  let ?A = "stage_intersect E scene d"
  let ?B = "stage_shade E scene iter ?A"
  from assms(2) have wf: "wf_device scene d"
    and tl: "\<forall>p \<in> set (drop (num_paths d) (dev_paths d)). remainingBounces p \<le> 0"
    by (simp_all add: loop_inv_def)
  have wfA: "wf_device scene ?A" by (rule wf_stage_intersect[OF wf])
  have wfB: "wf_device scene ?B" by (rule wf_stage_shade[OF wfA])
  have nA: "num_paths ?A = num_paths d" by (simp add: stage_intersect_fields)
  have nB: "num_paths ?B = num_paths d" by (simp add: stage_shade_fields nA)
  have lA: "num_paths ?A \<le> length (dev_paths ?A)" using wfA by (simp add: wf_device_def)
  have lB: "num_paths ?B \<le> length (dev_paths ?B)" using wfB by (simp add: wf_device_def)
  have "drop (num_paths ?B) (dev_paths ?B) = drop (num_paths d) (dev_paths d)"
    using stage_shade_drop[OF lA, of E scene iter] stage_intersect_drop[OF wf, of E]
    by (simp add: nA nB)
  then have tlB: "\<forall>p \<in> set (drop (num_paths ?B) (dev_paths ?B)). remainingBounces p \<le> 0"
    using tl by simp
  show ?thesis
    unfolding loop_inv_def bounce_step_def stage_sort_off
    using wf_stage_compact[OF assms(1) wfB] stage_compact_facts(5)[OF assms(1) lB tlB]
    by simp
qed

lemma bounce_step_fields:
  "depth (bounce_step E False scene iter d) = depth d + 1"
  "dev_image (bounce_step E False scene iter d) = dev_image d"
  by (simp_all add: bounce_step_def stage_sort_off stage_compact_fields stage_shade_fields
      stage_intersect_fields)

section \<open>Launches that write one slot per thread\<close>

lemma fold_slot_update:
  fixes idx :: "'k \<Rightarrow> nat" and g :: "'k \<Rightarrow> bool" and f :: "'k \<Rightarrow> 'a \<Rightarrow> 'a"
  defines "F \<equiv> (\<lambda>k ys. if g k then ys[idx k := f k (ys ! idx k)] else ys)"
  assumes "distinct ks" "inj_on idx {k \<in> set ks. g k}" "\<forall>k \<in> set ks. g k \<longrightarrow> idx k < length xs"
  shows "length (fold F ks xs) = length xs"
    and "\<forall>k \<in> set ks. g k \<longrightarrow> fold F ks xs ! idx k = f k (xs ! idx k)"
    and "\<forall>j < length xs. (\<forall>k \<in> set ks. g k \<longrightarrow> idx k \<noteq> j) \<longrightarrow> fold F ks xs ! j = xs ! j"
proof -
  have len: "length (fold F ks xs) = length xs" for ks xs
    by (induction ks arbitrary: xs) (simp_all add: F_def)
  show "length (fold F ks xs) = length xs" by (rule len)
  have untouched: "fold F ks xs ! j = xs ! j"
    if "\<forall>k \<in> set ks. g k \<longrightarrow> idx k \<noteq> j" for ks xs j
    using that by (induction ks arbitrary: xs) (simp_all add: F_def)
  show "\<forall>j < length xs. (\<forall>k \<in> set ks. g k \<longrightarrow> idx k \<noteq> j) \<longrightarrow> fold F ks xs ! j = xs ! j"
    using untouched by blast
  show "\<forall>k \<in> set ks. g k \<longrightarrow> fold F ks xs ! idx k = f k (xs ! idx k)"
    using assms(2,3,4)
  proof (induction ks arbitrary: xs)
    case Nil
    then show ?case by simp
  next
    case (Cons a ks)
    have d: "distinct ks" and a: "a \<notin> set ks" using Cons.prems(1) by simp_all
    have inj: "inj_on idx {k \<in> set ks. g k}"
      by (rule inj_on_subset[OF Cons.prems(2)]) auto
    have lenF: "length (F a xs) = length xs" by (simp add: F_def)
    have bnd: "\<forall>k \<in> set ks. g k \<longrightarrow> idx k < length (F a xs)"
      using Cons.prems(3) lenF by simp
    note IH = Cons.IH[OF d inj bnd]
    show ?case
    proof (intro ballI impI)
      fix k assume k: "k \<in> set (a # ks)" and gk: "g k"
      show "fold F (a # ks) xs ! idx k = f k (xs ! idx k)"
      proof (cases "k = a")
        case True
        have "\<forall>k' \<in> set ks. g k' \<longrightarrow> idx k' \<noteq> idx a"
        proof (intro ballI impI)
          fix k' assume k': "k' \<in> set ks" "g k'"
          then have "k' \<noteq> a" using a by auto
          moreover have "k' \<in> {k \<in> set (a # ks). g k}" "a \<in> {k \<in> set (a # ks). g k}"
            using k' gk True by auto
          ultimately show "idx k' \<noteq> idx a"
            using inj_onD[OF Cons.prems(2), of k' a] by blast
        qed
        then have "fold F ks (F a xs) ! idx a = F a xs ! idx a" by (rule untouched)
        moreover have "idx a < length xs" using Cons.prems(3) gk True by simp
        ultimately show ?thesis using gk True by (simp add: F_def)
      next
        case False
        then have kin: "k \<in> set ks" using k by simp
        have "idx a \<noteq> idx k" if "g a"
        proof -
          have "k \<in> {k \<in> set (a # ks). g k}" "a \<in> {k \<in> set (a # ks). g k}"
            using kin gk that by auto
          then show ?thesis using inj_onD[OF Cons.prems(2), of a k] False by blast
        qed
        then have "F a xs ! idx k = xs ! idx k" by (auto simp: F_def)
        then show ?thesis using IH kin gk by simp
      qed
    qed
  qed
qed

lemma grid2d_covers: "n \<le> ((n + 8 - 1) div 8) * (8::nat)"
proof -
  have "(n + 7) mod 8 \<le> 7" by simp
  moreover have "(n + 7) div 8 * 8 + (n + 7) mod 8 = n + 7" by simp
  ultimately have "n \<le> ((n + 7) div 8) * (8::nat)" by linarith
  then show ?thesis by simp
qed

lemma pixel_index_inj:
  fixes w :: nat
  assumes "x < w" "x' < w" "x + y * w = x' + y' * w"
  shows "x = x' \<and> y = y'"
proof -
  have "(x + y * w) mod w = (x' + y' * w) mod w" using assms(3) by simp
  then have xx: "x = x'" using assms(1,2) by simp
  have "(x + y * w) div w = (x' + y' * w) div w" using assms(3) by simp
  then have "y = y'" using assms(1,2) by simp
  with xx show ?thesis by simp
qed

lemma generate_paths_slots:
  assumes "length ps = pixelcount scene"
  shows "length (generate_paths E scene iter ps) = pixelcount scene"
    and "\<forall>x < resolution_x (camera scene). \<forall>y < resolution_y (camera scene).
           generate_paths E scene iter ps ! (x + y * resolution_x (camera scene)) =
           generateRay_segment E (camera scene) iter (traceDepth scene) x y
             (ps ! (x + y * resolution_x (camera scene)))"
proof -
  let ?cam = "camera scene"
  let ?w = "resolution_x ?cam" and ?h = "resolution_y ?cam"
  let ?ks = "List.product [0..<fst (blocksPerGrid2d ?cam) * fst blockSize2d]
                          [0..<snd (blocksPerGrid2d ?cam) * snd blockSize2d]"
  let ?g = "\<lambda>(x, y). x < ?w \<and> y < ?h"
  let ?idx = "\<lambda>(x, y). x + y * ?w"
  let ?f = "\<lambda>(x, y). generateRay_segment E ?cam iter (traceDepth scene) x y"
  have F: "(\<lambda>(x, y). generateRayFromCamera E ?cam iter (traceDepth scene) x y) =
           (\<lambda>k ys. if ?g k then ys[?idx k := ?f k (ys ! ?idx k)] else ys)"
    by (intro ext) (simp add: generateRayFromCamera_def Let_def split: prod.splits)
  have dist: "distinct ?ks" by (simp add: distinct_product)
  have inj: "inj_on ?idx {k \<in> set ?ks. ?g k}"
    by (rule inj_onI) (auto dest: pixel_index_inj)
  have bound: "x + y * ?w < ?w * ?h" if "x < ?w" "y < ?h" for x y
  proof -
    have "x + y * ?w < ?w + y * ?w" using that by simp
    also have "\<dots> = (Suc y) * ?w" by simp
    also have "\<dots> \<le> ?h * ?w" using that by (intro mult_le_mono1) simp
    finally show ?thesis by (simp add: mult.commute)
  qed
  have bnd: "\<forall>k \<in> set ?ks. ?g k \<longrightarrow> ?idx k < length ps"
    using assms bound by (auto simp: pixelcount_def)
  note su = fold_slot_update[OF dist inj bnd, of ?f]
  have gp: "generate_paths E scene iter ps =
            fold (\<lambda>k ys. if ?g k then ys[?idx k := ?f k (ys ! ?idx k)] else ys) ?ks ps"
    unfolding generate_paths_def launch2d_def F ..
  show "length (generate_paths E scene iter ps) = pixelcount scene"
    using su(1) assms by (simp add: gp)
  show "\<forall>x < ?w. \<forall>y < ?h.
           generate_paths E scene iter ps ! (x + y * ?w) =
           generateRay_segment E ?cam iter (traceDepth scene) x y (ps ! (x + y * ?w))"
  proof (intro allI impI)
    fix x y assume xy: "x < ?w" "y < ?h"
    have "x < fst (blocksPerGrid2d ?cam) * fst blockSize2d"
      using xy(1) grid2d_covers[of ?w] by (simp add: blocksPerGrid2d_def blockSize2d_def)
    moreover have "y < snd (blocksPerGrid2d ?cam) * snd blockSize2d"
      using xy(2) grid2d_covers[of ?h] by (simp add: blocksPerGrid2d_def blockSize2d_def)
    ultimately have "(x, y) \<in> set ?ks" by simp
    with su(2) xy show "generate_paths E scene iter ps ! (x + y * ?w) =
           generateRay_segment E ?cam iter (traceDepth scene) x y (ps ! (x + y * ?w))"
      unfolding gp by fastforce
  qed
qed

lemma generate_paths_nth:
  assumes "length ps = pixelcount scene" "j < pixelcount scene"
  shows "generate_paths E scene iter ps ! j =
           generateRay_segment E (camera scene) iter (traceDepth scene)
             (j mod resolution_x (camera scene)) (j div resolution_x (camera scene)) (ps ! j)"
proof -
  let ?w = "resolution_x (camera scene)" and ?h = "resolution_y (camera scene)"
  have w: "0 < ?w" using assms(2) by (cases "?w = 0") (simp_all add: pixelcount_def)
  have x: "j mod ?w < ?w" using w by simp
  have y: "j div ?w < ?h"
    using assms(2) w by (simp add: pixelcount_def less_mult_imp_div_less mult.commute)
  have j: "j mod ?w + j div ?w * ?w = j" by simp
  show ?thesis
    using generate_paths_slots(2)[OF assms(1), of E iter] x y j by metis
qed

section \<open>The loop\<close>

lemma passes_0: "passes E scene iter 0 d = loop_entry E scene iter d"
  by (simp add: passes_def)

lemma passes_Suc:
  "passes E scene iter (Suc k) d = bounce_step E False scene iter (passes E scene iter k d)"
  by (simp add: passes_def MATERIALS_def)

lemma loop_entry_fields:
  "num_paths (loop_entry E scene iter d) = pixelcount scene"
  "depth (loop_entry E scene iter d) = 0"
  "dev_image (loop_entry E scene iter d) = dev_image d"
  "dev_intersections (loop_entry E scene iter d) = dev_intersections d"
  "dev_paths (loop_entry E scene iter d) = generate_paths E scene iter (dev_paths d)"
  by (simp_all add: loop_entry_def)

lemma loop_entry_nth:
  assumes "length (dev_paths d) = pixelcount scene" "j < pixelcount scene"
  shows "pixelIndex (dev_paths (loop_entry E scene iter d) ! j) = j"
    and "color (dev_paths (loop_entry E scene iter d) ! j) = Vec3 1 1 1"
    and "remainingBounces (dev_paths (loop_entry E scene iter d) ! j) = traceDepth scene"
  using generate_paths_nth[OF assms, of E iter]
  by (simp_all add: loop_entry_fields generateRay_segment_def Let_def)

lemma loop_entry_inv:
  assumes "wf_device scene d"
  shows "loop_inv scene (loop_entry E scene iter d)"
  using assms generate_paths_slots(1)[of "dev_paths d" scene E iter]
  by (simp add: loop_inv_def wf_device_def loop_entry_fields)

lemma passes_inv:
  assumes "partition_contract (thrust_partition E)" "wf_device scene d"
  shows "loop_inv scene (passes E scene iter k d)"
proof (induction k)
  case 0
  show ?case by (simp add: passes_0 loop_entry_inv[OF assms(2)])
next
  case (Suc k)
  show ?case unfolding passes_Suc by (rule loop_inv_step[OF assms(1) Suc])
qed

lemma passes_depth: "depth (passes E scene iter k d) = int k"
  by (induction k) (simp_all add: passes_0 passes_Suc loop_entry_fields bounce_step_fields)

lemma passes_image: "dev_image (passes E scene iter k d) = dev_image d"
  by (induction k) (simp_all add: passes_0 passes_Suc loop_entry_fields bounce_step_fields)

text \<open>A pass over paths that are all terminated leaves nothing active.\<close>

lemma bounce_step_carried_terminated:
  assumes "partition_contract (thrust_partition E)" "wf_device scene d"
    and "\<forall>p \<in> set (dev_paths d). remainingBounces p \<le> 0"
  shows "num_paths (bounce_step E False scene iter d) = 0"
    and "mset (map carried (dev_paths (bounce_step E False scene iter d))) = mset (map carried (dev_paths d))"
proof -
  let ?A = "stage_intersect E scene d"
  let ?B = "stage_shade E scene iter ?A"
  from assms(2) have a: "num_paths d \<le> length (dev_paths d)"
    "length (dev_intersections d) = pixelcount scene" "num_paths d \<le> pixelcount scene"
    by (simp_all add: wf_device_def)
  have wfA: "wf_device scene ?A" by (rule wf_stage_intersect[OF assms(2)])
  have wfB: "wf_device scene ?B" by (rule wf_stage_shade[OF wfA])
  have lA: "num_paths ?A \<le> length (dev_paths ?A)" using wfA by (simp add: wf_device_def)
  have lB: "num_paths ?B \<le> length (dev_paths ?B)" using wfB by (simp add: wf_device_def)
  have cA: "map carried (dev_paths ?A) = map carried (dev_paths d)"
    by (rule stage_intersect_carried[OF a])
  have rbA: "\<forall>p \<in> set (dev_paths ?A). remainingBounces p \<le> 0"
  proof
    fix p assume "p \<in> set (dev_paths ?A)"
    then have "carried p \<in> set (map carried (dev_paths d))" using cA by (metis image_eqI set_map)
    then obtain q where "q \<in> set (dev_paths d)" "carried q = carried p" by auto
    then show "remainingBounces p \<le> 0" using assms(3) by (auto simp: carried_def)
  qed
  have BA: "dev_paths ?B = dev_paths ?A"
  proof (rule nth_equalityI)
    show "length (dev_paths ?B) = length (dev_paths ?A)" by (rule stage_shade_length[OF lA])
    fix i assume "i < length (dev_paths ?B)"
    then have i: "i < length (dev_paths ?A)" using stage_shade_length[OF lA, of E scene iter] by simp
    then have "remainingBounces (dev_paths ?A ! i) \<le> 0" using rbA by simp
    then show "dev_paths ?B ! i = dev_paths ?A ! i"
      by (simp add: stage_shade_nth[OF lA i] shade_terminated)
  qed
  have "filter (\<lambda>p. 0 < remainingBounces p) (take (num_paths ?B) (dev_paths ?B)) = []"
  proof -
    have "\<forall>p \<in> set (take (num_paths ?B) (dev_paths ?B)). \<not> 0 < remainingBounces p"
      using rbA BA by (metis in_set_takeD not_less)
    then show ?thesis by (simp add: filter_empty_conv)
  qed
  then show "num_paths (bounce_step E False scene iter d) = 0"
    unfolding bounce_step_def stage_sort_off
    by (simp add: stage_compact_facts(6)[OF assms(1) lB])
  have "mset (dev_paths (stage_compact E ?B)) = mset (dev_paths ?A)"
    using stage_compact_facts(2)[OF assms(1) lB] BA by simp
  then have "mset (map carried (dev_paths (stage_compact E ?B))) = mset (map carried (dev_paths ?A))"
    by (metis mset_map)
  then show "mset (map carried (dev_paths (bounce_step E False scene iter d))) = mset (map carried (dev_paths d))"
    unfolding bounce_step_def stage_sort_off using cA by simp
qed

lemma exists_first_exit:
  assumes "partition_contract (thrust_partition E)" "wf_device scene d"
  shows "\<exists>n. iteration_complete scene (passes E scene iter (Suc n) d)
           \<and> (\<forall>j<n. \<not> iteration_complete scene (passes E scene iter (Suc j) d))
           \<and> (1 \<le> traceDepth scene \<longrightarrow> int (Suc n) \<le> traceDepth scene)
           \<and> (traceDepth scene \<le> 0 \<longrightarrow> n = 0)"
proof -
  let ?C = "\<lambda>n. iteration_complete scene (passes E scene iter (Suc n) d)"
  have ex: "\<exists>m. ?C m \<and> (1 \<le> traceDepth scene \<longrightarrow> int (Suc m) \<le> traceDepth scene)
                \<and> (traceDepth scene \<le> 0 \<longrightarrow> m = 0)"
  proof (cases "1 \<le> traceDepth scene")
    case True
    then obtain m where m: "int (Suc m) = traceDepth scene"
      by (metis Suc_pred' nat_0_iff nat_int not_less zless_nat_eq_int_zless int_nat_eq
          less_le_trans zero_less_one nat_eq_iff2 of_nat_0_less_iff order_less_le_trans zero_less_one)
    then have "?C m" by (simp add: iteration_complete_def passes_depth)
    with m True show ?thesis by auto
  next
    case False
    let ?e = "loop_entry E scene iter d"
    have wfe: "wf_device scene ?e" using loop_entry_inv[OF assms(2)] by (simp add: loop_inv_def)
    have len: "length (dev_paths d) = pixelcount scene" using assms(2) by (simp add: wf_device_def)
    have "\<forall>p \<in> set (dev_paths ?e). remainingBounces p \<le> 0"
    proof
      fix p assume "p \<in> set (dev_paths ?e)"
      then obtain j where j: "j < length (dev_paths ?e)" "p = dev_paths ?e ! j"
        by (metis in_set_conv_nth)
      then have "j < pixelcount scene" using wfe by (simp add: wf_device_def)
      then show "remainingBounces p \<le> 0"
        using loop_entry_nth(3)[OF len, of j E iter] j False by simp
    qed
    from bounce_step_carried_terminated(1)[OF assms(1) wfe this]
    have "?C 0" by (simp add: iteration_complete_def passes_Suc passes_0)
    with False show ?thesis by auto
  qed
  then obtain m where m: "?C m" "1 \<le> traceDepth scene \<longrightarrow> int (Suc m) \<le> traceDepth scene"
    "traceDepth scene \<le> 0 \<longrightarrow> m = 0" by blast
  define n where "n = (LEAST n. ?C n)"
  have Cn: "?C n" unfolding n_def using m(1) by (rule LeastI)
  have le: "n \<le> m" unfolding n_def using m(1) by (rule Least_le)
  have before: "\<forall>j<n. \<not> ?C j" unfolding n_def using not_less_Least by blast
  show ?thesis
    using Cn before le m(2,3) by (intro exI[of _ n]) auto
qed

lemma bounce_loop_result:
  assumes "partition_contract (thrust_partition E)" "wf_device scene d"
  obtains n where
    "bounce_loop E MATERIALS scene iter (loop_entry E scene iter d) =
       Some ((passes E scene iter (Suc n) d)\<lparr>num_paths := pixelcount scene\<rparr>)"
    "iteration_complete scene (passes E scene iter (Suc n) d)"
    "\<forall>j<n. \<not> iteration_complete scene (passes E scene iter (Suc j) d)"
    "1 \<le> traceDepth scene \<longrightarrow> int (Suc n) \<le> traceDepth scene"
    "traceDepth scene \<le> 0 \<longrightarrow> n = 0"
proof -
  obtain n where n: "iteration_complete scene (passes E scene iter (Suc n) d)"
    "\<forall>j<n. \<not> iteration_complete scene (passes E scene iter (Suc j) d)"
    "1 \<le> traceDepth scene \<longrightarrow> int (Suc n) \<le> traceDepth scene"
    "traceDepth scene \<le> 0 \<longrightarrow> n = 0"
    using exists_first_exit[OF assms] by blast
  have "bounce_loop E MATERIALS scene iter (loop_entry E scene iter d) =
       Some ((passes E scene iter (Suc n) d)\<lparr>num_paths := pixelcount scene\<rparr>)"
    unfolding passes_def
    by (rule bounce_loop_funpow) (use n(1,2) in \<open>simp_all only: passes_def\<close>)
  then show thesis using n that by blast
qed

lemma pathtrace_result:
  assumes "bounce_loop E MATERIALS scene iter (loop_entry E scene iter d) = Some d1"
  shows "pathtrace E scene iter d = Some (d1\<lparr>dev_image := gather_image scene d1\<rparr>)"
  using assms by (simp add: pathtrace_def pathtrace_with_def)

text \<open>The pixel indices are a permutation of the pixels, after every pass.\<close>

lemma carried_pixelIndex: "map pixelIndex ps = map fst (map carried ps)"
  by (simp add: carried_def)

lemma bounce_step_pixelIndex:
  assumes "partition_contract (thrust_partition E)" "scatter_keeps_identity (scatterRay E)"
    "wf_device scene d"
  shows "mset (map pixelIndex (dev_paths (bounce_step E False scene iter d))) =
         mset (map pixelIndex (dev_paths d))"
proof -
  let ?A = "stage_intersect E scene d"
  let ?B = "stage_shade E scene iter ?A"
  from assms(3) have a: "num_paths d \<le> length (dev_paths d)"
    "length (dev_intersections d) = pixelcount scene" "num_paths d \<le> pixelcount scene"
    by (simp_all add: wf_device_def)
  have wfA: "wf_device scene ?A" by (rule wf_stage_intersect[OF assms(3)])
  have wfB: "wf_device scene ?B" by (rule wf_stage_shade[OF wfA])
  have lA: "num_paths ?A \<le> length (dev_paths ?A)" using wfA by (simp add: wf_device_def)
  have lB: "num_paths ?B \<le> length (dev_paths ?B)" using wfB by (simp add: wf_device_def)
  have pA: "map pixelIndex (dev_paths ?A) = map pixelIndex (dev_paths d)"
    unfolding carried_pixelIndex by (simp only: stage_intersect_carried[OF a])
  have pB: "map pixelIndex (dev_paths ?B) = map pixelIndex (dev_paths ?A)"
  proof (rule nth_equalityI)
    show "length (map pixelIndex (dev_paths ?B)) = length (map pixelIndex (dev_paths ?A))"
      by (simp add: stage_shade_length[OF lA])
    fix i assume "i < length (map pixelIndex (dev_paths ?B))"
    then have i: "i < length (dev_paths ?A)" by (simp add: stage_shade_length[OF lA])
    then have iB: "i < length (dev_paths ?B)" by (simp add: stage_shade_length[OF lA])
    show "map pixelIndex (dev_paths ?B) ! i = map pixelIndex (dev_paths ?A) ! i"
      using i iB by (simp add: stage_shade_nth[OF lA i] shade_pixelIndex[OF assms(2)])
  qed
  have "mset (map pixelIndex (dev_paths (stage_compact E ?B))) = mset (map pixelIndex (dev_paths ?B))"
    using stage_compact_facts(2)[OF assms(1) lB] by (metis mset_map)
  then show ?thesis
    unfolding bounce_step_def stage_sort_off using pA pB by simp
qed

lemma loop_entry_pixelIndex:
  assumes "wf_device scene d"
  shows "map pixelIndex (dev_paths (loop_entry E scene iter d)) = [0..<pixelcount scene]"
proof (rule nth_equalityI)
  have len: "length (dev_paths d) = pixelcount scene" using assms by (simp add: wf_device_def)
  show l: "length (map pixelIndex (dev_paths (loop_entry E scene iter d))) = length [0..<pixelcount scene]"
    using generate_paths_slots(1)[OF len, of E iter] by (simp add: loop_entry_fields)
  fix i assume "i < length (map pixelIndex (dev_paths (loop_entry E scene iter d)))"
  then have i: "i < pixelcount scene" using l by simp
  then have "i < length (dev_paths (loop_entry E scene iter d))" using l by simp
  then show "map pixelIndex (dev_paths (loop_entry E scene iter d)) ! i = [0..<pixelcount scene] ! i"
    using loop_entry_nth(1)[OF len i, of E iter] i by simp
qed

lemma passes_pixelIndex:
  assumes "partition_contract (thrust_partition E)" "scatter_keeps_identity (scatterRay E)"
    "wf_device scene d"
  shows "mset (map pixelIndex (dev_paths (passes E scene iter k d))) = mset [0..<pixelcount scene]"
proof (induction k)
  case 0
  show ?case by (simp add: passes_0 loop_entry_pixelIndex[OF assms(3)])
next
  case (Suc k)
  have "wf_device scene (passes E scene iter k d)"
    using passes_inv[OF assms(1,3)] by (simp add: loop_inv_def)
  from bounce_step_pixelIndex[OF assms(1,2) this] Suc
  show ?case by (simp add: passes_Suc)
qed

text \<open>The accumulation.\<close>

lemma gather_image_slots:
  assumes "num_paths d \<le> length (dev_paths d)" "num_paths d \<le> pixelcount scene"
    "distinct (map pixelIndex (take (num_paths d) (dev_paths d)))"
    "\<forall>p \<in> set (take (num_paths d) (dev_paths d)). pixelIndex p < length (dev_image d)"
  shows "length (gather_image scene d) = length (dev_image d)"
    and "\<forall>j < num_paths d. gather_image scene d ! pixelIndex (dev_paths d ! j) =
           vadd (dev_image d ! pixelIndex (dev_paths d ! j)) (color (dev_paths d ! j))"
    and "\<forall>i < length (dev_image d). i \<notin> pixelIndex ` set (take (num_paths d) (dev_paths d)) \<longrightarrow>
           gather_image scene d ! i = dev_image d ! i"
proof -
  let ?n = "num_paths d" and ?ps = "dev_paths d"
  let ?ks = "[0..<numblocks1d (pixelcount scene) * blockSize1d]"
  let ?g = "\<lambda>k. k < ?n"
  let ?idx = "\<lambda>k. pixelIndex (?ps ! k)"
  let ?f = "\<lambda>k v. vadd v (color (?ps ! k))"
  have F: "finalGather ?n ?ps = (\<lambda>k ys. if ?g k then ys[?idx k := ?f k (ys ! ?idx k)] else ys)"
    by (intro ext) (simp add: finalGather_def Let_def)
  have dist: "distinct ?ks" by simp
  have nt: "map pixelIndex (take ?n ?ps) ! k = pixelIndex (?ps ! k)" if "k < ?n" for k
    using that assms(1) by simp
  have mem: "?ps ! k \<in> set (take ?n ?ps)" if "k < ?n" for k
  proof -
    have "take ?n ?ps ! k \<in> set (take ?n ?ps)" using that assms(1) by (intro nth_mem) simp
    then show ?thesis using that by simp
  qed
  have inj: "inj_on ?idx {k \<in> set ?ks. ?g k}"
  proof (rule inj_onI)
    fix a b assume ab: "a \<in> {k \<in> set ?ks. ?g k}" "b \<in> {k \<in> set ?ks. ?g k}" "?idx a = ?idx b"
    then have lt: "a < ?n" "b < ?n" by simp_all
    then have eq: "map pixelIndex (take ?n ?ps) ! a = map pixelIndex (take ?n ?ps) ! b"
      using ab(3) nt by simp
    have "a < length (map pixelIndex (take ?n ?ps))" "b < length (map pixelIndex (take ?n ?ps))"
      using lt assms(1) by simp_all
    with eq show "a = b"
      using nth_eq_iff_index_eq[OF assms(3)] by blast
  qed
  have bnd: "\<forall>k \<in> set ?ks. ?g k \<longrightarrow> ?idx k < length (dev_image d)"
  proof (intro ballI impI)
    fix k assume "k < ?n"
    then have "?ps ! k \<in> set (take ?n ?ps)" by (rule mem)
    then show "?idx k < length (dev_image d)" using assms(4) by simp
  qed
  note su = fold_slot_update[OF dist inj bnd, of ?f]
  have gi: "gather_image scene d =
            fold (\<lambda>k ys. if ?g k then ys[?idx k := ?f k (ys ! ?idx k)] else ys) ?ks (dev_image d)"
    unfolding gather_image_def launch1d_def F ..
  show "length (gather_image scene d) = length (dev_image d)"
    unfolding gi by (rule su(1))
  show "\<forall>j < ?n. gather_image scene d ! ?idx j = vadd (dev_image d ! ?idx j) (color (?ps ! j))"
  proof (intro allI impI)
    fix j assume j: "j < ?n"
    then have "j < numblocks1d (pixelcount scene) * blockSize1d"
      using assms(2) grid_covers[of "pixelcount scene"] by simp
    then have "j \<in> set ?ks" by simp
    with su(2) j show "gather_image scene d ! ?idx j = vadd (dev_image d ! ?idx j) (color (?ps ! j))"
      unfolding gi by blast
  qed
  show "\<forall>i < length (dev_image d). i \<notin> pixelIndex ` set (take ?n ?ps) \<longrightarrow>
           gather_image scene d ! i = dev_image d ! i"
  proof (intro allI impI)
    fix i assume i: "i < length (dev_image d)" "i \<notin> pixelIndex ` set (take ?n ?ps)"
    have "\<forall>k \<in> set ?ks. ?g k \<longrightarrow> ?idx k \<noteq> i"
    proof (intro ballI impI)
      fix k assume "k < ?n"
      then have "?ps ! k \<in> set (take ?n ?ps)"
        using assms(1) by (metis in_set_conv_nth length_take min_absorb2 nth_take)
      then show "?idx k \<noteq> i" using i(2) by blast
    qed
    with su(3) i(1) show "gather_image scene d ! i = dev_image d ! i"
      unfolding gi by blast
  qed
qed

lemma stage_intersect_eval:
  assumes "num_paths d \<le> length (dev_paths d)" "length (dev_intersections d) = pixelcount scene"
      "num_paths d \<le> pixelcount scene"
  shows "stage_intersect E scene d =
     d\<lparr>dev_paths :=
         map (\<lambda>i. (dev_paths d ! i)\<lparr>ray := (ray (dev_paths d ! i))\<lparr>intersect :=
                l_ray_intersect (scan_geoms E (depth d) i (geoms scene) (triangles scene)
                   (length (geoms scene)) (length (triangles scene)) (dev_paths d ! i))\<rparr>\<rparr>)
           [0..<num_paths d] @ drop (num_paths d) (dev_paths d),
       dev_intersections :=
         map (\<lambda>i. write_intersection (geoms scene) (triangles scene)
                (scan_geoms E (depth d) i (geoms scene) (triangles scene)
                   (length (geoms scene)) (length (triangles scene)) (dev_paths d ! i))
                (cudaMemset_intersections (pixelcount scene) (dev_intersections d) ! i))
           [0..<num_paths d]
         @ drop (num_paths d) (cudaMemset_intersections (pixelcount scene) (dev_intersections d)),
       depth := depth d + 1\<rparr>"
proof -
  have "num_paths d \<le> length (cudaMemset_intersections (pixelcount scene) (dev_intersections d))"
    using assms by (simp add: cudaMemset_intersections_def)
  then show ?thesis
    by (simp add: stage_intersect_def numblocksPathSegmentTracing_def Let_def
        computeIntersections_launch[OF assms(1)])
qed

lemma stage_shade_eval:
  assumes "num_paths d \<le> length (dev_paths d)"
  shows "stage_shade E scene iter d =
     d\<lparr>dev_paths :=
         map (\<lambda>i. shadeMaterial_path E iter i (dev_intersections d ! i) (materials scene) (depth d)
                    (dev_paths d ! i)) [0..<num_paths d]
           @ drop (num_paths d) (dev_paths d)\<rparr>"
  by (simp add: stage_shade_def numblocksPathSegmentTracing_def shadeMaterial_launch[OF assms])

lemma pathtrace_gathers:
  assumes "partition_contract (thrust_partition E)"
      and "scatter_keeps_identity (scatterRay E)"
      and "wf_device scene d"
  shows
    "\<exists>n d'. pathtrace E scene iter d = Some d'
       \<and> dev_paths d' = dev_paths (passes E scene iter (Suc n) d)
       \<and> num_paths d' = pixelcount scene
       \<and> length (dev_paths d') = pixelcount scene
       \<and> length (dev_image d') = pixelcount scene
       \<and> mset (map pixelIndex (dev_paths d')) = mset [0..<pixelcount scene]
       \<and> (\<forall>j < pixelcount scene.
             dev_image d' ! pixelIndex (dev_paths d' ! j) =
             vadd (dev_image d ! pixelIndex (dev_paths d' ! j)) (color (dev_paths d' ! j)))"
proof -
  obtain n where n:
    "bounce_loop E MATERIALS scene iter (loop_entry E scene iter d) =
       Some ((passes E scene iter (Suc n) d)\<lparr>num_paths := pixelcount scene\<rparr>)"
    using bounce_loop_result[OF assms(1,3)] by blast
  let ?p = "passes E scene iter (Suc n) d"
  let ?d1 = "?p\<lparr>num_paths := pixelcount scene\<rparr>"
  let ?d' = "?d1\<lparr>dev_image := gather_image scene ?d1\<rparr>"
  have res: "pathtrace E scene iter d = Some ?d'" by (rule pathtrace_result[OF n])
  have wf: "wf_device scene ?p" using passes_inv[OF assms(1,3)] by (simp add: loop_inv_def)
  have len: "length (dev_paths ?p) = pixelcount scene"
    and leni: "length (dev_image ?p) = pixelcount scene"
    using wf by (simp_all add: wf_device_def)
  have perm: "mset (map pixelIndex (dev_paths ?p)) = mset [0..<pixelcount scene]"
    by (rule passes_pixelIndex[OF assms])
  have dist: "distinct (map pixelIndex (dev_paths ?p))"
    using perm by (metis distinct_upt mset_eq_imp_distinct_iff)
  have rng: "\<forall>p \<in> set (dev_paths ?p). pixelIndex p < pixelcount scene"
  proof
    fix p assume "p \<in> set (dev_paths ?p)"
    then have "pixelIndex p \<in> set (map pixelIndex (dev_paths ?p))" by simp
    then have "pixelIndex p \<in> set [0..<pixelcount scene]" using perm by (metis mset_eq_setD)
    then show "pixelIndex p < pixelcount scene" by simp
  qed
  have g1: "num_paths ?d1 \<le> length (dev_paths ?d1)" using len by simp
  have g2: "num_paths ?d1 \<le> pixelcount scene" by simp
  have g3: "distinct (map pixelIndex (take (num_paths ?d1) (dev_paths ?d1)))"
    using dist len by simp
  have g4: "\<forall>p \<in> set (take (num_paths ?d1) (dev_paths ?d1)). pixelIndex p < length (dev_image ?d1)"
    using rng len leni by simp
  note g = gather_image_slots[OF g1 g2 g3 g4]
  have img: "dev_image ?p = dev_image d" by (rule passes_image)
  show ?thesis
  proof (intro exI[of _ n] exI[of _ ?d'] conjI)
    show "pathtrace E scene iter d = Some ?d'" by (rule res)
    show "dev_paths ?d' = dev_paths (passes E scene iter (Suc n) d)" by simp
    show "num_paths ?d' = pixelcount scene" by simp
    show "length (dev_paths ?d') = pixelcount scene" using len by simp
    show "length (dev_image ?d') = pixelcount scene" using g(1) leni by simp
    show "mset (map pixelIndex (dev_paths ?d')) = mset [0..<pixelcount scene]" using perm by simp
    show "\<forall>j < pixelcount scene.
             dev_image ?d' ! pixelIndex (dev_paths ?d' ! j) =
             vadd (dev_image d ! pixelIndex (dev_paths ?d' ! j)) (color (dev_paths ?d' ! j))"
      using g(2) img by simp
  qed
qed

lemma path_kept_refl: "path_kept p p"
  by (simp add: path_kept_def)

lemma path_kept_carried: "carried p' = carried p \<Longrightarrow> path_kept p p'"
  by (simp add: path_kept_def carried_def)

lemma shade_kept:
  assumes "scatter_keeps_identity (scatterRay E)" "scatter_keeps_sign (scatterRay E)"
    "\<forall>k. nonneg (mcolor (mats k))"
  shows "path_kept p (shadeMaterial_path E iter i x mats dep p)"
  using shade_pixelIndex[OF assms(1)] shade_remainingBounces(1)[OF assms(1)]
    shade_not_negative[OF assms(2,3)]
  by (simp add: path_kept_def)

lemma shade_kept_no_scatter:
  assumes "\<not> scatter_branch mats x p" "nonneg (mcolor (mats (materialId x)))"
  shows "path_kept p (shadeMaterial_path E iter i x mats dep p)"
proof -
  have z: "not_negative (Vec3 0 0 0)" by (simp add: not_negative_def zero_float_def)
  show ?thesis
    using assms z
    by (auto simp: shadeMaterial_path_def scatter_branch_def path_kept_def Let_def
        intro!: not_negative_vmul_smul)
qed

lemma stage_intersect_nth_carried:
  assumes "wf_device scene d" "i < length (dev_paths d)"
  shows "carried (dev_paths (stage_intersect E scene d) ! i) = carried (dev_paths d ! i)"
proof -
  from assms(1) have a: "num_paths d \<le> length (dev_paths d)"
    "length (dev_intersections d) = pixelcount scene" "num_paths d \<le> pixelcount scene"
    by (simp_all add: wf_device_def)
  have "map carried (dev_paths (stage_intersect E scene d)) ! i = map carried (dev_paths d) ! i"
    by (simp only: stage_intersect_carried[OF a])
  moreover have "i < length (dev_paths (stage_intersect E scene d))"
    using stage_intersect_length(1)[OF a, of E] assms(2) by simp
  ultimately show ?thesis using assms(2) by simp
qed

text \<open>Every path after a pass comes from a path before it.\<close>

lemma bounce_step_kept:
  assumes "partition_contract (thrust_partition E)" "scatter_keeps_identity (scatterRay E)"
    "scatter_keeps_sign (scatterRay E)" "\<forall>k. nonneg (mcolor (materials scene k))"
    "wf_device scene d"
  shows "\<forall>p' \<in> set (dev_paths (bounce_step E False scene iter d)).
           \<exists>p \<in> set (dev_paths d). path_kept p p'"
proof
  let ?A = "stage_intersect E scene d"
  let ?B = "stage_shade E scene iter ?A"
  fix p' assume "p' \<in> set (dev_paths (bounce_step E False scene iter d))"
  then have inC: "p' \<in> set (dev_paths (stage_compact E ?B))"
    by (simp add: bounce_step_def stage_sort_off)
  from assms(5) have a: "num_paths d \<le> length (dev_paths d)"
    "length (dev_intersections d) = pixelcount scene" "num_paths d \<le> pixelcount scene"
    by (simp_all add: wf_device_def)
  have wfA: "wf_device scene ?A" by (rule wf_stage_intersect[OF assms(5)])
  have wfB: "wf_device scene ?B" by (rule wf_stage_shade[OF wfA])
  have lA: "num_paths ?A \<le> length (dev_paths ?A)" using wfA by (simp add: wf_device_def)
  have lB: "num_paths ?B \<le> length (dev_paths ?B)" using wfB by (simp add: wf_device_def)
  have "set (dev_paths (stage_compact E ?B)) = set (dev_paths ?B)"
    using stage_compact_facts(2)[OF assms(1) lB] by (rule mset_eq_setD)
  with inC have "p' \<in> set (dev_paths ?B)" by simp
  then obtain i where i: "i < length (dev_paths ?B)" "p' = dev_paths ?B ! i"
    by (auto simp: in_set_conv_nth)
  have iA: "i < length (dev_paths ?A)" using i(1) stage_shade_length[OF lA, of E scene iter] by simp
  have id: "i < length (dev_paths d)" using iA stage_intersect_length(1)[OF a, of E] by simp
  have k1: "path_kept (dev_paths ?A ! i) p'"
    unfolding i(2) stage_shade_nth[OF lA iA]
    using shade_kept[OF assms(2,3,4)] by (simp add: path_kept_refl)
  have k2: "carried (dev_paths ?A ! i) = carried (dev_paths d ! i)"
    by (rule stage_intersect_nth_carried[OF assms(5) id])
  have "path_kept (dev_paths d ! i) p'"
    using k1 k2 by (auto simp: path_kept_def carried_def)
  moreover have "dev_paths d ! i \<in> set (dev_paths d)" using id by simp
  ultimately show "\<exists>p \<in> set (dev_paths d). path_kept p p'" by blast
qed

lemma passes_not_negative:
  assumes "partition_contract (thrust_partition E)" "scatter_keeps_identity (scatterRay E)"
    "scatter_keeps_sign (scatterRay E)" "\<forall>k. nonneg (mcolor (materials scene k))"
    "wf_device scene d"
  shows "\<forall>p \<in> set (dev_paths (passes E scene iter k d)).
           not_negative (color p) \<and> remainingBounces p \<le> traceDepth scene"
proof (induction k)
  case 0
  have len: "length (dev_paths d) = pixelcount scene" using assms(5) by (simp add: wf_device_def)
  have wfe: "wf_device scene (loop_entry E scene iter d)"
    using loop_entry_inv[OF assms(5)] by (simp add: loop_inv_def)
  show ?case
  proof
    fix p assume "p \<in> set (dev_paths (passes E scene iter 0 d))"
    then obtain j where j: "j < length (dev_paths (loop_entry E scene iter d))"
      "p = dev_paths (loop_entry E scene iter d) ! j"
      by (auto simp: in_set_conv_nth passes_0)
    then have "j < pixelcount scene" using wfe by (simp add: wf_device_def)
    from loop_entry_nth(2,3)[OF len this, of E iter] j(2)
    show "not_negative (color p) \<and> remainingBounces p \<le> traceDepth scene"
      by (simp add: not_negative_def zero_float_def one_float_def)
  qed
next
  case (Suc k)
  have wf: "wf_device scene (passes E scene iter k d)"
    using passes_inv[OF assms(1,5)] by (simp add: loop_inv_def)
  show ?case
  proof
    fix p' assume "p' \<in> set (dev_paths (passes E scene iter (Suc k) d))"
    then obtain p where p: "p \<in> set (dev_paths (passes E scene iter k d))" "path_kept p p'"
      using bounce_step_kept[OF assms(1,2,3,4) wf, of iter] by (auto simp: passes_Suc)
    then show "not_negative (color p') \<and> remainingBounces p' \<le> traceDepth scene"
      using Suc by (auto simp: path_kept_def)
  qed
qed

text \<open>A terminated path stays among the terminated paths.\<close>

lemma settled_list_all2:
  assumes "list_all2 (\<lambda>x y. remainingBounces x \<le> 0 \<longrightarrow> y = x) xs ys"
  shows "filter_mset (\<lambda>c. snd (snd c) \<le> 0) (mset (map carried xs))
           \<subseteq># filter_mset (\<lambda>c. snd (snd c) \<le> 0) (mset (map carried ys))"
  using assms
proof (induction rule: list_all2_induct)
  case Nil
  then show ?case by simp
next
  case (Cons x xs y ys)
  show ?case
  proof (cases "remainingBounces x \<le> 0")
    case True
    then have "y = x" using Cons.hyps(1) by simp
    then show ?thesis using Cons.IH by (simp add: carried_def)
  next
    case False
    then have "filter_mset (\<lambda>c. snd (snd c) \<le> 0) (mset (map carried (x # xs)))
        = filter_mset (\<lambda>c. snd (snd c) \<le> 0) (mset (map carried xs))"
      by (simp add: carried_def)
    also have "\<dots> \<subseteq># filter_mset (\<lambda>c. snd (snd c) \<le> 0) (mset (map carried ys))"
      by (rule Cons.IH)
    also have "\<dots> \<subseteq># filter_mset (\<lambda>c. snd (snd c) \<le> 0) (mset (map carried (y # ys)))"
      by (simp add: subset_mset.add_increasing2)
    finally show ?thesis by (simp add: subset_mset_def)
  qed
qed

lemma bounce_step_settled:
  assumes "partition_contract (thrust_partition E)" "wf_device scene d"
  shows "settled d \<subseteq># settled (bounce_step E False scene iter d)"
proof -
  let ?A = "stage_intersect E scene d"
  let ?B = "stage_shade E scene iter ?A"
  from assms(2) have a: "num_paths d \<le> length (dev_paths d)"
    "length (dev_intersections d) = pixelcount scene" "num_paths d \<le> pixelcount scene"
    by (simp_all add: wf_device_def)
  have wfA: "wf_device scene ?A" by (rule wf_stage_intersect[OF assms(2)])
  have wfB: "wf_device scene ?B" by (rule wf_stage_shade[OF wfA])
  have lA: "num_paths ?A \<le> length (dev_paths ?A)" using wfA by (simp add: wf_device_def)
  have lB: "num_paths ?B \<le> length (dev_paths ?B)" using wfB by (simp add: wf_device_def)
  have sA: "settled ?A = settled d"
    by (simp add: settled_def stage_intersect_carried[OF a])
  have "list_all2 (\<lambda>x y. remainingBounces x \<le> 0 \<longrightarrow> y = x) (dev_paths ?A) (dev_paths ?B)"
  proof (rule list_all2_all_nthI)
    show "length (dev_paths ?A) = length (dev_paths ?B)"
      using stage_shade_length[OF lA, of E scene iter] by simp
    fix i assume i: "i < length (dev_paths ?A)"
    show "remainingBounces (dev_paths ?A ! i) \<le> 0 \<longrightarrow> dev_paths ?B ! i = dev_paths ?A ! i"
      by (simp add: stage_shade_nth[OF lA i] shade_terminated)
  qed
  then have sB: "settled ?A \<subseteq># settled ?B"
    unfolding settled_def by (rule settled_list_all2)
  have "mset (map carried (dev_paths (stage_compact E ?B))) = mset (map carried (dev_paths ?B))"
    using stage_compact_facts(2)[OF assms(1) lB] by (metis mset_map)
  then have sC: "settled (stage_compact E ?B) = settled ?B"
    by (simp only: settled_def)
  show ?thesis
    unfolding bounce_step_def stage_sort_off sC using sA sB by simp
qed

lemma passes_settled:
  assumes "partition_contract (thrust_partition E)" "wf_device scene d" "k \<le> m"
  shows "settled (passes E scene iter k d) \<subseteq># settled (passes E scene iter m d)"
  using assms(3)
proof (induction m)
  case 0
  then show ?case by simp
next
  case (Suc m)
  show ?case
  proof (cases "k = Suc m")
    case True
    then show ?thesis by simp
  next
    case False
    then have "k \<le> m" using Suc.prems by simp
    then have "settled (passes E scene iter k d) \<subseteq># settled (passes E scene iter m d)"
      by (rule Suc.IH)
    moreover have "wf_device scene (passes E scene iter m d)"
      using passes_inv[OF assms(1,2)] by (simp add: loop_inv_def)
    then have "settled (passes E scene iter m d) \<subseteq># settled (passes E scene iter (Suc m) d)"
      unfolding passes_Suc by (rule bounce_step_settled[OF assms(1)])
    ultimately show ?thesis by (rule subset_mset.order_trans)
  qed
qed

lemma normalize_vec_unit:
  assumes "v \<noteq> Vec3 0 0 0"
  shows "dot (normalize_vec v) (normalize_vec v) = 1"
proof -
  obtain a b c where v: "v = Vec3 a b c" by (cases v)
  let ?n = "a * a + b * b + c * c"
  have "a \<noteq> 0 \<or> b \<noteq> 0 \<or> c \<noteq> 0" using assms v by simp
  then have pos: "0 < ?n"
    by (metis add_pos_nonneg add_nonneg_pos zero_le_square not_real_square_gt_zero add_nonneg_nonneg)
  define k where "k = 1 / sqrt ?n"
  have "sqrt ?n * sqrt ?n = ?n" using pos by simp
  then have kk: "k * k = 1 / ?n" by (simp add: k_def)
  have "dot (normalize_vec v) (normalize_vec v) = ?n * (k * k)"
    unfolding v normalize_vec_def dot.simps k_def[symmetric] by (simp add: algebra_simps)
  also have "\<dots> = 1" using pos by (simp add: kk)
  finally show ?thesis .
qed

lemma generateRay_segment_fields:
  "pixelIndex (generateRay_segment E cam iter td x y seg) = x + y * resolution_x cam"
  "color (generateRay_segment E cam iter td x y seg) = Vec3 1 1 1"
  "remainingBounces (generateRay_segment E cam iter td x y seg) = td"
  "origin (ray (generateRay_segment E cam iter td x y seg)) = position cam"
  "direction (ray (generateRay_segment E cam iter td x y seg)) =
     normalize_vec
       (vsub
          (vsub (view cam)
             (smul (smul (right cam) (pixelLength_x cam))
                (real x + uniform_real_distribution E (- 0.5) 0.5 (generateRay_rng E iter x y)
                   - real (resolution_x cam) * 0.5)))
          (smul (smul (up cam) (pixelLength_y cam))
             (real y + uniform_real_distribution E (- 0.5) 0.5
                         ((generateRay_rng E iter x y)\<lparr>drawn := 1\<rparr>)
                - real (resolution_y cam) * 0.5)))"
  "intersect (ray (generateRay_segment E cam iter td x y seg)) = intersect (ray seg)"
  by (simp_all add: generateRay_segment_def Let_def generateRay_rng_def makeSeededRandomEngine_def)

lemma scene_materials_irrelevant:
  "loop_entry E (scene\<lparr>materials := m\<rparr>) iter d = loop_entry E scene iter d"
  "stage_intersect E (scene\<lparr>materials := m\<rparr>) d = stage_intersect E scene d"
  "iteration_complete (scene\<lparr>materials := m\<rparr>) d = iteration_complete scene d"
  "pixelcount (scene\<lparr>materials := m\<rparr>) = pixelcount scene"
  by (simp_all add: loop_entry_def generate_paths_def stage_intersect_def pixelcount_def
      iteration_complete_def)

lemma shade_cong_material:
  "mats (materialId x) = mats' (materialId x) \<Longrightarrow>
   shadeMaterial_path E iter i x mats dep p = shadeMaterial_path E iter i x mats' dep p"
  by (simp add: shadeMaterial_path_def Let_def)

lemma passes_shade:
  "passes E scene iter (Suc k) d =
     stage_compact E (stage_shade E scene iter (shade_input E scene iter k d))"
  by (simp add: passes_Suc bounce_step_def shade_input_def MATERIALS_def)

lemma shade_input_fields:
  "num_paths (shade_input E scene iter k d) = num_paths (passes E scene iter k d)"
  "depth (shade_input E scene iter k d) = int k + 1"
  by (simp_all add: shade_input_def MATERIALS_def stage_sort_off stage_intersect_fields passes_depth)

lemma shade_input_carried:
  assumes "partition_contract (thrust_partition E)" "wf_device scene d"
  shows "map carried (dev_paths (shade_input E scene iter k d)) =
         map carried (dev_paths (passes E scene iter k d))"
    and "wf_device scene (shade_input E scene iter k d)"
proof -
  have wf: "wf_device scene (passes E scene iter k d)"
    using passes_inv[OF assms] by (simp add: loop_inv_def)
  then have a: "num_paths (passes E scene iter k d) \<le> length (dev_paths (passes E scene iter k d))"
    "length (dev_intersections (passes E scene iter k d)) = pixelcount scene"
    "num_paths (passes E scene iter k d) \<le> pixelcount scene"
    by (simp_all add: wf_device_def)
  show "map carried (dev_paths (shade_input E scene iter k d)) =
         map carried (dev_paths (passes E scene iter k d))"
    by (simp add: shade_input_def MATERIALS_def stage_sort_off stage_intersect_carried[OF a])
  show "wf_device scene (shade_input E scene iter k d)"
    by (simp add: shade_input_def MATERIALS_def stage_sort_off wf_stage_intersect[OF wf])
qed

lemma shader_applications_le: "shader_applications E scene iter m d px \<le> m"
  unfolding shader_applications_def
  by (rule order_trans[OF length_filter_le]) simp

text \<open>
  The branch of the shader that leaves a path with bounces left is the one of
  \<^verbatim>\<open>scatterRay\<close>, which takes one bounce.
\<close>

lemma shade_counter:
  assumes "scatter_keeps_identity (scatterRay E)"
    and "0 < remainingBounces (shadeMaterial_path E iter i x mats dep p)"
  shows "remainingBounces (shadeMaterial_path E iter i x mats dep p) = remainingBounces p - 1"
  using assms
  by (auto simp: shadeMaterial_path_def scatter_keeps_identity_def Let_def split: if_splits)

text \<open>The counter of an active path after \<open>k\<close> passes is \<open>traceDepth - k\<close>.\<close>

lemma passes_counter:
  assumes "partition_contract (thrust_partition E)" "scatter_keeps_identity (scatterRay E)"
    "wf_device scene d"
  shows "\<forall>idx < num_paths (passes E scene iter k d).
           remainingBounces (dev_paths (passes E scene iter k d) ! idx) = traceDepth scene - int k"
proof (induction k)
  case 0
  have len: "length (dev_paths d) = pixelcount scene" using assms(3) by (simp add: wf_device_def)
  show ?case
    using loop_entry_nth(3)[OF len, of _ E iter]
    by (simp add: passes_0 loop_entry_fields)
next
  case (Suc k)
  let ?P = "passes E scene iter k d"
  let ?A = "shade_input E scene iter k d"
  let ?B = "stage_shade E scene iter ?A"
  let ?C = "stage_compact E ?B"
  have wfP: "wf_device scene ?P" using passes_inv[OF assms(1,3)] by (simp add: loop_inv_def)
  have wfA: "wf_device scene ?A" by (rule shade_input_carried(2)[OF assms(1,3)])
  have wfB: "wf_device scene ?B" by (rule wf_stage_shade[OF wfA])
  have nA: "num_paths ?A = num_paths ?P" by (simp add: shade_input_fields)
  have nB: "num_paths ?B = num_paths ?P" by (simp add: stage_shade_fields nA)
  have lP: "num_paths ?P \<le> length (dev_paths ?P)" using wfP by (simp add: wf_device_def)
  have lA: "num_paths ?A \<le> length (dev_paths ?A)" using wfA by (simp add: wf_device_def)
  have lB: "num_paths ?B \<le> length (dev_paths ?B)" using wfB by (simp add: wf_device_def)
  have lenA: "length (dev_paths ?A) = length (dev_paths ?P)"
    using shade_input_carried(1)[OF assms(1,3), of iter k] by (metis length_map)
  have rbA: "remainingBounces (dev_paths ?A ! i) = traceDepth scene - int k"
    if "i < num_paths ?P" for i
  proof -
    have i: "i < length (dev_paths ?P)" using that lP by simp
    have "map carried (dev_paths ?A) ! i = map carried (dev_paths ?P) ! i"
      by (simp only: shade_input_carried(1)[OF assms(1,3)])
    then have "carried (dev_paths ?A ! i) = carried (dev_paths ?P ! i)"
      using i lenA by simp
    then show ?thesis using Suc that by (simp add: carried_def)
  qed
  have rbB: "remainingBounces q = traceDepth scene - int (Suc k)"
    if q: "q \<in> set (take (num_paths ?B) (dev_paths ?B))" and pos: "0 < remainingBounces q" for q
  proof -
    from q obtain i where i: "i < num_paths ?B" "i < length (dev_paths ?B)" "q = dev_paths ?B ! i"
      by (auto simp: in_set_conv_nth)
    have iA: "i < num_paths ?A" "i < length (dev_paths ?A)"
      using i(1) nA nB lA by simp_all
    have qe: "q = shadeMaterial_path E iter i (dev_intersections ?A ! i) (materials scene) (depth ?A)
                   (dev_paths ?A ! i)"
      using stage_shade_nth[OF lA iA(2), of E scene iter] iA(1) i(3) by simp
    have "remainingBounces q = remainingBounces (dev_paths ?A ! i) - 1"
      unfolding qe by (rule shade_counter[OF assms(2) pos[unfolded qe]])
    then show ?thesis using rbA[of i] iA(1) nA by simp
  qed
  have front: "\<forall>p \<in> set (take (num_paths ?C) (dev_paths ?C)). 0 < remainingBounces p"
    by (rule stage_compact_facts(4)[OF assms(1) lB])
  have sub: "set (take (num_paths ?C) (dev_paths ?C)) \<subseteq> set (take (num_paths ?B) (dev_paths ?B))"
  proof -
    obtain fr k' where c:
      "compact_paths E (num_paths ?B) (dev_paths ?B) = (fr @ drop (num_paths ?B) (dev_paths ?B), k')"
      "mset fr = mset (take (num_paths ?B) (dev_paths ?B))" "length fr = num_paths ?B"
      "k' \<le> num_paths ?B"
      using compact_paths_contract[OF assms(1) lB] by metis
    have "dev_paths ?C = fr @ drop (num_paths ?B) (dev_paths ?B)" "num_paths ?C = k'"
      by (simp_all add: stage_compact_def c(1))
    then have "take (num_paths ?C) (dev_paths ?C) = take k' fr" using c(3,4) by simp
    moreover have "set (take k' fr) \<subseteq> set fr" by (rule set_take_subset)
    moreover have "set fr = set (take (num_paths ?B) (dev_paths ?B))"
      using c(2) by (rule mset_eq_setD)
    ultimately show ?thesis by simp
  qed
  show ?case
  proof (intro allI impI)
    fix idx assume idx: "idx < num_paths (passes E scene iter (Suc k) d)"
    have C: "passes E scene iter (Suc k) d = ?C" by (rule passes_shade)
    have lC: "num_paths ?C \<le> length (dev_paths ?C)"
      using stage_compact_facts(1,3)[OF assms(1) lB] lB by simp
    have "dev_paths ?C ! idx \<in> set (take (num_paths ?C) (dev_paths ?C))"
      using idx lC unfolding C by (metis in_set_conv_nth length_take min.absorb2 nth_take)
    then show "remainingBounces (dev_paths (passes E scene iter (Suc k) d) ! idx) =
        traceDepth scene - int (Suc k)"
      unfolding C using front sub rbB by blast
  qed
qed

text \<open>In the first pass the shader is applied to the path of every pixel.\<close>

lemma first_pass_applications:
  assumes "partition_contract (thrust_partition E)" "wf_device scene d" "px < pixelcount scene"
  shows "shaded_in_pass E scene iter 0 d px"
    and "shader_applications E scene iter 1 d px = 1"
proof -
  let ?A = "shade_input E scene iter 0 d"
  have len: "length (dev_paths d) = pixelcount scene" using assms(2) by (simp add: wf_device_def)
  have wfA: "wf_device scene ?A" by (rule shade_input_carried(2)[OF assms(1,2)])
  have nA: "num_paths ?A = pixelcount scene"
    by (simp add: shade_input_fields passes_0 loop_entry_fields)
  have lA: "length (dev_paths ?A) = pixelcount scene" using wfA by (simp add: wf_device_def)
  have c: "map carried (dev_paths ?A) = map carried (dev_paths (loop_entry E scene iter d))"
    using shade_input_carried(1)[OF assms(1,2), of iter 0] by (simp add: passes_0)
  have "map carried (dev_paths ?A) ! px = map carried (dev_paths (loop_entry E scene iter d)) ! px"
    by (simp only: c)
  moreover have "length (dev_paths (loop_entry E scene iter d)) = pixelcount scene"
    using c lA by (metis length_map)
  ultimately have "carried (dev_paths ?A ! px) = carried (dev_paths (loop_entry E scene iter d) ! px)"
    using assms(3) lA by simp
  then have "pixelIndex (dev_paths ?A ! px) = px"
    using loop_entry_nth(1)[OF len assms(3), of E iter] by (simp add: carried_def)
  moreover have "dev_paths ?A ! px \<in> set (dev_paths ?A)" using assms(3) lA by simp
  ultimately have "px \<in> pixelIndex ` set (dev_paths ?A)" by force
  then show s: "shaded_in_pass E scene iter 0 d px"
    by (simp add: shaded_in_pass_def nA lA)
  show "shader_applications E scene iter 1 d px = 1"
    using s by (simp add: shader_applications_def)
qed

text \<open>With a trace depth of 0 or less the shader of the first pass changes no path.\<close>

lemma first_pass_idle:
  assumes "partition_contract (thrust_partition E)" "wf_device scene d" "traceDepth scene \<le> 0"
  shows "dev_paths (stage_shade E scene iter (shade_input E scene iter 0 d)) =
         dev_paths (shade_input E scene iter 0 d)"
proof -
  let ?A = "shade_input E scene iter 0 d"
  have len: "length (dev_paths d) = pixelcount scene" using assms(2) by (simp add: wf_device_def)
  have wfA: "wf_device scene ?A" by (rule shade_input_carried(2)[OF assms(1,2)])
  have lA: "num_paths ?A \<le> length (dev_paths ?A)" "length (dev_paths ?A) = pixelcount scene"
    using wfA by (simp_all add: wf_device_def)
  have c: "map carried (dev_paths ?A) = map carried (dev_paths (loop_entry E scene iter d))"
    using shade_input_carried(1)[OF assms(1,2), of iter 0] by (simp add: passes_0)
  have le: "length (dev_paths (loop_entry E scene iter d)) = pixelcount scene"
    using c lA(2) by (metis length_map)
  have rb: "remainingBounces (dev_paths ?A ! i) \<le> 0" if "i < pixelcount scene" for i
  proof -
    have "map carried (dev_paths ?A) ! i = map carried (dev_paths (loop_entry E scene iter d)) ! i"
      by (simp only: c)
    then have "carried (dev_paths ?A ! i) = carried (dev_paths (loop_entry E scene iter d) ! i)"
      using that lA(2) le by simp
    then show ?thesis
      using loop_entry_nth(3)[OF len that, of E iter] assms(3) by (simp add: carried_def)
  qed
  show ?thesis
  proof (rule nth_equalityI)
    show "length (dev_paths (stage_shade E scene iter ?A)) = length (dev_paths ?A)"
      by (rule stage_shade_length[OF lA(1)])
  next
    fix i assume "i < length (dev_paths (stage_shade E scene iter ?A))"
    then have i: "i < length (dev_paths ?A)" by (simp add: stage_shade_length[OF lA(1)])
    then have "remainingBounces (dev_paths ?A ! i) \<le> 0" using rb lA(2) by simp
    then show "dev_paths (stage_shade E scene iter ?A) ! i = dev_paths ?A ! i"
      by (simp add: stage_shade_nth[OF lA(1) i] shade_terminated)
  qed
qed

lemma shade_input_counter:
  assumes "partition_contract (thrust_partition E)" "scatter_keeps_identity (scatterRay E)"
    "wf_device scene d" "idx < num_paths (shade_input E scene iter k d)"
  shows "remainingBounces (dev_paths (shade_input E scene iter k d) ! idx) = traceDepth scene - int k"
proof -
  let ?P = "passes E scene iter k d" and ?A = "shade_input E scene iter k d"
  have wfA: "wf_device scene ?A" by (rule shade_input_carried(2)[OF assms(1,3)])
  have i: "idx < num_paths ?P" using assms(4) by (simp add: shade_input_fields)
  have iA: "idx < length (dev_paths ?A)" using assms(4) wfA by (simp add: wf_device_def)
  have c: "map carried (dev_paths ?A) = map carried (dev_paths ?P)"
    by (rule shade_input_carried(1)[OF assms(1,3)])
  have lP: "length (dev_paths ?P) = length (dev_paths ?A)" using c by (metis length_map)
  have "map carried (dev_paths ?A) ! idx = map carried (dev_paths ?P) ! idx" by (simp only: c)
  then have "carried (dev_paths ?A ! idx) = carried (dev_paths ?P ! idx)"
    using iA lP by simp
  then show ?thesis
    using passes_counter[OF assms(1,2,3), of iter k] i by (simp add: carried_def)
qed









section \<open>computeIntersections with an initialised t\<close>

lemma call_test_no_hit:
  assumes "\<forall>g r a b c. fst (test g r a b c) \<le> 0" "no_hit_locals L"
  shows "no_hit_locals (call_test test g r L)"
proof -
  obtain t' ti tn out where c: "test g r (l_tmp_intersect L) (l_tmp_normal L) (l_outside L) = (t', ti, tn, out)"
    by (cases "test g r (l_tmp_intersect L) (l_tmp_normal L) (l_outside L)") auto
  have "fst (test g r (l_tmp_intersect L) (l_tmp_normal L) (l_outside L)) \<le> 0"
    using assms(1) by blast
  then have "t' \<le> 0" by (simp add: c)
  then show ?thesis using assms(2) by (simp add: call_test_def c no_hit_locals_def)
qed

lemma triangle_step_no_hit:
  assumes "\<forall>g r a b c. fst (triangleIntersectionTest E g r a b c) \<le> 0" "no_hit_locals L"
  shows "no_hit_locals (triangle_step E r ts p L)"
proof -
  have "no_hit_locals (call_test (triangleIntersectionTest E) (ts ! p) r L)"
    by (rule call_test_no_hit[OF assms])
  then show ?thesis
    by (simp add: triangle_step_def Let_def no_hit_locals_def)
qed

lemma triangles_no_hit:
  assumes "\<forall>g r a b c. fst (triangleIntersectionTest E g r a b c) \<le> 0" "no_hit_locals L"
  shows "no_hit_locals (fold (triangle_step E r ts) ps L)"
  using assms(2)
  by (induction ps arbitrary: L) (simp_all add: triangle_step_no_hit[OF assms(1)])

lemma geom_step_no_hit:
  assumes "\<forall>g r a b c. fst (boxIntersectionTest E g r a b c) \<le> 0"
    "\<forall>g r a b c. fst (sphereIntersectionTest E g r a b c) \<le> 0"
    "\<forall>g r a b c. fst (triangleIntersectionTest E g r a b c) \<le> 0"
    "no_hit_locals L"
  shows "no_hit_locals (geom_step E r gs ts tsz i L)"
proof -
  let ?L1 = "(if gtype (gs ! i) = CUBE then call_test (boxIntersectionTest E) (gs ! i) r L
                else if gtype (gs ! i) = SPHERE then call_test (sphereIntersectionTest E) (gs ! i) r L
                else if gtype (gs ! i) = BV then
                  (if boundingVolumeIntersectionTest E (gs ! i) r then
                     fold (triangle_step E r ts) [0..<tsz] L
                   else L)
                else L)"
  have "no_hit_locals ?L1"
    using call_test_no_hit[OF assms(1,4)] call_test_no_hit[OF assms(2,4)]
      triangles_no_hit[OF assms(3,4)] assms(4)
    by simp
  then show ?thesis
    by (simp add: geom_step_def Let_def no_hit_locals_def)
qed

text \<open>
  When the local \<^verbatim>\<open>t\<close> starts at a value that is not positive and no test reports a
  positive distance, no hit is recorded: the kernel writes \<open>t = -1\<close> and leaves the material
  and the normal of the record as they were.
\<close>

lemma scan_geoms_no_hit:
  assumes "\<forall>g r a b c. fst (boxIntersectionTest E g r a b c) \<le> 0"
    "\<forall>g r a b c. fst (sphereIntersectionTest E g r a b c) \<le> 0"
    "\<forall>g r a b c. fst (triangleIntersectionTest E g r a b c) \<le> 0"
    "uninit_t E dep i \<le> 0"
  shows "l_hit_geom_index (scan_geoms E dep i gs ts gsz tsz p) = - 1"
    and "write_intersection gs ts (scan_geoms E dep i gs ts gsz tsz p) z = z\<lparr>isect_t := - 1\<rparr>"
proof -
  have f: "no_hit_locals (fold (geom_step E r gs ts tsz) ks L)" if "no_hit_locals L" for ks L r
    using that
    by (induction ks arbitrary: L) (simp_all add: geom_step_no_hit[OF assms(1,2,3)])
  have "no_hit_locals (init_locals E dep i p)"
    using assms(4) by (simp add: init_locals_def no_hit_locals_def)
  then have "no_hit_locals (scan_geoms E dep i gs ts gsz tsz p)"
    unfolding scan_geoms_def by (rule f)
  then show "l_hit_geom_index (scan_geoms E dep i gs ts gsz tsz p) = - 1"
    by (simp add: no_hit_locals_def)
  then show "write_intersection gs ts (scan_geoms E dep i gs ts gsz tsz p) z = z\<lparr>isect_t := - 1\<rparr>"
    by (simp add: write_intersection_def)
qed

lemma call_test_fields:
  "l_hitmesh (call_test test g r L) = l_hitmesh L"
  "l_hit_geom_index (call_test test g r L) = l_hit_geom_index L"
  "l_t_min (call_test test g r L) = l_t_min L"
  by (simp_all add: call_test_def split: prod.splits)

lemma triangle_step_analytic:
  assumes "analytic_locals gs L"
  shows "analytic_locals gs (triangle_step E r ts p L)"
  using assms
  by (auto simp: triangle_step_def Let_def analytic_locals_def call_test_fields)

lemma triangles_analytic:
  assumes "analytic_locals gs L"
  shows "analytic_locals gs (fold (triangle_step E r ts) ps L)"
  using assms
  by (induction ps arbitrary: L) (simp_all add: triangle_step_analytic)

lemma geom_step_record_hit:
  "geom_step E r gs ts tsz i L =
     record_hit i
       (if gtype (gs ! i) = CUBE then call_test (boxIntersectionTest E) (gs ! i) r L
        else if gtype (gs ! i) = SPHERE then call_test (sphereIntersectionTest E) (gs ! i) r L
        else if gtype (gs ! i) = BV \<and> boundingVolumeIntersectionTest E (gs ! i) r then
          fold (triangle_step E r ts) [0..<tsz] L
        else L)"
  by (simp add: geom_step_def record_hit_def Let_def)

lemma record_hit_test_analytic:
  assumes "analytic_locals gs L" "gtype (gs ! i) = CUBE \<or> gtype (gs ! i) = SPHERE"
  shows "analytic_locals gs (record_hit i (call_test test (gs ! i) r L))"
  using assms
  by (auto simp: record_hit_def analytic_locals_def call_test_fields)

lemma record_hit_idle_analytic:
  assumes "analytic_locals gs L1"
  shows "analytic_locals gs (record_hit i L1)"
  using assms by (auto simp: record_hit_def analytic_locals_def)

lemma geom_step_analytic:
  assumes "analytic_locals gs L"
  shows "analytic_locals gs (geom_step E r gs ts tsz i L)"
  unfolding geom_step_record_hit
  using record_hit_test_analytic[OF assms, of i "boxIntersectionTest E" r]
    record_hit_test_analytic[OF assms, of i "sphereIntersectionTest E" r]
    record_hit_idle_analytic[OF assms, of i]
    record_hit_idle_analytic[OF triangles_analytic[OF assms, of E r ts "[0..<tsz]"], of i]
  by auto

text \<open>
  When \<^verbatim>\<open>t\<close> starts at a value that is not positive, the value read after a geometry for
  which no test was called is never taken for a hit: a recorded hit outside the triangle
  collection is the hit of a cube or a sphere.
\<close>

lemma scan_geoms_analytic:
  assumes "uninit_t E dep i \<le> 0"
    and "l_hit_geom_index (scan_geoms E dep i gs ts gsz tsz p) \<noteq> - 1"
    and "\<not> l_hitmesh (scan_geoms E dep i gs ts gsz tsz p)"
  shows "gtype (gs ! nat (l_hit_geom_index (scan_geoms E dep i gs ts gsz tsz p))) = CUBE
       \<or> gtype (gs ! nat (l_hit_geom_index (scan_geoms E dep i gs ts gsz tsz p))) = SPHERE"
proof -
  have f: "analytic_locals gs (fold (geom_step E r gs ts tsz) ks L)" if "analytic_locals gs L"
    for ks L r
    using that by (induction ks arbitrary: L) (simp_all add: geom_step_analytic)
  have "analytic_locals gs (init_locals E dep i p)"
    using assms(1) by (simp add: init_locals_def analytic_locals_def)
  then have "analytic_locals gs (scan_geoms E dep i gs ts gsz tsz p)"
    unfolding scan_geoms_def by (rule f)
  then show ?thesis using assms(2,3) by (simp add: analytic_locals_def)
qed

section \<open>The scripted scene evaluated\<close>

lemma demo_ext_sel:
  "boxIntersectionTest demo_ext = demo_test"
  "sphereIntersectionTest demo_ext = demo_test"
  "triangleIntersectionTest demo_ext = demo_test"
  "boundingVolumeIntersectionTest demo_ext = (\<lambda>g r. fst (shape g) > 0)"
  "scatterRay demo_ext = demo_scatter"
  "utilhash demo_ext = (\<lambda>w. w)"
  "uniform_real_distribution demo_ext = (\<lambda>a b g. (a + b) / 2)"
  "thrust_partition demo_ext = demo_partition"
  "sort_by_key_perm demo_ext = (\<lambda>keys. sort_key (\<lambda>j. keys ! j) [0..<length keys])"
  "uninit_t demo_ext = (\<lambda>d i. 0)"
  "uninit_intersect_point demo_ext = (\<lambda>d i. Vec3 0 0 0)"
  "uninit_normal demo_ext = (\<lambda>d i. Vec3 0 0 0)"
  "uninit_tmp_intersect demo_ext = (\<lambda>d i. Vec3 0 0 0)"
  "uninit_tmp_normal demo_ext = (\<lambda>d i. Vec3 0 0 0)"
  by (simp_all add: demo_ext_def)

lemma demo_seed_1_0_1: "seed (makeSeededRandomEngine demo_ext 1 0 1) = 2151677953"
  by (simp add: makeSeededRandomEngine_def demo_ext_sel)

lemma demo_seed_1_1_1: "seed (makeSeededRandomEngine demo_ext 1 1 1) = 2151677952"
  by (simp add: makeSeededRandomEngine_def demo_ext_sel)

lemma demo_partition_contract: "partition_contract demo_partition"
  by (auto simp: partition_contract_def demo_partition_def)

lemma upt_small: "[0..<1] = [0]" "[0..<2] = [0, Suc 0]"
  by (simp_all add: upt_rec)

lemma demo_pixelcount: "pixelcount demo_scene = 2"
  by (simp add: pixelcount_def demo_scene_def demo_camera_def)

lemma demo_scene_sel:
  "geoms demo_scene = [demo_sphere, demo_box]" "triangles demo_scene = []"
  "materials demo_scene = demo_materials" "camera demo_scene = demo_camera"
  "traceDepth demo_scene = 2"
  by (simp_all add: demo_scene_def)

lemma demo_camera_sel:
  "resolution_x demo_camera = 2" "resolution_y demo_camera = 1"
  by (simp_all add: demo_camera_def)

lemma demo_start_wf: "wf_device demo_scene demo_start"
  by (simp add: wf_device_def demo_pixelcount demo_start_def)

lemma demo_scatter_identity: "scatter_keeps_identity (scatterRay demo_ext)"
  by (simp add: scatter_keeps_identity_def demo_ext_sel demo_scatter_def)

lemma demo_scatter_sign: "scatter_keeps_sign (scatterRay demo_ext)"
proof -
  have "not_negative (smul (vmul c m) (if b then 1 else Finite (1 / 2)))"
    if "not_negative c" "nonneg m" for c m b
  proof -
    have k: "\<not> (if b then 1 else Finite (1 / 2)) < (0::float)" by (simp add: float_eval)
    have m: "not_negative m" by (rule nonneg_not_negative[OF that(2)])
    show ?thesis
      using that(1) m k
      by (cases c; cases m) (simp add: not_negative_def float_times_not_negative del: if_split)
  qed
  then show ?thesis
    by (simp add: scatter_keeps_sign_def demo_ext_sel demo_scatter_def)
qed

lemma demo_materials_nonneg: "nonneg (mcolor (demo_materials k))"
  by (simp add: demo_materials_def nonneg_def float_eval)

lemma demo_generate_0:
  "generateRay_segment demo_ext demo_camera 1 2 0 0 (demo_path 0 0) = demo_primary0"
  by (simp add: generateRay_segment_def demo_camera_def demo_ext_sel demo_path_def demo_ray_def
      demo_primary0_def demo_primary1_def Let_def)

lemma demo_generate_1:
  "generateRay_segment demo_ext demo_camera 1 2 1 0 (demo_path 0 0) = demo_primary1"
  by (simp add: generateRay_segment_def demo_camera_def demo_ext_sel demo_path_def demo_ray_def
      demo_primary0_def demo_primary1_def Let_def)

lemma demo_entry_paths:
  "dev_paths (loop_entry demo_ext demo_scene 1 demo_start) = [demo_primary0, demo_primary1]"
proof -
  have len: "length (dev_paths demo_start) = pixelcount demo_scene"
    by (simp add: demo_pixelcount demo_start_def)
  let ?g = "generate_paths demo_ext demo_scene 1 (dev_paths demo_start)"
  have l: "length ?g = 2" using generate_paths_slots(1)[OF len] by (simp add: demo_pixelcount)
  have g0: "?g ! 0 = demo_primary0"
    using generate_paths_nth[OF len, of 0 demo_ext 1]
    by (simp add: demo_pixelcount demo_scene_sel demo_camera_sel demo_start_def demo_generate_0)
  have g1: "?g ! 1 = demo_primary1"
    using generate_paths_nth[OF len, of 1 demo_ext 1]
    by (simp add: demo_pixelcount demo_scene_sel demo_camera_sel demo_start_def demo_generate_1[unfolded One_nat_def])
  have "?g = [?g ! 0, ?g ! 1]"
    using l by (auto simp: list_eq_iff_nth_eq less_Suc_eq numeral_2_eq_2)
  then have "?g = [demo_primary0, demo_primary1]" by (simp only: g0 g1)
  then show ?thesis by (simp only: loop_entry_fields)
qed

lemma demo_entry:
  "loop_entry demo_ext demo_scene 1 demo_start =
     demo_start\<lparr>dev_paths := [demo_primary0, demo_primary1], num_paths := 2, depth := 0\<rparr>"
  using demo_entry_paths by (simp add: loop_entry_def demo_pixelcount)

lemma demo_dir0_pos: "0 < vx (normalize_vec (Vec3 1 (1 / 2) 1))"
  by (simp add: normalize_vec_def)

lemma demo_dir1_zero: "vx (normalize_vec (Vec3 0 (1 / 2) 1)) = 0"
  by (simp add: normalize_vec_def)

lemma demo_test_primary0:
  "demo_test demo_sphere (ray (demo_primary0)) ti tn out = (4, Vec3 0 0 4, Vec3 0 0 (- 1), True)"
  "demo_test demo_box (ray (demo_primary0)) ti tn out = (- 1, ti, tn, out)"
  using demo_dir0_pos
  by (simp_all add: demo_test_def demo_sphere_def demo_box_def demo_primary0_def demo_primary1_def)

lemma demo_test_primary1:
  "demo_test demo_sphere (ray (demo_primary1)) ti tn out = (- 1, ti, tn, out)"
  "demo_test demo_box (ray (demo_primary1)) ti tn out = (3, Vec3 0 0 3, Vec3 0 0 (- 1), True)"
  using demo_dir1_zero
  by (simp_all add: demo_test_def demo_sphere_def demo_box_def demo_primary0_def demo_primary1_def)

lemma demo_test_bounced:
  "demo_test demo_sphere (ray (demo_bounced w b)\<lparr>intersect := x\<rparr>) ti tn out = (- 1, ti, tn, out)"
  "demo_test demo_box (ray (demo_bounced w b)\<lparr>intersect := x\<rparr>) ti tn out =
     (3, Vec3 0 0 3, Vec3 0 0 (- 1), True)"
  "demo_test demo_sphere (ray (demo_bounced w b)) ti tn out = (- 1, ti, tn, out)"
  "demo_test demo_box (ray (demo_bounced w b)) ti tn out = (3, Vec3 0 0 3, Vec3 0 0 (- 1), True)"
  by (simp_all add: demo_test_def demo_sphere_def demo_box_def demo_bounced_def)

lemma demo_geom_types:
  "gtype demo_sphere = SPHERE" "gtype demo_box = CUBE"
  "materialid demo_sphere = 1" "materialid demo_box = 0"
  by (simp_all add: demo_sphere_def demo_box_def)

lemma demo_init:
  "init_locals demo_ext dep i p =
     \<lparr>l_t = 0, l_intersect_point = Vec3 0 0 0, l_normal = Vec3 0 0 0, l_t_min = FLT_MAX,
      l_hit_geom_index = - 1, l_outside = True, l_hitmesh = False,
      l_tmp_intersect = Vec3 0 0 0, l_tmp_normal = Vec3 0 0 0,
      l_ray_intersect = intersect (ray p)\<rparr>"
  by (simp add: init_locals_def demo_ext_sel)

lemma FLT_MAX_gt: "4 < FLT_MAX" "3 < FLT_MAX"
  by (simp_all add: FLT_MAX_def)

lemma demo_step0_primary0:
  "geom_step demo_ext (ray (demo_primary0)) [demo_sphere, demo_box] [] 0 0
     \<lparr>l_t = 0, l_intersect_point = Vec3 0 0 0, l_normal = Vec3 0 0 0, l_t_min = FLT_MAX,
      l_hit_geom_index = - 1, l_outside = True, l_hitmesh = False,
      l_tmp_intersect = Vec3 0 0 0, l_tmp_normal = Vec3 0 0 0,
      l_ray_intersect = x\<rparr> =
     \<lparr>l_t = 4, l_intersect_point = Vec3 0 0 4, l_normal = Vec3 0 0 (- 1), l_t_min = 4,
      l_hit_geom_index = 0, l_outside = True, l_hitmesh = False,
      l_tmp_intersect = Vec3 0 0 4, l_tmp_normal = Vec3 0 0 (- 1),
      l_ray_intersect = Vec3 0 0 4\<rparr>"
  by (simp add: geom_step_def call_test_def demo_ext_sel demo_test_primary0 demo_geom_types
      FLT_MAX_gt Let_def)

lemma demo_step1_primary0:
  "geom_step demo_ext (ray (demo_primary0)) [demo_sphere, demo_box] [] 0 (Suc 0)
     \<lparr>l_t = 4, l_intersect_point = Vec3 0 0 4, l_normal = Vec3 0 0 (- 1), l_t_min = 4,
      l_hit_geom_index = 0, l_outside = True, l_hitmesh = False,
      l_tmp_intersect = Vec3 0 0 4, l_tmp_normal = Vec3 0 0 (- 1),
      l_ray_intersect = Vec3 0 0 4\<rparr> =
     \<lparr>l_t = - 1, l_intersect_point = Vec3 0 0 4, l_normal = Vec3 0 0 (- 1), l_t_min = 4,
      l_hit_geom_index = 0, l_outside = True, l_hitmesh = False,
      l_tmp_intersect = Vec3 0 0 4, l_tmp_normal = Vec3 0 0 (- 1),
      l_ray_intersect = Vec3 0 0 4\<rparr>"
  by (simp add: geom_step_def call_test_def demo_ext_sel demo_test_primary0 demo_geom_types
      FLT_MAX_gt Let_def)

lemma demo_step0_primary1:
  "geom_step demo_ext (ray (demo_primary1)) [demo_sphere, demo_box] [] 0 0
     \<lparr>l_t = 0, l_intersect_point = Vec3 0 0 0, l_normal = Vec3 0 0 0, l_t_min = FLT_MAX,
      l_hit_geom_index = - 1, l_outside = True, l_hitmesh = False,
      l_tmp_intersect = Vec3 0 0 0, l_tmp_normal = Vec3 0 0 0,
      l_ray_intersect = x\<rparr> =
     \<lparr>l_t = - 1, l_intersect_point = Vec3 0 0 0, l_normal = Vec3 0 0 0, l_t_min = FLT_MAX,
      l_hit_geom_index = - 1, l_outside = True, l_hitmesh = False,
      l_tmp_intersect = Vec3 0 0 0, l_tmp_normal = Vec3 0 0 0,
      l_ray_intersect = x\<rparr>"
  by (simp add: geom_step_def call_test_def demo_ext_sel demo_test_primary1 demo_geom_types
      FLT_MAX_gt Let_def)

lemma demo_step1_primary1:
  "geom_step demo_ext (ray (demo_primary1)) [demo_sphere, demo_box] [] 0 (Suc 0)
     \<lparr>l_t = - 1, l_intersect_point = Vec3 0 0 0, l_normal = Vec3 0 0 0, l_t_min = FLT_MAX,
      l_hit_geom_index = - 1, l_outside = True, l_hitmesh = False,
      l_tmp_intersect = Vec3 0 0 0, l_tmp_normal = Vec3 0 0 0,
      l_ray_intersect = x\<rparr> =
     \<lparr>l_t = 3, l_intersect_point = Vec3 0 0 3, l_normal = Vec3 0 0 (- 1), l_t_min = 3,
      l_hit_geom_index = 1, l_outside = True, l_hitmesh = False,
      l_tmp_intersect = Vec3 0 0 3, l_tmp_normal = Vec3 0 0 (- 1),
      l_ray_intersect = Vec3 0 0 3\<rparr>"
  by (simp add: geom_step_def call_test_def demo_ext_sel demo_test_primary1 demo_geom_types
      FLT_MAX_gt Let_def)

lemma demo_step0_bounced:
  "geom_step demo_ext (ray (demo_bounced w b)) [demo_sphere, demo_box] [] 0 0
     \<lparr>l_t = 0, l_intersect_point = Vec3 0 0 0, l_normal = Vec3 0 0 0, l_t_min = FLT_MAX,
      l_hit_geom_index = - 1, l_outside = True, l_hitmesh = False,
      l_tmp_intersect = Vec3 0 0 0, l_tmp_normal = Vec3 0 0 0,
      l_ray_intersect = x\<rparr> =
     \<lparr>l_t = - 1, l_intersect_point = Vec3 0 0 0, l_normal = Vec3 0 0 0, l_t_min = FLT_MAX,
      l_hit_geom_index = - 1, l_outside = True, l_hitmesh = False,
      l_tmp_intersect = Vec3 0 0 0, l_tmp_normal = Vec3 0 0 0,
      l_ray_intersect = x\<rparr>"
  by (simp add: geom_step_def call_test_def demo_ext_sel demo_test_bounced demo_geom_types
      FLT_MAX_gt Let_def)

lemma demo_step1_bounced:
  "geom_step demo_ext (ray (demo_bounced w b)) [demo_sphere, demo_box] [] 0 (Suc 0)
     \<lparr>l_t = - 1, l_intersect_point = Vec3 0 0 0, l_normal = Vec3 0 0 0, l_t_min = FLT_MAX,
      l_hit_geom_index = - 1, l_outside = True, l_hitmesh = False,
      l_tmp_intersect = Vec3 0 0 0, l_tmp_normal = Vec3 0 0 0,
      l_ray_intersect = x\<rparr> =
     \<lparr>l_t = 3, l_intersect_point = Vec3 0 0 3, l_normal = Vec3 0 0 (- 1), l_t_min = 3,
      l_hit_geom_index = 1, l_outside = True, l_hitmesh = False,
      l_tmp_intersect = Vec3 0 0 3, l_tmp_normal = Vec3 0 0 (- 1),
      l_ray_intersect = Vec3 0 0 3\<rparr>"
  by (simp add: geom_step_def call_test_def demo_ext_sel demo_test_bounced demo_geom_types
      FLT_MAX_gt Let_def)

lemma demo_scan_primary0:
  "l_ray_intersect (scan_geoms demo_ext dep i (geoms demo_scene) (triangles demo_scene)
        (length (geoms demo_scene)) (length (triangles demo_scene)) (demo_primary0)) = Vec3 0 0 4"
  "write_intersection (geoms demo_scene) (triangles demo_scene)
     (scan_geoms demo_ext dep i (geoms demo_scene) (triangles demo_scene)
        (length (geoms demo_scene)) (length (triangles demo_scene)) (demo_primary0)) z = demo_hit 4 1"
  by (simp_all add: scan_geoms_def demo_scene_sel upt_small upt_rec demo_init demo_step0_primary0 demo_step1_primary0
      write_intersection_def demo_hit_def demo_geom_types)

lemma demo_scan_primary1:
  "l_ray_intersect (scan_geoms demo_ext dep i (geoms demo_scene) (triangles demo_scene)
        (length (geoms demo_scene)) (length (triangles demo_scene)) (demo_primary1)) = Vec3 0 0 3"
  "write_intersection (geoms demo_scene) (triangles demo_scene)
     (scan_geoms demo_ext dep i (geoms demo_scene) (triangles demo_scene)
        (length (geoms demo_scene)) (length (triangles demo_scene)) (demo_primary1)) z = demo_hit 3 0"
  by (simp_all add: scan_geoms_def demo_scene_sel upt_small upt_rec demo_init demo_step0_primary1 demo_step1_primary1
      write_intersection_def demo_hit_def demo_geom_types)

lemma demo_scan_bounced:
  "l_ray_intersect (scan_geoms demo_ext dep i (geoms demo_scene) (triangles demo_scene)
        (length (geoms demo_scene)) (length (triangles demo_scene)) (demo_bounced w b)) = Vec3 0 0 3"
  "write_intersection (geoms demo_scene) (triangles demo_scene)
     (scan_geoms demo_ext dep i (geoms demo_scene) (triangles demo_scene)
        (length (geoms demo_scene)) (length (triangles demo_scene)) (demo_bounced w b)) z = demo_hit 3 0"
  by (simp_all add: scan_geoms_def demo_scene_sel upt_small upt_rec demo_init demo_step0_bounced demo_step1_bounced
      write_intersection_def demo_hit_def demo_geom_types)

lemma demo_entry_eq: "loop_entry demo_ext demo_scene 1 demo_start = demo_entered"
  unfolding demo_entry by (simp add: demo_entered_def demo_start_def)

lemma demo_intersect1:
  "stage_intersect demo_ext demo_scene demo_entered =
     demo_entered\<lparr>dev_paths := [demo_primary0\<lparr>ray := (ray demo_primary0)\<lparr>intersect := Vec3 0 0 4\<rparr>\<rparr>,
                                demo_primary1\<lparr>ray := (ray demo_primary1)\<lparr>intersect := Vec3 0 0 3\<rparr>\<rparr>],
                  dev_intersections := [demo_hit 4 1, demo_hit 3 0],
                  depth := 1\<rparr>"
proof -
  have a: "num_paths demo_entered \<le> length (dev_paths demo_entered)"
    "length (dev_intersections demo_entered) = pixelcount demo_scene"
    "num_paths demo_entered \<le> pixelcount demo_scene"
    by (simp_all add: demo_entered_def demo_pixelcount)
  show ?thesis
    unfolding stage_intersect_eval[OF a]
    by (simp add: demo_entered_def upt_small demo_scan_primary0 demo_scan_primary1
        cudaMemset_intersections_def demo_pixelcount)
qed

lemma demo_intersect1_eq: "stage_intersect demo_ext demo_scene demo_entered = demo_intersected1"
  unfolding demo_intersect1 by (simp add: demo_entered_def demo_intersected1_def)

lemma demo_shade_scatter:
  "shadeMaterial_path demo_ext 1 0 (demo_hit 4 1) demo_materials 1
     (demo_primary0\<lparr>ray := (ray demo_primary0)\<lparr>intersect := Vec3 0 0 4\<rparr>\<rparr>) = demo_bounced (1 / 2) 1"
  "shadeMaterial_path demo_ext 1 (Suc 0) (demo_hit 4 1) demo_materials 1
     (demo_primary0\<lparr>ray := (ray demo_primary0)\<lparr>intersect := Vec3 0 0 4\<rparr>\<rparr>) = demo_bounced 1 1"
  using demo_seed_1_0_1 demo_seed_1_1_1
  by (simp_all add: shadeMaterial_path_def demo_hit_def demo_materials_def demo_ext_sel
      demo_scatter_def demo_primary0_def demo_bounced_def Let_def float_eval)

lemma demo_shade_light:
  "shadeMaterial_path demo_ext 1 i (demo_hit 3 0) demo_materials dep
     (demo_primary1\<lparr>ray := (ray demo_primary1)\<lparr>intersect := Vec3 0 0 3\<rparr>\<rparr>) = demo_lit"
  "0 \<le> w \<Longrightarrow> w \<le> 1 \<Longrightarrow>
   shadeMaterial_path demo_ext 1 i (demo_hit 3 0) demo_materials dep
     ((demo_bounced w 1)\<lparr>ray := (ray (demo_bounced w 1))\<lparr>intersect := Vec3 0 0 3\<rparr>\<rparr>) = demo_done w"
  by (simp_all add: shadeMaterial_path_def demo_hit_def demo_materials_def demo_ext_sel
      demo_primary1_def demo_lit_def demo_bounced_def demo_done_def Let_def float_eval)

lemma demo_shade1:
  "stage_shade demo_ext demo_scene 1 demo_intersected1 =
     demo_intersected1\<lparr>dev_paths := [demo_bounced (1 / 2) 1, demo_lit]\<rparr>"
proof -
  have a: "num_paths demo_intersected1 \<le> length (dev_paths demo_intersected1)"
    by (simp add: demo_intersected1_def)
  show ?thesis
    unfolding stage_shade_eval[OF a]
    by (simp add: demo_intersected1_def demo_scene_sel upt_small demo_shade_scatter demo_shade_light)
qed

lemma demo_has_no_bounces:
  "has_no_bounces (demo_bounced w 1)" "\<not> has_no_bounces demo_lit" "\<not> has_no_bounces (demo_done w)"
  by (simp_all add: has_no_bounces_def demo_bounced_def demo_lit_def demo_done_def)

lemma demo_compact1:
  "stage_compact demo_ext (demo_intersected1\<lparr>dev_paths := [demo_bounced w 1, demo_lit]\<rparr>) =
     demo_pass1 w [0, 0]"
  by (simp add: stage_compact_def compact_paths_def demo_ext_sel demo_partition_def
      demo_intersected1_def demo_pass1_def demo_has_no_bounces)

lemma demo_step1: "bounce_step demo_ext False demo_scene 1 demo_entered = demo_pass1 (1 / 2) [0, 0]"
  by (simp add: bounce_step_def stage_sort_off demo_intersect1_eq demo_shade1 demo_compact1)

lemma demo_intersect2:
  "stage_intersect demo_ext demo_scene (demo_pass1 w ids) =
     (demo_pass1 w ids)\<lparr>dev_paths := [(demo_bounced w 1)\<lparr>ray := (ray (demo_bounced w 1))\<lparr>intersect := Vec3 0 0 3\<rparr>\<rparr>,
                                     demo_lit],
                       dev_intersections := [demo_hit 3 0, demo_zero_isect],
                       depth := 2\<rparr>"
proof -
  have a: "num_paths (demo_pass1 w ids) \<le> length (dev_paths (demo_pass1 w ids))"
    "length (dev_intersections (demo_pass1 w ids)) = pixelcount demo_scene"
    "num_paths (demo_pass1 w ids) \<le> pixelcount demo_scene"
    by (simp_all add: demo_pass1_def demo_pixelcount)
  have r: "replicate 2 x = [x, x]" for x :: ShadeableIntersection
    by (simp add: numeral_2_eq_2)
  show ?thesis
    unfolding stage_intersect_eval[OF a]
    by (simp add: demo_pass1_def upt_small demo_scan_bounced cudaMemset_intersections_def
        demo_pixelcount r demo_zero_isect_def)
qed

lemma demo_shade2:
  "0 \<le> w \<Longrightarrow> w \<le> 1 \<Longrightarrow>
   stage_shade demo_ext demo_scene 1
     ((demo_pass1 w ids)\<lparr>dev_paths := [(demo_bounced w 1)\<lparr>ray := (ray (demo_bounced w 1))\<lparr>intersect := Vec3 0 0 3\<rparr>\<rparr>,
                                     demo_lit],
                       dev_intersections := [demo_hit 3 0, demo_zero_isect],
                       depth := 2\<rparr>) =
     (demo_pass1 w ids)\<lparr>dev_paths := [demo_done w, demo_lit],
                       dev_intersections := [demo_hit 3 0, demo_zero_isect],
                       depth := 2\<rparr>"
  by (subst stage_shade_eval)
     (simp_all add: demo_pass1_def demo_scene_sel upt_small demo_shade_light)

lemma demo_compact2:
  "stage_compact demo_ext
     ((demo_pass1 w ids)\<lparr>dev_paths := [demo_done w, demo_lit],
                       dev_intersections := [demo_hit 3 0, demo_zero_isect],
                       depth := 2\<rparr>) = demo_pass2 w ids"
  by (simp add: stage_compact_def compact_paths_def demo_ext_sel demo_partition_def
      demo_pass1_def demo_pass2_def demo_has_no_bounces)

lemma demo_step2:
  "0 \<le> w \<Longrightarrow> w \<le> 1 \<Longrightarrow>
   bounce_step demo_ext False demo_scene 1 (demo_pass1 w ids) = demo_pass2 w ids"
  by (simp add: bounce_step_def stage_sort_off demo_intersect2 demo_shade2 demo_compact2)

lemma demo_passes:
  "passes demo_ext demo_scene 1 0 demo_start = demo_entered"
  "passes demo_ext demo_scene 1 1 demo_start = demo_pass1 (1 / 2) [0, 0]"
  "passes demo_ext demo_scene 1 2 demo_start = demo_pass2 (1 / 2) [0, 0]"
proof -
  show a: "passes demo_ext demo_scene 1 0 demo_start = demo_entered"
    by (simp add: passes_0 demo_entry_eq)
  have "passes demo_ext demo_scene 1 (Suc 0) demo_start = demo_pass1 (1 / 2) [0, 0]"
    unfolding passes_Suc a by (rule demo_step1)
  then show b: "passes demo_ext demo_scene 1 1 demo_start = demo_pass1 (1 / 2) [0, 0]" by simp
  have "passes demo_ext demo_scene 1 (Suc 1) demo_start = demo_pass2 (1 / 2) [0, 0]"
    unfolding passes_Suc b by (rule demo_step2) simp_all
  then show "passes demo_ext demo_scene 1 2 demo_start = demo_pass2 (1 / 2) [0, 0]"
    by (simp add: numeral_2_eq_2)
qed

lemma demo_complete:
  "\<not> iteration_complete demo_scene (demo_pass1 w ids)"
  "iteration_complete demo_scene (demo_pass2 w ids)"
  by (simp_all add: iteration_complete_def demo_scene_sel demo_pass1_def demo_pass2_def)

lemma demo_bounce_loop:
  "bounce_loop demo_ext MATERIALS demo_scene 1 (loop_entry demo_ext demo_scene 1 demo_start) =
     Some ((demo_pass2 (1 / 2) [0, 0])\<lparr>num_paths := 2\<rparr>)"
proof -
  have "bounce_loop demo_ext False demo_scene 1 (demo_pass1 (1 / 2) [0, 0]) =
          Some ((demo_pass2 (1 / 2) [0, 0])\<lparr>num_paths := 2\<rparr>)"
    by (subst bounce_loop.simps) (simp add: demo_step2 demo_complete demo_pixelcount Let_def)
  then have "bounce_loop demo_ext False demo_scene 1 demo_entered =
          Some ((demo_pass2 (1 / 2) [0, 0])\<lparr>num_paths := 2\<rparr>)"
    by (subst bounce_loop.simps) (simp add: demo_step1 demo_complete Let_def)
  then show ?thesis by (simp add: MATERIALS_def demo_entry_eq)
qed

lemma demo_contracts:
  "partition_contract (thrust_partition demo_ext)"
  "scatter_keeps_identity (scatterRay demo_ext)"
  "scatter_keeps_sign (scatterRay demo_ext)"
  using demo_partition_contract demo_scatter_identity demo_scatter_sign
  by (simp_all add: demo_ext_sel)

lemma demo_intersected1_wf: "wf_device demo_scene demo_intersected1"
  by (simp add: wf_device_def demo_intersected1_def demo_pixelcount)

lemma demo_uniform_contract: "uniform_contract (uniform_real_distribution demo_ext)"
  by (simp add: uniform_contract_def demo_ext_sel)

text \<open>The second pass of the scripted scene: one active path, which has bounced off the sphere.\<close>

lemma demo_second_intersect:
  assumes "dev_paths d = [demo_bounced w 1, q]" "num_paths d = 1"
    "length (dev_intersections d) = 2"
  shows "stage_intersect demo_ext demo_scene d =
     d\<lparr>dev_paths := [(demo_bounced w 1)\<lparr>ray := (ray (demo_bounced w 1))\<lparr>intersect := Vec3 0 0 3\<rparr>\<rparr>, q],
       dev_intersections := [demo_hit 3 0, demo_zero_isect],
       depth := depth d + 1\<rparr>"
proof -
  have a: "num_paths d \<le> length (dev_paths d)"
    "length (dev_intersections d) = pixelcount demo_scene"
    "num_paths d \<le> pixelcount demo_scene"
    using assms by (simp_all add: demo_pixelcount)
  have r: "replicate 2 x = [x, x]" for x :: ShadeableIntersection
    by (simp add: numeral_2_eq_2)
  show ?thesis
    unfolding stage_intersect_eval[OF a]
    by (simp add: assms upt_small demo_scan_bounced cudaMemset_intersections_def
        demo_pixelcount r demo_zero_isect_def)
qed

lemma demo_hot_shade:
  "shadeMaterial_path demo_ext 1 0 (demo_hit 4 1) demo_hot 1
     (demo_primary0\<lparr>ray := (ray demo_primary0)\<lparr>intersect := Vec3 0 0 4\<rparr>\<rparr>) = demo_bounced (1 / 2) 1"
  "shadeMaterial_path demo_ext 1 i (demo_hit 3 0) demo_hot dep
     (demo_primary1\<lparr>ray := (ray demo_primary1)\<lparr>intersect := Vec3 0 0 3\<rparr>\<rparr>) = demo_glare"
  "shadeMaterial_path demo_ext 1 i (demo_hit 3 0) demo_hot dep
     ((demo_bounced (1 / 2) 1)\<lparr>ray := (ray (demo_bounced (1 / 2) 1))\<lparr>intersect := Vec3 0 0 3\<rparr>\<rparr>) = demo_burnt"
proof -
  have "demo_hot (materialId (demo_hit 4 1)) = demo_materials (materialId (demo_hit 4 1))"
    by (simp add: demo_hot_def demo_hit_def)
  note c = shade_cong_material[of demo_hot "demo_hit 4 1" demo_materials, OF this]
  show "shadeMaterial_path demo_ext 1 0 (demo_hit 4 1) demo_hot 1
     (demo_primary0\<lparr>ray := (ray demo_primary0)\<lparr>intersect := Vec3 0 0 4\<rparr>\<rparr>) = demo_bounced (1 / 2) 1"
    unfolding c by (rule demo_shade_scatter(1))
  show "shadeMaterial_path demo_ext 1 i (demo_hit 3 0) demo_hot dep
     (demo_primary1\<lparr>ray := (ray demo_primary1)\<lparr>intersect := Vec3 0 0 3\<rparr>\<rparr>) = demo_glare"
    by (simp add: shadeMaterial_path_def demo_hit_def demo_hot_def
      demo_primary1_def demo_glare_def Let_def float_eval)
  show "shadeMaterial_path demo_ext 1 i (demo_hit 3 0) demo_hot dep
     ((demo_bounced (1 / 2) 1)\<lparr>ray := (ray (demo_bounced (1 / 2) 1))\<lparr>intersect := Vec3 0 0 3\<rparr>\<rparr>) = demo_burnt"
    by (simp add: shadeMaterial_path_def demo_hit_def demo_hot_def
      demo_bounced_def demo_burnt_def Let_def float_eval)
qed

lemma demo_hot_step1:
  "bounce_step demo_ext False demo_hot_scene 1 demo_entered =
     demo_intersected1\<lparr>dev_paths := [demo_bounced (1 / 2) 1, demo_glare], num_paths := 1\<rparr>"
proof -
  have a: "num_paths demo_intersected1 \<le> length (dev_paths demo_intersected1)"
    by (simp add: demo_intersected1_def)
  have sh: "stage_shade demo_ext demo_hot_scene 1 demo_intersected1 =
      demo_intersected1\<lparr>dev_paths := [demo_bounced (1 / 2) 1, demo_glare]\<rparr>"
    unfolding stage_shade_eval[OF a]
    by (simp add: demo_intersected1_def demo_hot_scene_def upt_small demo_hot_shade)
  have nb: "\<not> has_no_bounces demo_glare" by (simp add: has_no_bounces_def demo_glare_def)
  show ?thesis
    unfolding bounce_step_def stage_sort_off
    unfolding demo_hot_scene_def scene_materials_irrelevant demo_intersect1_eq
      sh[unfolded demo_hot_scene_def]
    by (simp add: stage_compact_def compact_paths_def
        demo_ext_sel demo_partition_def demo_intersected1_def demo_has_no_bounces nb)
qed

lemma demo_hot_step2:
  "bounce_step demo_ext False demo_hot_scene 1
     (demo_intersected1\<lparr>dev_paths := [demo_bounced (1 / 2) 1, demo_glare], num_paths := 1\<rparr>) =
   demo_intersected1\<lparr>dev_paths := [demo_burnt, demo_glare],
                     dev_intersections := [demo_hit 3 0, demo_zero_isect],
                     num_paths := 0, depth := 2\<rparr>"
proof -
  let ?d = "demo_intersected1\<lparr>dev_paths := [demo_bounced (1 / 2) 1, demo_glare], num_paths := 1\<rparr>"
  have i: "stage_intersect demo_ext demo_scene ?d =
     ?d\<lparr>dev_paths := [(demo_bounced (1 / 2) 1)\<lparr>ray := (ray (demo_bounced (1 / 2) 1))\<lparr>intersect := Vec3 0 0 3\<rparr>\<rparr>, demo_glare],
       dev_intersections := [demo_hit 3 0, demo_zero_isect],
       depth := depth ?d + 1\<rparr>"
    by (rule demo_second_intersect) (simp_all add: demo_intersected1_def)
  have sh: "stage_shade demo_ext demo_hot_scene 1
      (?d\<lparr>dev_paths := [(demo_bounced (1 / 2) 1)\<lparr>ray := (ray (demo_bounced (1 / 2) 1))\<lparr>intersect := Vec3 0 0 3\<rparr>\<rparr>, demo_glare],
         dev_intersections := [demo_hit 3 0, demo_zero_isect],
         depth := depth ?d + 1\<rparr>) =
      ?d\<lparr>dev_paths := [demo_burnt, demo_glare],
         dev_intersections := [demo_hit 3 0, demo_zero_isect],
         depth := depth ?d + 1\<rparr>"
    by (subst stage_shade_eval)
       (simp_all add: demo_intersected1_def demo_hot_scene_def upt_small demo_hot_shade)
  have nb: "\<not> has_no_bounces demo_glare" "\<not> has_no_bounces demo_burnt"
    by (simp_all add: has_no_bounces_def demo_glare_def demo_burnt_def)
  show ?thesis
    unfolding bounce_step_def stage_sort_off
    unfolding demo_hot_scene_def scene_materials_irrelevant i sh[unfolded demo_hot_scene_def]
    by (simp add: stage_compact_def compact_paths_def
        demo_ext_sel demo_partition_def demo_intersected1_def nb)
qed

lemma demo_hot_passes:
  "passes demo_ext demo_hot_scene 1 1 demo_start =
     demo_intersected1\<lparr>dev_paths := [demo_bounced (1 / 2) 1, demo_glare], num_paths := 1\<rparr>"
  "passes demo_ext demo_hot_scene 1 2 demo_start =
     demo_intersected1\<lparr>dev_paths := [demo_burnt, demo_glare],
                       dev_intersections := [demo_hit 3 0, demo_zero_isect],
                       num_paths := 0, depth := 2\<rparr>"
proof -
  have a: "passes demo_ext demo_hot_scene 1 0 demo_start = demo_entered"
    by (simp add: passes_0 demo_hot_scene_def scene_materials_irrelevant demo_entry_eq)
  have "passes demo_ext demo_hot_scene 1 (Suc 0) demo_start =
     demo_intersected1\<lparr>dev_paths := [demo_bounced (1 / 2) 1, demo_glare], num_paths := 1\<rparr>"
    unfolding passes_Suc a by (rule demo_hot_step1)
  then show b: "passes demo_ext demo_hot_scene 1 1 demo_start =
     demo_intersected1\<lparr>dev_paths := [demo_bounced (1 / 2) 1, demo_glare], num_paths := 1\<rparr>"
    by simp
  have "passes demo_ext demo_hot_scene 1 (Suc 1) demo_start =
     demo_intersected1\<lparr>dev_paths := [demo_burnt, demo_glare],
                       dev_intersections := [demo_hit 3 0, demo_zero_isect],
                       num_paths := 0, depth := 2\<rparr>"
    unfolding passes_Suc b by (rule demo_hot_step2)
  then show "passes demo_ext demo_hot_scene 1 2 demo_start =
     demo_intersected1\<lparr>dev_paths := [demo_burnt, demo_glare],
                       dev_intersections := [demo_hit 3 0, demo_zero_isect],
                       num_paths := 0, depth := 2\<rparr>"
    by (simp add: numeral_2_eq_2)
qed

lemma demo_flat_wf: "wf_device demo_flat_scene demo_start" "pixelcount demo_flat_scene = 2"
  using demo_start_wf demo_pixelcount
  by (simp_all add: wf_device_def demo_flat_scene_def pixelcount_def)

lemma demo_shade_input:
  "shade_input demo_ext demo_scene 1 0 demo_start = demo_intersected1"
  "shade_input demo_ext demo_scene 1 (Suc 0) demo_start =
     (demo_pass1 (1 / 2) [0, 0])
       \<lparr>dev_paths := [(demo_bounced (1 / 2) 1)\<lparr>ray := (ray (demo_bounced (1 / 2) 1))\<lparr>intersect := Vec3 0 0 3\<rparr>\<rparr>,
                      demo_lit],
        dev_intersections := [demo_hit 3 0, demo_zero_isect],
        depth := 2\<rparr>"
proof -
  show "shade_input demo_ext demo_scene 1 0 demo_start = demo_intersected1"
    unfolding shade_input_def MATERIALS_def stage_sort_off demo_passes(1)
    by (rule demo_intersect1_eq)
  have "passes demo_ext demo_scene 1 (Suc 0) demo_start = demo_pass1 (1 / 2) [0, 0]"
    using demo_passes(2) by simp
  then show "shade_input demo_ext demo_scene 1 (Suc 0) demo_start =
     (demo_pass1 (1 / 2) [0, 0])
       \<lparr>dev_paths := [(demo_bounced (1 / 2) 1)\<lparr>ray := (ray (demo_bounced (1 / 2) 1))\<lparr>intersect := Vec3 0 0 3\<rparr>\<rparr>,
                      demo_lit],
        dev_intersections := [demo_hit 3 0, demo_zero_isect],
        depth := 2\<rparr>"
    unfolding shade_input_def MATERIALS_def stage_sort_off
    by (simp only: demo_intersect2)
qed

lemma demo_shader_applications:
  "shader_applications demo_ext demo_scene 1 2 demo_start 0 = 2"
  "shader_applications demo_ext demo_scene 1 2 demo_start 1 = 1"
  by (simp_all add: shader_applications_def shaded_in_pass_def upt_small demo_shade_input
      demo_intersected1_def demo_pass1_def demo_primary0_def demo_primary1_def demo_bounced_def
      demo_lit_def)











lemma demo_volume_scan:
  "scan_geoms demo_ext dep i [demo_volume] [] 1 0 p =
     \<lparr>l_t = 0, l_intersect_point = Vec3 0 0 0, l_normal = Vec3 0 0 0, l_t_min = FLT_MAX,
      l_hit_geom_index = - 1, l_outside = True, l_hitmesh = False,
      l_tmp_intersect = Vec3 0 0 0, l_tmp_normal = Vec3 0 0 0,
      l_ray_intersect = intersect (ray p)\<rparr>"
  "scan_geoms demo_stale_ext dep i [demo_volume] [] 1 0 p =
     \<lparr>l_t = 1, l_intersect_point = Vec3 0 0 0, l_normal = Vec3 0 0 0, l_t_min = 1,
      l_hit_geom_index = 0, l_outside = True, l_hitmesh = False,
      l_tmp_intersect = Vec3 0 0 0, l_tmp_normal = Vec3 0 0 0,
      l_ray_intersect = Vec3 0 0 0\<rparr>"
  using FLT_MAX_gt
  by (simp_all add: scan_geoms_def upt_small init_locals_def geom_step_def demo_volume_def
      demo_stale_ext_def demo_ext_sel Let_def)

section \<open>The claims\<close>

text \<open>
  C1. One call of \<^verbatim>\<open>pathtrace\<close> returns, and when its loop has exited (by depth or by
  an empty active range alike) the accumulation runs over all \<open>pixelcount\<close> slots of the path
  buffer: the slot \<open>j\<close> adds the colour of its path to the image at that path's pixel. The
  pixels of the slots are a permutation of all pixels, so every pixel receives the colour of
  exactly one path, exactly once.
\<close>

theorem accumulation_once:
  assumes "partition_contract (thrust_partition E)"
      and "scatter_keeps_identity (scatterRay E)"
      and "wf_device scene d"
  shows
    "\<exists>d'. pathtrace E scene iter d = Some d'
       \<and> num_paths d' = pixelcount scene
       \<and> length (dev_paths d') = pixelcount scene
       \<and> length (dev_image d') = pixelcount scene
       \<and> mset (map pixelIndex (dev_paths d')) = mset [0..<pixelcount scene]
       \<and> (\<forall>j < pixelcount scene.
             dev_image d' ! pixelIndex (dev_paths d' ! j) =
             vadd (dev_image d ! pixelIndex (dev_paths d' ! j)) (color (dev_paths d' ! j)))"
  using pathtrace_gathers[OF assms, of iter] by blast

theorem accumulation_once_witness:
  "partition_contract (thrust_partition demo_ext) \<and> scatter_keeps_identity (scatterRay demo_ext)
   \<and> wf_device demo_scene demo_start
   \<and> map_option dev_image (pathtrace demo_ext demo_scene 1 demo_start) =
       Some [Vec3 (Finite (5 / 4)) (Finite (5 / 8)) 0, Vec3 (Finite 5) (Finite 5) (Finite 5)]
   \<and> map_option (map pixelIndex \<circ> dev_paths) (pathtrace demo_ext demo_scene 1 demo_start) =
       Some [0, 1]
   \<and> map_option num_paths (pathtrace demo_ext demo_scene 1 demo_start) = Some 2"
proof -
  obtain d' where d':
    "pathtrace demo_ext demo_scene 1 demo_start = Some d'"
    "length (dev_image d') = pixelcount demo_scene"
    "\<forall>j < pixelcount demo_scene.
        dev_image d' ! pixelIndex (dev_paths d' ! j) =
        vadd (dev_image demo_start ! pixelIndex (dev_paths d' ! j)) (color (dev_paths d' ! j))"
    using accumulation_once[OF demo_contracts(1,2) demo_start_wf, of 1] by blast
  let ?l = "(demo_pass2 (1 / 2) [0, 0])\<lparr>num_paths := 2\<rparr>"
  have "pathtrace demo_ext demo_scene 1 demo_start = Some (?l\<lparr>dev_image := gather_image demo_scene ?l\<rparr>)"
    by (rule pathtrace_result[OF demo_bounce_loop])
  then have eq: "d' = ?l\<lparr>dev_image := gather_image demo_scene ?l\<rparr>" using d'(1) by simp
  have paths: "dev_paths d' = [demo_done (1 / 2), demo_lit]" and np: "num_paths d' = 2"
    unfolding eq by (simp_all add: demo_pass2_def)
  have i0: "dev_image d' ! 0 = Vec3 (Finite (5 / 4)) (Finite (5 / 8)) 0"
    using d'(3)[rule_format, of 0]
    by (simp add: paths demo_pixelcount demo_done_def demo_start_def float_eval)
  have i1: "dev_image d' ! 1 = Vec3 (Finite 5) (Finite 5) (Finite 5)"
    using d'(3)[rule_format, of 1]
    by (simp add: paths demo_pixelcount demo_lit_def demo_start_def float_eval)
  have "length (dev_image d') = 2" using d'(2) by (simp add: demo_pixelcount)
  then have "dev_image d' = [dev_image d' ! 0, dev_image d' ! 1]"
    by (auto simp: list_eq_iff_nth_eq less_Suc_eq numeral_2_eq_2)
  then have img: "dev_image d' = [Vec3 (Finite (5 / 4)) (Finite (5 / 8)) 0, Vec3 (Finite 5) (Finite 5) (Finite 5)]" by (simp only: i0 i1)
  show ?thesis
    using demo_contracts(1,2) demo_start_wf
    by (simp add: d'(1) img paths np demo_done_def demo_lit_def)
qed

text \<open>
  C2. The source declares the local \<^verbatim>\<open>t\<close> of \<^verbatim>\<open>computeIntersections\<close> without an
  initialiser and reads it after every geometry, also after one for which no test was called.
  For one path and the scene of the one bounding volume, which the ray does not enter, no
  primitive yields a distance. When \<^verbatim>\<open>t\<close> starts at 0 the kernel writes \<open>t = -1\<close> and
  leaves the material and the normal as the \<^verbatim>\<open>cudaMemset\<close> left them. When it starts at 1
  the kernel records a hit of the bounding volume itself at the distance 1, with that volume's
  material and the normal that the local \<^verbatim>\<open>tmp_normal\<close> started with, and moves the
  cached intersection point of the path.
\<close>

theorem computeIntersections_uninitialised:
  "\<not> boundingVolumeIntersectionTest demo_ext demo_volume (ray (demo_path 0 2))
   \<and> \<not> boundingVolumeIntersectionTest demo_stale_ext demo_volume (ray (demo_path 0 2))
   \<and> launch1d (numblocks1d 1) blockSize1d
        (computeIntersections demo_ext 0 1 [demo_volume] [] 1 0)
        ([demo_path 0 2], [demo_zero_isect]) =
       ([demo_path 0 2], [\<lparr>isect_t = - 1, surfaceNormal = Vec3 0 0 0, materialId = 0\<rparr>])
   \<and> launch1d (numblocks1d 1) blockSize1d
        (computeIntersections demo_stale_ext 0 1 [demo_volume] [] 1 0)
        ([demo_path 0 2], [demo_zero_isect]) =
       ([(demo_path 0 2)\<lparr>ray := (ray (demo_path 0 2))\<lparr>intersect := Vec3 0 0 0\<rparr>\<rparr>],
        [\<lparr>isect_t = 1, surfaceNormal = Vec3 0 0 0, materialId = 7\<rparr>])"
proof -
  have l: "1 \<le> length [demo_path 0 2]" "1 \<le> length [demo_zero_isect]" by simp_all
  have b: "\<not> boundingVolumeIntersectionTest demo_ext demo_volume (ray (demo_path 0 2))"
    "\<not> boundingVolumeIntersectionTest demo_stale_ext demo_volume (ray (demo_path 0 2))"
    by (simp_all add: demo_stale_ext_def demo_ext_sel demo_volume_def)
  have m: "materialid demo_volume = 7" by (simp add: demo_volume_def)
  have a: "launch1d (numblocks1d 1) blockSize1d
        (computeIntersections demo_ext 0 1 [demo_volume] [] 1 0)
        ([demo_path 0 2], [demo_zero_isect]) =
       ([demo_path 0 2], [\<lparr>isect_t = - 1, surfaceNormal = Vec3 0 0 0, materialId = 0\<rparr>])"
    unfolding computeIntersections_launch[OF l]
    by (simp add: upt_small demo_volume_scan[unfolded One_nat_def] write_intersection_def
        demo_zero_isect_def demo_path_def)
  have s: "launch1d (numblocks1d 1) blockSize1d
        (computeIntersections demo_stale_ext 0 1 [demo_volume] [] 1 0)
        ([demo_path 0 2], [demo_zero_isect]) =
       ([(demo_path 0 2)\<lparr>ray := (ray (demo_path 0 2))\<lparr>intersect := Vec3 0 0 0\<rparr>\<rparr>],
        [\<lparr>isect_t = 1, surfaceNormal = Vec3 0 0 0, materialId = 7\<rparr>])"
    unfolding computeIntersections_launch[OF l]
    using m
    by (simp add: upt_small demo_volume_scan[unfolded One_nat_def] write_intersection_def
        demo_zero_isect_def)
  show ?thesis using b a s by (intro conjI) assumption+
qed

text \<open>
  C3. For every path entering the Shader (every thread \<open>idx\<close> below the active count of a
  launch of \<^verbatim>\<open>shadeMaterial\<close>): if \<open>t > 0\<close>, \<open>remainingBounces > 0\<close> and the hit
  material has \<open>emittance > 0\<close>, the colour is multiplied by \<open>materialColor * emittance\<close> and
  \<open>remainingBounces\<close> becomes 0; if \<open>t > 0\<close>, \<open>remainingBounces > 0\<close> and
  \<open>emittance \<le> 0\<close>, the path is what \<^verbatim>\<open>scatterRay\<close> makes of it with
  \<open>remainingBounces\<close> decremented by 1 (by exactly 1 from its value on entry when
  \<^verbatim>\<open>scatterRay\<close> leaves the counter alone); if \<open>t \<le> 0\<close> and \<open>remainingBounces > 0\<close>,
  the colour becomes \<open>(0,0,0)\<close> and \<open>remainingBounces\<close> becomes 0; a path that enters with
  \<open>remainingBounces \<le> 0\<close> is left as it is.
\<close>

theorem shadeMaterial_cases:
  assumes "n \<le> length pathSegments" and "idx < n"
  shows
    "(let p = pathSegments ! idx;
          i = isects ! idx;
          m = mats (materialId i);
          q = scatterRay E p (intersect (ray p)) (surfaceNormal i) m
                (makeSeededRandomEngine E iter (int idx) dep);
          p' = launch1d (numblocks1d n) blockSize1d
                 (shadeMaterial E iter n isects mats dep) pathSegments ! idx
      in (0 < isect_t i \<and> 0 < remainingBounces p \<and> 0 < emittance m \<longrightarrow>
            p' = p\<lparr>color := vmul (color p) (smul (mcolor m) (emittance m)),
                   remainingBounces := 0\<rparr>)
       \<and> (0 < isect_t i \<and> 0 < remainingBounces p \<and> emittance m \<le> 0 \<longrightarrow>
            p' = q\<lparr>remainingBounces := remainingBounces q - 1\<rparr>
            \<and> (remainingBounces q = remainingBounces p \<longrightarrow>
                 remainingBounces p' = remainingBounces p - 1))
       \<and> (isect_t i \<le> 0 \<and> 0 < remainingBounces p \<longrightarrow>
            p' = p\<lparr>color := Vec3 0 0 0, remainingBounces := 0\<rparr>)
       \<and> (remainingBounces p \<le> 0 \<longrightarrow> p' = p))"
  unfolding Let_def shadeMaterial_launch_nth[OF assms]
  by (auto simp: shadeMaterial_path_def Let_def dest: float_le_not_less)

theorem shadeMaterial_cases_witness:
  "(let ps = [demo_path 0 3, demo_path 1 3, demo_path 2 3, demo_path 3 0];
        is = [demo_hit 4 0, demo_hit 4 1, demo_hit (- 1) 0, demo_hit 4 1];
        ps' = launch1d (numblocks1d 4) blockSize1d
                (shadeMaterial demo_ext 1 4 is demo_materials 1) ps
    in ps' ! 0 = (demo_path 0 3)\<lparr>color := Vec3 (Finite 5) (Finite 5) (Finite 5), remainingBounces := 0\<rparr>
     \<and> ps' ! 1 = \<lparr>ray = \<lparr>origin = Vec3 0 0 2, direction = Vec3 0 0 (- 1), intersect = Vec3 0 0 2\<rparr>,
                  color = Vec3 (Finite (1 / 2)) (Finite (1 / 4)) 0, pixelIndex = 1, remainingBounces = 2\<rparr>
     \<and> ps' ! 2 = (demo_path 2 3)\<lparr>color := Vec3 0 0 0, remainingBounces := 0\<rparr>
     \<and> ps' ! 3 = demo_path 3 0)"
proof -
  let ?ps = "[demo_path 0 3, demo_path 1 3, demo_path 2 3, demo_path 3 0]"
  let ?is = "[demo_hit 4 0, demo_hit 4 1, demo_hit (- 1) 0, demo_hit 4 1]"
  have len: "4 \<le> length ?ps" by simp
  note c = shadeMaterial_cases[OF len, of _ ?is demo_materials demo_ext 1 1]
  have "(0::nat) < 4" "(1::nat) < 4" "(2::nat) < 4" "(3::nat) < 4" by simp_all
  from c[OF this(1)] c[OF this(2)] c[OF this(3)] c[OF this(4)]
  show ?thesis
    by (simp add: Let_def demo_path_def demo_hit_def demo_materials_def demo_seed_1_1_1
        demo_ext_sel demo_scatter_def demo_ray_def float_eval)
qed

text \<open>
  C4. At every depth of every iteration the compaction (the partition of the active range of the
  just-shaded array by \<^verbatim>\<open>has_no_bounces\<close>) leaves the paths with
  \<open>remainingBounces > 0\<close> in front of the terminated ones, reports as the new active count the
  size of the first part, and keeps the paths as a multiset: the count before is the number
  still bouncing plus the number terminated, nothing is duplicated or dropped, and the slots
  beyond the old active count are not touched.
\<close>

theorem compaction_partitions:
  assumes "partition_contract (thrust_partition E)" and "num_paths d \<le> length (dev_paths d)"
  shows
    "(let n = num_paths d; ps = dev_paths d;
          ps' = dev_paths (stage_compact E d); k = num_paths (stage_compact E d)
      in k \<le> n
       \<and> (\<forall>p \<in> set (take k ps'). 0 < remainingBounces p)
       \<and> (\<forall>p \<in> set (drop k (take n ps')). remainingBounces p \<le> 0)
       \<and> k = length (filter (\<lambda>p. 0 < remainingBounces p) (take n ps))
       \<and> length (filter (\<lambda>p. 0 < remainingBounces p) (take n ps'))
           + length (filter (\<lambda>p. remainingBounces p \<le> 0) (take n ps')) = n
       \<and> length (filter (\<lambda>p. 0 < remainingBounces p) (take n ps')) = k
       \<and> mset (take n ps') = mset (take n ps)
       \<and> drop n ps' = drop n ps
       \<and> mset ps' = mset ps)"
proof -
  obtain front k where c:
    "compact_paths E (num_paths d) (dev_paths d) = (front @ drop (num_paths d) (dev_paths d), k)"
    "mset front = mset (take (num_paths d) (dev_paths d))" "length front = num_paths d"
    "k \<le> num_paths d"
    "\<forall>p \<in> set (take k front). 0 < remainingBounces p"
    "\<forall>p \<in> set (drop k front). remainingBounces p \<le> 0"
    using compact_paths_contract[OF assms] by metis
  have ps': "dev_paths (stage_compact E d) = front @ drop (num_paths d) (dev_paths d)"
    and k: "num_paths (stage_compact E d) = k"
    by (simp_all add: stage_compact_def c(1))
  have tk: "take (num_paths d) (front @ drop (num_paths d) (dev_paths d)) = front"
    using c(3) by simp
  have dr: "drop (num_paths d) (front @ drop (num_paths d) (dev_paths d)) = drop (num_paths d) (dev_paths d)"
    using c(3) by simp
  have tkk: "take k (front @ drop (num_paths d) (dev_paths d)) = take k front"
    using c(3,4) by simp
  have f1: "filter (\<lambda>p. 0 < remainingBounces p) front = take k front"
  proof -
    have "filter (\<lambda>p. 0 < remainingBounces p) (take k front @ drop k front) = take k front"
      unfolding filter_append using c(5,6) by (auto simp: filter_empty_conv not_less)
    then show ?thesis by simp
  qed
  have f2: "length (filter (\<lambda>p. 0 < remainingBounces p) front) = k"
    using f1 c(3,4) by simp
  have f3: "length (filter (\<lambda>p. 0 < remainingBounces p) front)
      + length (filter (\<lambda>p. remainingBounces p \<le> 0) front) = num_paths d"
    using sum_length_filter_compl[of "\<lambda>p. 0 < remainingBounces p" front] c(3)
    by (simp add: not_less)
  have f4: "k = length (filter (\<lambda>p. 0 < remainingBounces p) (take (num_paths d) (dev_paths d)))"
  proof -
    have "mset (filter (\<lambda>p. 0 < remainingBounces p) front)
        = mset (filter (\<lambda>p. 0 < remainingBounces p) (take (num_paths d) (dev_paths d)))"
      using c(2) by (metis mset_filter)
    then show ?thesis using f2 by (metis size_mset)
  qed
  have f5: "mset (front @ drop (num_paths d) (dev_paths d)) = mset (dev_paths d)"
  proof -
    have "mset (front @ drop (num_paths d) (dev_paths d))
        = mset (take (num_paths d) (dev_paths d) @ drop (num_paths d) (dev_paths d))"
      using c(2) by (simp only: mset_append)
    then show ?thesis by simp
  qed
  show ?thesis
    unfolding Let_def ps' k tk dr tkk
  proof (intro conjI)
    show "k \<le> num_paths d" by (rule c(4))
    show "\<forall>p \<in> set (take k front). 0 < remainingBounces p" by (rule c(5))
    show "\<forall>p \<in> set (drop k front). remainingBounces p \<le> 0" by (rule c(6))
    show "k = length (filter (\<lambda>p. 0 < remainingBounces p) (take (num_paths d) (dev_paths d)))"
      by (rule f4)
    show "length (filter (\<lambda>p. 0 < remainingBounces p) front)
      + length (filter (\<lambda>p. remainingBounces p \<le> 0) front) = num_paths d" by (rule f3)
    show "length (filter (\<lambda>p. 0 < remainingBounces p) front) = k" by (rule f2)
    show "mset front = mset (take (num_paths d) (dev_paths d))" by (rule c(2))
    show "drop (num_paths d) (dev_paths d) = drop (num_paths d) (dev_paths d)" by (rule refl)
    show "mset (front @ drop (num_paths d) (dev_paths d)) = mset (dev_paths d)" by (rule f5)
  qed
qed

theorem compaction_partitions_witness:
  "partition_contract (thrust_partition demo_ext)
   \<and> num_paths demo_device \<le> length (dev_paths demo_device)
   \<and> num_paths (stage_compact demo_ext demo_device) = 1
   \<and> dev_paths (stage_compact demo_ext demo_device) =
       [demo_path 1 2, demo_path 0 0, demo_path 2 0, demo_path 3 1]
   \<and> mset (dev_paths (stage_compact demo_ext demo_device)) = mset (dev_paths demo_device)
   \<and> length (filter (\<lambda>p. 0 < remainingBounces p) (take 3 (dev_paths (stage_compact demo_ext demo_device))))
       + length (filter (\<lambda>p. remainingBounces p \<le> 0) (take 3 (dev_paths (stage_compact demo_ext demo_device)))) = 3"
proof -
  have len: "num_paths demo_device \<le> length (dev_paths demo_device)"
    by (simp add: demo_device_def)
  have ev: "dev_paths (stage_compact demo_ext demo_device) =
       [demo_path 1 2, demo_path 0 0, demo_path 2 0, demo_path 3 1]"
    "num_paths (stage_compact demo_ext demo_device) = 1"
    by (simp_all add: stage_compact_def compact_paths_def demo_ext_sel demo_partition_def
        demo_device_def has_no_bounces_def demo_path_def)
  note c = compaction_partitions[OF demo_contracts(1) len, unfolded Let_def]
  have m: "mset (dev_paths (stage_compact demo_ext demo_device)) = mset (dev_paths demo_device)"
    using c by (elim conjE)
  have f: "length (filter (\<lambda>p. 0 < remainingBounces p)
              (take (num_paths demo_device) (dev_paths (stage_compact demo_ext demo_device))))
       + length (filter (\<lambda>p. remainingBounces p \<le> 0)
              (take (num_paths demo_device) (dev_paths (stage_compact demo_ext demo_device))))
       = num_paths demo_device"
    using c by (elim conjE)
  have n3: "num_paths demo_device = 3" by (simp add: demo_device_def)
  show ?thesis
    using demo_contracts(1) len ev m f[unfolded n3] by (intro conjI) assumption+
qed

text \<open>
  C5 (as amended). The ray generator creates the path of slot \<open>j\<close> with pixel \<open>j\<close>, colour
  \<open>(1,1,1)\<close> and counter \<^verbatim>\<open>traceDepth\<close>. From then on, at every stage of every pass: the
  intersection stage changes no path's pixel, colour or counter; the shading stage keeps every
  path's pixel, does not increase its counter and makes no channel of its colour negative; the
  compaction only reorders the paths. For a path that does not take the branch of
  \<^verbatim>\<open>scatterRay\<close> this holds whatever \<^verbatim>\<open>scatterRay\<close> does; for the others it holds
  when \<^verbatim>\<open>scatterRay\<close> leaves the pixel and the counter alone and makes no channel
  negative. Then every path after a pass comes from a path before it with the same pixel, a
  counter no larger and a colour still without a negative channel, and after every number of
  passes the pixels of the buffer are a permutation of all pixels and every colour channel is at
  least 0 or NaN. The colours of the materials are assumed non-negative (the emittance is
  positive wherever it is used). A channel need not stay at least 0: a product that overflows
  to infinity, multiplied by a channel that is 0, is NaN.
\<close>

theorem path_invariants:
  assumes "partition_contract (thrust_partition E)"
      and "\<forall>k. nonneg (mcolor (materials scene k))"
      and "wf_device scene d"
      and "wf_device scene s"
  shows
    "(\<forall>j < pixelcount scene.
        pixelIndex (dev_paths (loop_entry E scene iter d) ! j) = j
        \<and> color (dev_paths (loop_entry E scene iter d) ! j) = Vec3 1 1 1
        \<and> remainingBounces (dev_paths (loop_entry E scene iter d) ! j) = traceDepth scene)
     \<and> map carried (dev_paths (stage_intersect E scene s)) = map carried (dev_paths s)
     \<and> (\<forall>i < length (dev_paths s).
           \<not> scatter_branch (materials scene) (dev_intersections s ! i) (dev_paths s ! i) \<longrightarrow>
           path_kept (dev_paths s ! i) (dev_paths (stage_shade E scene iter s) ! i))
     \<and> mset (dev_paths (stage_compact E s)) = mset (dev_paths s)
     \<and> (scatter_keeps_identity (scatterRay E) \<and> scatter_keeps_sign (scatterRay E) \<longrightarrow>
          (\<forall>i < length (dev_paths s).
              path_kept (dev_paths s ! i) (dev_paths (stage_shade E scene iter s) ! i))
          \<and> (\<forall>k. (\<forall>p' \<in> set (dev_paths (passes E scene iter (Suc k) d)).
                      \<exists>p \<in> set (dev_paths (passes E scene iter k d)). path_kept p p')
                 \<and> mset (map pixelIndex (dev_paths (passes E scene iter k d))) =
                     mset [0..<pixelcount scene]
                 \<and> (\<forall>p \<in> set (dev_paths (passes E scene iter k d)).
                       not_negative (color p) \<and> remainingBounces p \<le> traceDepth scene)))
     \<and> (\<exists>n d'. pathtrace E scene iter d = Some d'
            \<and> dev_paths d' = dev_paths (passes E scene iter (Suc n) d))"
proof (intro conjI allI impI)
  have len: "length (dev_paths d) = pixelcount scene" using assms(3) by (simp add: wf_device_def)
  fix j assume j: "j < pixelcount scene"
  show "pixelIndex (dev_paths (loop_entry E scene iter d) ! j) = j"
    by (rule loop_entry_nth(1)[OF len j])
  show "color (dev_paths (loop_entry E scene iter d) ! j) = Vec3 1 1 1"
    by (rule loop_entry_nth(2)[OF len j])
  show "remainingBounces (dev_paths (loop_entry E scene iter d) ! j) = traceDepth scene"
    by (rule loop_entry_nth(3)[OF len j])
next
  from assms(4) have a: "num_paths s \<le> length (dev_paths s)"
    "length (dev_intersections s) = pixelcount scene" "num_paths s \<le> pixelcount scene"
    by (simp_all add: wf_device_def)
  show "map carried (dev_paths (stage_intersect E scene s)) = map carried (dev_paths s)"
    by (rule stage_intersect_carried[OF a])
  show "mset (dev_paths (stage_compact E s)) = mset (dev_paths s)"
    by (rule stage_compact_facts(2)[OF assms(1) a(1)])
  fix i assume i: "i < length (dev_paths s)"
    and ns: "\<not> scatter_branch (materials scene) (dev_intersections s ! i) (dev_paths s ! i)"
  have "path_kept (dev_paths s ! i)
          (shadeMaterial_path E iter i (dev_intersections s ! i) (materials scene) (depth s)
             (dev_paths s ! i))"
    using shade_kept_no_scatter[OF ns] assms(2) by blast
  then show "path_kept (dev_paths s ! i) (dev_paths (stage_shade E scene iter s) ! i)"
    unfolding stage_shade_nth[OF a(1) i] by (simp add: path_kept_refl)
next
  from assms(4) have a: "num_paths s \<le> length (dev_paths s)"
    by (simp add: wf_device_def)
  fix i assume sc: "scatter_keeps_identity (scatterRay E) \<and> scatter_keeps_sign (scatterRay E)"
    and i: "i < length (dev_paths s)"
  show "path_kept (dev_paths s ! i) (dev_paths (stage_shade E scene iter s) ! i)"
    unfolding stage_shade_nth[OF a i]
    using shade_kept[OF conjunct1[OF sc] conjunct2[OF sc] assms(2)] by (simp add: path_kept_refl)
next
  fix k assume sc: "scatter_keeps_identity (scatterRay E) \<and> scatter_keeps_sign (scatterRay E)"
  note si = conjunct1[OF sc] and ss = conjunct2[OF sc]
  have wf: "wf_device scene (passes E scene iter k d)"
    using passes_inv[OF assms(1,3)] by (simp add: loop_inv_def)
  show "\<forall>p' \<in> set (dev_paths (passes E scene iter (Suc k) d)).
          \<exists>p \<in> set (dev_paths (passes E scene iter k d)). path_kept p p'"
    unfolding passes_Suc by (rule bounce_step_kept[OF assms(1) si ss assms(2) wf])
  show "mset (map pixelIndex (dev_paths (passes E scene iter k d))) = mset [0..<pixelcount scene]"
    by (rule passes_pixelIndex[OF assms(1) si assms(3)])
  show "\<forall>p \<in> set (dev_paths (passes E scene iter k d)).
          not_negative (color p) \<and> remainingBounces p \<le> traceDepth scene"
    by (rule passes_not_negative[OF assms(1) si ss assms(2,3)])
next
  obtain n where n:
    "bounce_loop E MATERIALS scene iter (loop_entry E scene iter d) =
       Some ((passes E scene iter (Suc n) d)\<lparr>num_paths := pixelcount scene\<rparr>)"
    using bounce_loop_result[OF assms(1,3)] by blast
  show "\<exists>n d'. pathtrace E scene iter d = Some d'
            \<and> dev_paths d' = dev_paths (passes E scene iter (Suc n) d)"
    using pathtrace_result[OF n] by (intro exI[of _ n]) simp
qed

theorem path_invariants_witness:
  "partition_contract (thrust_partition demo_ext)
   \<and> nonneg (mcolor (materials demo_scene 0)) \<and> nonneg (mcolor (materials demo_scene 1))
   \<and> wf_device demo_scene demo_start \<and> wf_device demo_scene demo_intersected1
   \<and> scatter_keeps_identity (scatterRay demo_ext) \<and> scatter_keeps_sign (scatterRay demo_ext)
   \<and> pixelIndex (dev_paths (loop_entry demo_ext demo_scene 1 demo_start) ! 1) = 1
   \<and> remainingBounces (dev_paths (loop_entry demo_ext demo_scene 1 demo_start) ! 1) = 2
   \<and> \<not> scatter_branch (materials demo_scene) (dev_intersections demo_intersected1 ! 1)
          (dev_paths demo_intersected1 ! 1)
   \<and> path_kept (dev_paths demo_intersected1 ! 1)
        (dev_paths (stage_shade demo_ext demo_scene 1 demo_intersected1) ! 1)
   \<and> dev_paths (stage_shade demo_ext demo_scene 1 demo_intersected1) ! 1 = demo_lit
   \<and> scatter_branch (materials demo_scene) (dev_intersections demo_intersected1 ! 0)
        (dev_paths demo_intersected1 ! 0)
   \<and> path_kept (dev_paths demo_intersected1 ! 0)
        (dev_paths (stage_shade demo_ext demo_scene 1 demo_intersected1) ! 0)
   \<and> dev_paths (stage_shade demo_ext demo_scene 1 demo_intersected1) ! 0 = demo_bounced (1 / 2) 1
   \<and> not_negative (color (demo_done (1 / 2))) \<and> not_negative (color demo_lit)
   \<and> map carried (dev_paths (passes demo_ext demo_scene 1 2 demo_start)) =
       [(0, Vec3 (Finite (5 / 4)) (Finite (5 / 8)) 0, 0),
        (1, Vec3 (Finite 5) (Finite 5) (Finite 5), 0)]"
proof -
  have mats: "\<forall>k. nonneg (mcolor (materials demo_scene k))"
    by (simp add: demo_scene_sel demo_materials_nonneg)
  have sc: "scatter_keeps_identity (scatterRay demo_ext) \<and> scatter_keeps_sign (scatterRay demo_ext)"
    using demo_contracts(2,3) by (rule conjI)
  note t = path_invariants[OF demo_contracts(1) mats demo_start_wf demo_intersected1_wf, of 1]
  have e: "\<forall>j < pixelcount demo_scene.
        pixelIndex (dev_paths (loop_entry demo_ext demo_scene 1 demo_start) ! j) = j
        \<and> color (dev_paths (loop_entry demo_ext demo_scene 1 demo_start) ! j) = Vec3 1 1 1
        \<and> remainingBounces (dev_paths (loop_entry demo_ext demo_scene 1 demo_start) ! j) =
            traceDepth demo_scene"
    using t by (elim conjE)
  have e1: "pixelIndex (dev_paths (loop_entry demo_ext demo_scene 1 demo_start) ! 1) = 1"
    "remainingBounces (dev_paths (loop_entry demo_ext demo_scene 1 demo_start) ! 1) = 2"
    using e[rule_format, of 1] by (simp_all add: demo_pixelcount demo_scene_sel)
  have u: "\<forall>i < length (dev_paths demo_intersected1).
           \<not> scatter_branch (materials demo_scene) (dev_intersections demo_intersected1 ! i)
               (dev_paths demo_intersected1 ! i) \<longrightarrow>
           path_kept (dev_paths demo_intersected1 ! i)
             (dev_paths (stage_shade demo_ext demo_scene 1 demo_intersected1) ! i)"
    using t by (elim conjE)
  have ns: "\<not> scatter_branch (materials demo_scene) (dev_intersections demo_intersected1 ! 1)
          (dev_paths demo_intersected1 ! 1)"
    by (simp add: scatter_branch_def demo_intersected1_def demo_scene_sel demo_hit_def
        demo_materials_def float_eval)
  have l1: "1 < length (dev_paths demo_intersected1)" by (simp add: demo_intersected1_def)
  have k1: "path_kept (dev_paths demo_intersected1 ! 1)
        (dev_paths (stage_shade demo_ext demo_scene 1 demo_intersected1) ! 1)"
    using u[rule_format, OF l1 ns] .
  have ys: "scatter_branch (materials demo_scene) (dev_intersections demo_intersected1 ! 0)
        (dev_paths demo_intersected1 ! 0)"
    by (simp add: scatter_branch_def demo_intersected1_def demo_scene_sel demo_hit_def
        demo_materials_def demo_primary0_def float_eval)
  have c: "scatter_keeps_identity (scatterRay demo_ext) \<and> scatter_keeps_sign (scatterRay demo_ext) \<longrightarrow>
          (\<forall>i < length (dev_paths demo_intersected1).
              path_kept (dev_paths demo_intersected1 ! i)
                (dev_paths (stage_shade demo_ext demo_scene 1 demo_intersected1) ! i))
          \<and> (\<forall>k. (\<forall>p' \<in> set (dev_paths (passes demo_ext demo_scene 1 (Suc k) demo_start)).
                      \<exists>p \<in> set (dev_paths (passes demo_ext demo_scene 1 k demo_start)). path_kept p p')
                 \<and> mset (map pixelIndex (dev_paths (passes demo_ext demo_scene 1 k demo_start))) =
                     mset [0..<pixelcount demo_scene]
                 \<and> (\<forall>p \<in> set (dev_paths (passes demo_ext demo_scene 1 k demo_start)).
                       not_negative (color p) \<and> remainingBounces p \<le> traceDepth demo_scene))"
    using t by (elim conjE)
  note c' = c[rule_format, OF sc]
  have k: "\<forall>i < length (dev_paths demo_intersected1).
              path_kept (dev_paths demo_intersected1 ! i)
                (dev_paths (stage_shade demo_ext demo_scene 1 demo_intersected1) ! i)"
    using c' by (elim conjE)
  have k0: "path_kept (dev_paths demo_intersected1 ! 0)
        (dev_paths (stage_shade demo_ext demo_scene 1 demo_intersected1) ! 0)"
    using k[rule_format, of 0] by (simp add: demo_intersected1_def)
  have p: "\<forall>k. (\<forall>p' \<in> set (dev_paths (passes demo_ext demo_scene 1 (Suc k) demo_start)).
                      \<exists>p \<in> set (dev_paths (passes demo_ext demo_scene 1 k demo_start)). path_kept p p')
                 \<and> mset (map pixelIndex (dev_paths (passes demo_ext demo_scene 1 k demo_start))) =
                     mset [0..<pixelcount demo_scene]
                 \<and> (\<forall>p \<in> set (dev_paths (passes demo_ext demo_scene 1 k demo_start)).
                       not_negative (color p) \<and> remainingBounces p \<le> traceDepth demo_scene)"
    using c' by (elim conjE)
  have "\<forall>p \<in> set (dev_paths (passes demo_ext demo_scene 1 2 demo_start)). not_negative (color p)"
    using p[rule_format, of 2] by blast
  then have nn: "not_negative (color (demo_done (1 / 2)))" "not_negative (color demo_lit)"
    by (simp_all add: demo_passes demo_pass2_def)
  have sh: "dev_paths (stage_shade demo_ext demo_scene 1 demo_intersected1) ! 0 = demo_bounced (1 / 2) 1"
    "dev_paths (stage_shade demo_ext demo_scene 1 demo_intersected1) ! 1 = demo_lit"
    by (simp_all add: demo_shade1)
  have cr: "map carried (dev_paths (passes demo_ext demo_scene 1 2 demo_start)) =
       [(0, Vec3 (Finite (5 / 4)) (Finite (5 / 8)) 0, 0),
        (1, Vec3 (Finite 5) (Finite 5) (Finite 5), 0)]"
    by (simp add: demo_passes demo_pass2_def carried_def demo_done_def demo_lit_def)
  show ?thesis
    using demo_contracts(1) mats[rule_format, of 0] mats[rule_format, of 1] demo_start_wf
      demo_intersected1_wf demo_contracts(2,3) e1 ns k1 sh(2) ys k0 sh(1) nn cr
    by (intro conjI) assumption+
qed

text \<open>
  C5 as stated has every colour channel stay at least 0 when the colours and emittances of the
  materials are non-negative. In the scripted scene with the bright light (finite, non-negative
  material values), the path of pixel 0 leaves the first pass with the colour
  \<open>(1/4, 1/8, 0)\<close>; in the second pass it meets the light, whose colour times its emittance
  overflows to infinity, and its blue channel becomes \<open>0 * infinity\<close>, which is NaN and not at
  least 0.
\<close>

theorem path_invariants_counterexample:
  "nonneg (mcolor (demo_hot 0)) \<and> nonneg (mcolor (demo_hot 1))
   \<and> 0 \<le> emittance (demo_hot 0) \<and> 0 \<le> emittance (demo_hot 1)
   \<and> materials demo_hot_scene = demo_hot
   \<and> color (dev_paths (passes demo_ext demo_hot_scene 1 1 demo_start) ! 0) =
       Vec3 (Finite (1 / 4)) (Finite (1 / 8)) (Finite 0)
   \<and> nonneg (color (dev_paths (passes demo_ext demo_hot_scene 1 1 demo_start) ! 0))
   \<and> color (dev_paths (passes demo_ext demo_hot_scene 1 2 demo_start) ! 0) = Vec3 PInf PInf NaN
   \<and> \<not> 0 \<le> vz (color (dev_paths (passes demo_ext demo_hot_scene 1 2 demo_start) ! 0))
   \<and> \<not> nonneg (color (dev_paths (passes demo_ext demo_hot_scene 1 2 demo_start) ! 0))"
  unfolding demo_hot_passes
  by (simp add: demo_hot_def demo_materials_def demo_hot_scene_def demo_bounced_def demo_burnt_def
      nonneg_def float_eval)

text \<open>
  C6 (as amended). The bounce loop of an iteration terminates: it returns after some number
  \<open>Suc n\<close> of passes. It exits at the first pass after which \<^verbatim>\<open>depth == traceDepth\<close> or the
  active count is 0, and at no earlier pass does either hold. Every pass launches
  \<^verbatim>\<open>shadeMaterial\<close> once, on the intersected buffers, one thread per active slot, and
  \<^verbatim>\<open>depth\<close> counts the passes; so no path receives more applications of the shader than
  there are passes. With a trace depth of at least 1 the number of passes is at most
  \<^verbatim>\<open>traceDepth\<close>, and it is exactly \<^verbatim>\<open>traceDepth\<close> on the exit by depth. With a trace
  depth of 0 or less the loop still makes one pass: every path receives one application of the
  shader, which leaves it as it is. When \<^verbatim>\<open>scatterRay\<close> leaves the counter alone, the
  paths to which the pass \<open>k + 1\<close> applies the shader are those whose counter is
  \<open>traceDepth - k\<close>: each application so far has taken one bounce.
\<close>

theorem bounce_loop_terminates:
  assumes "partition_contract (thrust_partition E)" and "wf_device scene d"
  shows
    "\<exists>n. bounce_loop E MATERIALS scene iter (loop_entry E scene iter d) =
            Some ((passes E scene iter (Suc n) d)\<lparr>num_paths := pixelcount scene\<rparr>)
       \<and> iteration_complete scene (passes E scene iter (Suc n) d)
       \<and> (\<forall>j<n. \<not> iteration_complete scene (passes E scene iter (Suc j) d))
       \<and> (\<forall>k \<le> n. passes E scene iter (Suc k) d =
                      stage_compact E (stage_shade E scene iter (shade_input E scene iter k d)))
       \<and> depth (passes E scene iter (Suc n) d) = int (Suc n)
       \<and> (\<forall>px. shader_applications E scene iter (Suc n) d px \<le> Suc n)
       \<and> (1 \<le> traceDepth scene \<longrightarrow> int (Suc n) \<le> traceDepth scene)
       \<and> (depth (passes E scene iter (Suc n) d) = traceDepth scene \<longrightarrow>
            int (Suc n) = traceDepth scene)
       \<and> (traceDepth scene \<le> 0 \<longrightarrow>
            n = 0
            \<and> (\<forall>px < pixelcount scene. shader_applications E scene iter (Suc n) d px = 1)
            \<and> dev_paths (stage_shade E scene iter (shade_input E scene iter 0 d)) =
                dev_paths (shade_input E scene iter 0 d))
       \<and> (scatter_keeps_identity (scatterRay E) \<longrightarrow>
            (\<forall>k \<le> n. \<forall>idx < num_paths (shade_input E scene iter k d).
                remainingBounces (dev_paths (shade_input E scene iter k d) ! idx) =
                  traceDepth scene - int k))"
proof -
  obtain n where n:
    "bounce_loop E MATERIALS scene iter (loop_entry E scene iter d) =
       Some ((passes E scene iter (Suc n) d)\<lparr>num_paths := pixelcount scene\<rparr>)"
    "iteration_complete scene (passes E scene iter (Suc n) d)"
    "\<forall>j<n. \<not> iteration_complete scene (passes E scene iter (Suc j) d)"
    "1 \<le> traceDepth scene \<longrightarrow> int (Suc n) \<le> traceDepth scene"
    "traceDepth scene \<le> 0 \<longrightarrow> n = 0"
    by (rule bounce_loop_result[OF assms])
  have z: "n = 0
        \<and> (\<forall>px < pixelcount scene. shader_applications E scene iter (Suc n) d px = 1)
        \<and> dev_paths (stage_shade E scene iter (shade_input E scene iter 0 d)) =
            dev_paths (shade_input E scene iter 0 d)" if td: "traceDepth scene \<le> 0"
  proof -
    have n0: "n = 0" using n(5) td by simp
    show ?thesis
      using first_pass_applications(2)[OF assms, of _ iter] first_pass_idle[OF assms td, of iter]
      by (simp add: n0)
  qed
  show ?thesis
  proof (intro exI[of _ n] conjI allI impI)
    show "bounce_loop E MATERIALS scene iter (loop_entry E scene iter d) =
       Some ((passes E scene iter (Suc n) d)\<lparr>num_paths := pixelcount scene\<rparr>)" by (rule n(1))
    show "iteration_complete scene (passes E scene iter (Suc n) d)" by (rule n(2))
    show "depth (passes E scene iter (Suc n) d) = int (Suc n)" by (rule passes_depth)
  next
    fix j assume "j < n"
    then show "\<not> iteration_complete scene (passes E scene iter (Suc j) d)" using n(3) by simp
  next
    fix k
    show "passes E scene iter (Suc k) d =
            stage_compact E (stage_shade E scene iter (shade_input E scene iter k d))"
      by (rule passes_shade)
  next
    fix px
    show "shader_applications E scene iter (Suc n) d px \<le> Suc n"
      by (rule shader_applications_le)
  next
    assume "1 \<le> traceDepth scene"
    then show "int (Suc n) \<le> traceDepth scene" using n(4) by simp
  next
    assume "depth (passes E scene iter (Suc n) d) = traceDepth scene"
    then show "int (Suc n) = traceDepth scene" by (simp add: passes_depth)
  next
    assume td: "traceDepth scene \<le> 0"
    show "n = 0" using z[OF td] by simp
    show "dev_paths (stage_shade E scene iter (shade_input E scene iter 0 d)) =
            dev_paths (shade_input E scene iter 0 d)" using z[OF td] by simp
    fix px assume "px < pixelcount scene"
    then show "shader_applications E scene iter (Suc n) d px = 1" using z[OF td] by blast
  next
    fix k idx
    assume "scatter_keeps_identity (scatterRay E)"
      and "idx < num_paths (shade_input E scene iter k d)"
    then show "remainingBounces (dev_paths (shade_input E scene iter k d) ! idx) =
                  traceDepth scene - int k"
      by (rule shade_input_counter[OF assms(1) _ assms(2)])
  qed
qed

theorem bounce_loop_terminates_witness:
  "partition_contract (thrust_partition demo_ext) \<and> wf_device demo_scene demo_start
   \<and> wf_device demo_flat_scene demo_start
   \<and> scatter_keeps_identity (scatterRay demo_ext)
   \<and> traceDepth demo_scene = 2 \<and> traceDepth demo_flat_scene = 0
   \<and> bounce_loop demo_ext MATERIALS demo_scene 1 (loop_entry demo_ext demo_scene 1 demo_start) =
       Some ((passes demo_ext demo_scene 1 2 demo_start)\<lparr>num_paths := pixelcount demo_scene\<rparr>)
   \<and> iteration_complete demo_scene (passes demo_ext demo_scene 1 2 demo_start)
   \<and> \<not> iteration_complete demo_scene (passes demo_ext demo_scene 1 1 demo_start)
   \<and> depth (passes demo_ext demo_scene 1 2 demo_start) = 2
   \<and> shader_applications demo_ext demo_scene 1 2 demo_start 0 = 2
   \<and> shader_applications demo_ext demo_scene 1 2 demo_start 1 = 1
   \<and> num_paths (shade_input demo_ext demo_scene 1 1 demo_start) = 1
   \<and> remainingBounces (dev_paths (shade_input demo_ext demo_scene 1 1 demo_start) ! 0) = 1
   \<and> dev_paths (stage_shade demo_ext demo_flat_scene 1 (shade_input demo_ext demo_flat_scene 1 0 demo_start)) =
       dev_paths (shade_input demo_ext demo_flat_scene 1 0 demo_start)"
proof -
  obtain n where n:
    "bounce_loop demo_ext MATERIALS demo_scene 1 (loop_entry demo_ext demo_scene 1 demo_start) =
       Some ((passes demo_ext demo_scene 1 (Suc n) demo_start)\<lparr>num_paths := pixelcount demo_scene\<rparr>)"
    "iteration_complete demo_scene (passes demo_ext demo_scene 1 (Suc n) demo_start)"
    "\<forall>j<n. \<not> iteration_complete demo_scene (passes demo_ext demo_scene 1 (Suc j) demo_start)"
    "depth (passes demo_ext demo_scene 1 (Suc n) demo_start) = int (Suc n)"
    "1 \<le> traceDepth demo_scene \<longrightarrow> int (Suc n) \<le> traceDepth demo_scene"
    "scatter_keeps_identity (scatterRay demo_ext) \<longrightarrow>
       (\<forall>k \<le> n. \<forall>idx < num_paths (shade_input demo_ext demo_scene 1 k demo_start).
           remainingBounces (dev_paths (shade_input demo_ext demo_scene 1 k demo_start) ! idx) =
             traceDepth demo_scene - int k)"
    using bounce_loop_terminates[OF demo_contracts(1) demo_start_wf, of 1] by blast
  obtain m where m:
    "traceDepth demo_flat_scene \<le> 0 \<longrightarrow>
       m = 0
       \<and> (\<forall>px < pixelcount demo_flat_scene.
             shader_applications demo_ext demo_flat_scene 1 (Suc m) demo_start px = 1)
       \<and> dev_paths (stage_shade demo_ext demo_flat_scene 1
                       (shade_input demo_ext demo_flat_scene 1 0 demo_start)) =
           dev_paths (shade_input demo_ext demo_flat_scene 1 0 demo_start)"
    using bounce_loop_terminates[OF demo_contracts(1) demo_flat_wf(1), of 1] by blast
  have td: "traceDepth demo_scene = 2" "traceDepth demo_flat_scene = 0"
    by (simp_all add: demo_scene_sel demo_flat_scene_def)
  have idle: "dev_paths (stage_shade demo_ext demo_flat_scene 1
                       (shade_input demo_ext demo_flat_scene 1 0 demo_start)) =
           dev_paths (shade_input demo_ext demo_flat_scene 1 0 demo_start)"
    using m td(2) by simp
  have "(passes demo_ext demo_scene 1 (Suc n) demo_start)\<lparr>num_paths := pixelcount demo_scene\<rparr> =
        (demo_pass2 (1 / 2) [0, 0])\<lparr>num_paths := 2\<rparr>"
    using n(1) demo_bounce_loop by simp
  then have "depth ((passes demo_ext demo_scene 1 (Suc n) demo_start)\<lparr>num_paths := pixelcount demo_scene\<rparr>) =
        depth ((demo_pass2 (1 / 2) [0, 0])\<lparr>num_paths := 2\<rparr>)"
    by (rule arg_cong)
  then have "int (Suc n) = 2" using n(4) by (simp add: demo_pass2_def)
  then have sn: "Suc n = 2" by linarith
  then have n1: "n = 1" by simp
  have "\<not> iteration_complete demo_scene (passes demo_ext demo_scene 1 (Suc 0) demo_start)"
    using n(3) n1 by simp
  then have nc: "\<not> iteration_complete demo_scene (passes demo_ext demo_scene 1 1 demo_start)"
    by simp
  have np: "num_paths (shade_input demo_ext demo_scene 1 1 demo_start) = 1"
    using demo_shade_input(2) by (simp add: demo_pass1_def)
  have "\<forall>idx < num_paths (shade_input demo_ext demo_scene 1 1 demo_start).
           remainingBounces (dev_paths (shade_input demo_ext demo_scene 1 1 demo_start) ! idx) =
             traceDepth demo_scene - int 1"
    using n(6) demo_contracts(2) n1 by blast
  then have rb: "remainingBounces (dev_paths (shade_input demo_ext demo_scene 1 1 demo_start) ! 0) = 1"
    using np td(1) by simp
  note r = n(1,2,4)[unfolded sn]
  have d2: "depth (passes demo_ext demo_scene 1 2 demo_start) = 2" using r(3) by simp
  show ?thesis
    using demo_contracts(1) demo_start_wf demo_flat_wf(1) demo_contracts(2) td r(1,2) nc d2
      demo_shader_applications np rb idle
    by (intro conjI) assumption+
qed

text \<open>
  C6 as stated bounds the applications of the shader that a path receives by
  \<^verbatim>\<open>traceDepth\<close>, for every iteration. With a trace depth of 0 the loop body still runs
  once before its exit test: the loop returns after one pass, with \<^verbatim>\<open>depth = 1\<close>, and the
  path of pixel 0 has been in the active range of that pass's launch of the shader.
\<close>

theorem bounce_loop_counterexample:
  "traceDepth demo_flat_scene = 0
   \<and> bounce_loop demo_ext MATERIALS demo_flat_scene 1 (loop_entry demo_ext demo_flat_scene 1 demo_start) =
       Some ((passes demo_ext demo_flat_scene 1 1 demo_start)\<lparr>num_paths := 2\<rparr>)
   \<and> depth (passes demo_ext demo_flat_scene 1 1 demo_start) = 1
   \<and> shaded_in_pass demo_ext demo_flat_scene 1 0 demo_start 0
   \<and> shader_applications demo_ext demo_flat_scene 1 1 demo_start 0 = 1
   \<and> \<not> int (shader_applications demo_ext demo_flat_scene 1 1 demo_start 0) \<le> traceDepth demo_flat_scene"
proof -
  have td: "traceDepth demo_flat_scene = 0" by (simp add: demo_flat_scene_def)
  obtain n where n:
    "bounce_loop demo_ext MATERIALS demo_flat_scene 1 (loop_entry demo_ext demo_flat_scene 1 demo_start) =
       Some ((passes demo_ext demo_flat_scene 1 (Suc n) demo_start)\<lparr>num_paths := pixelcount demo_flat_scene\<rparr>)"
    "traceDepth demo_flat_scene \<le> 0 \<longrightarrow> n = 0"
    by (rule bounce_loop_result[OF demo_contracts(1) demo_flat_wf(1), of 1])
  have n0: "n = 0" using n(2) td by simp
  have l: "bounce_loop demo_ext MATERIALS demo_flat_scene 1 (loop_entry demo_ext demo_flat_scene 1 demo_start) =
       Some ((passes demo_ext demo_flat_scene 1 1 demo_start)\<lparr>num_paths := 2\<rparr>)"
    using n(1) by (simp add: n0 demo_flat_wf(2))
  have px: "(0::nat) < pixelcount demo_flat_scene" by (simp add: demo_flat_wf(2))
  note a = first_pass_applications[OF demo_contracts(1) demo_flat_wf(1) px, of 1]
  have d: "depth (passes demo_ext demo_flat_scene 1 1 demo_start) = 1"
    by (simp add: passes_depth)
  have gt: "\<not> int (shader_applications demo_ext demo_flat_scene 1 1 demo_start 0) \<le> traceDepth demo_flat_scene"
    unfolding a(2) td by simp
  show ?thesis using td l d a gt by (intro conjI) assumption+
qed




text \<open>
  C8 (as amended). The ray generator fills exactly the \<open>pixelcount\<close> slots of the buffer, the
  slot \<open>x + y * resolution.x\<close> with the path of the pixel \<open>(x, y)\<close>: colour \<open>(1,1,1)\<close>,
  \<open>remainingBounces = traceDepth\<close>, origin at the camera, and as direction the normalised
  vector \<open>view - right * pixelLength.x * (x + xOffset - resolution.x / 2)
  - up * pixelLength.y * (y + yOffset - resolution.y / 2)\<close> (of length 1 unless that vector is
  zero), where the two offsets lie in \<open>[-0.5, 0.5)\<close> and are the first two samples of the engine
  \<^verbatim>\<open>makeSeededRandomEngine(iter, x, y)\<close>: the pixel's \<open>x\<close> is the engine's index argument and
  its \<open>y\<close> stands where the bounce depth is expected, so the seed is
  \<open>utilhash(2^31 | y << 22 | iter) ^ utilhash(x)\<close>.
\<close>

theorem generateRayFromCamera_paths:
  assumes "length ps = pixelcount scene" and "uniform_contract (uniform_real_distribution E)"
  shows
    "length (generate_paths E scene iter ps) = pixelcount scene
     \<and> (\<forall>j < pixelcount scene. pixelIndex (generate_paths E scene iter ps ! j) = j)
     \<and> (\<forall>x < resolution_x (camera scene). \<forall>y < resolution_y (camera scene).
          (let cam = camera scene;
               index = x + y * resolution_x cam;
               p = generate_paths E scene iter ps ! index;
               g = generateRay_rng E iter x y;
               xOffset = uniform_real_distribution E (- 0.5) 0.5 g;
               yOffset = uniform_real_distribution E (- 0.5) 0.5 (g\<lparr>drawn := 1\<rparr>);
               w = vsub
                     (vsub (view cam)
                        (smul (smul (right cam) (pixelLength_x cam))
                           (real x + xOffset - real (resolution_x cam) * 0.5)))
                     (smul (smul (up cam) (pixelLength_y cam))
                        (real y + yOffset - real (resolution_y cam) * 0.5))
           in index < pixelcount scene
            \<and> pixelIndex p = index
            \<and> color p = Vec3 1 1 1
            \<and> remainingBounces p = traceDepth scene
            \<and> origin (ray p) = position cam
            \<and> direction (ray p) = normalize_vec w
            \<and> (w \<noteq> Vec3 0 0 0 \<longrightarrow> dot (direction (ray p)) (direction (ray p)) = 1)
            \<and> - 0.5 \<le> xOffset \<and> xOffset < 0.5 \<and> - 0.5 \<le> yOffset \<and> yOffset < 0.5
            \<and> g = makeSeededRandomEngine E iter (int x) (int y)
            \<and> seed g = utilhash E (push_bit 31 1 OR push_bit 22 (word_of_int (int y)) OR word_of_int iter)
                         XOR utilhash E (word_of_int (int x))
            \<and> drawn g = 0))"
proof (intro conjI allI impI)
  show "length (generate_paths E scene iter ps) = pixelcount scene"
    by (rule generate_paths_slots(1)[OF assms(1)])
next
  fix j assume j: "j < pixelcount scene"
  have "0 < resolution_x (camera scene)"
    using j by (cases "resolution_x (camera scene) = 0") (simp_all add: pixelcount_def)
  then show "pixelIndex (generate_paths E scene iter ps ! j) = j"
    by (simp add: generate_paths_nth[OF assms(1) j] generateRay_segment_fields)
next
  fix x y assume xy: "x < resolution_x (camera scene)" "y < resolution_y (camera scene)"
  let ?w = "resolution_x (camera scene)" and ?h = "resolution_y (camera scene)"
  have idx: "x + y * ?w < pixelcount scene"
  proof -
    have "x + y * ?w < ?w + y * ?w" using xy by simp
    also have "\<dots> = (Suc y) * ?w" by simp
    also have "\<dots> \<le> ?h * ?w" using xy by (intro mult_le_mono1) simp
    finally show ?thesis by (simp add: pixelcount_def mult.commute)
  qed
  have slot: "generate_paths E scene iter ps ! (x + y * ?w) =
      generateRay_segment E (camera scene) iter (traceDepth scene) x y (ps ! (x + y * ?w))"
    using generate_paths_slots(2)[OF assms(1), of E iter] xy by blast
  have u: "- 0.5 \<le> uniform_real_distribution E (- 0.5) 0.5 g
      \<and> uniform_real_distribution E (- 0.5) 0.5 g < 0.5" for g
  proof -
    have "(- 0.5 :: real) < 0.5" by simp
    then show ?thesis using assms(2) unfolding uniform_contract_def by blast
  qed
  show "(let cam = camera scene;
               index = x + y * resolution_x cam;
               p = generate_paths E scene iter ps ! index;
               g = generateRay_rng E iter x y;
               xOffset = uniform_real_distribution E (- 0.5) 0.5 g;
               yOffset = uniform_real_distribution E (- 0.5) 0.5 (g\<lparr>drawn := 1\<rparr>);
               w = vsub
                     (vsub (view cam)
                        (smul (smul (right cam) (pixelLength_x cam))
                           (real x + xOffset - real (resolution_x cam) * 0.5)))
                     (smul (smul (up cam) (pixelLength_y cam))
                        (real y + yOffset - real (resolution_y cam) * 0.5))
           in index < pixelcount scene
            \<and> pixelIndex p = index
            \<and> color p = Vec3 1 1 1
            \<and> remainingBounces p = traceDepth scene
            \<and> origin (ray p) = position cam
            \<and> direction (ray p) = normalize_vec w
            \<and> (w \<noteq> Vec3 0 0 0 \<longrightarrow> dot (direction (ray p)) (direction (ray p)) = 1)
            \<and> - 0.5 \<le> xOffset \<and> xOffset < 0.5 \<and> - 0.5 \<le> yOffset \<and> yOffset < 0.5
            \<and> g = makeSeededRandomEngine E iter (int x) (int y)
            \<and> seed g = utilhash E (push_bit 31 1 OR push_bit 22 (word_of_int (int y)) OR word_of_int iter)
                         XOR utilhash E (word_of_int (int x))
            \<and> drawn g = 0)"
    unfolding Let_def slot generateRay_segment_fields
    using idx u normalize_vec_unit by (simp add: generateRay_rng_def makeSeededRandomEngine_def)
qed

theorem generateRayFromCamera_paths_witness:
  "length (dev_paths demo_start) = pixelcount demo_scene
   \<and> uniform_contract (uniform_real_distribution demo_ext)
   \<and> length (generate_paths demo_ext demo_scene 1 (dev_paths demo_start)) = 2
   \<and> pixelIndex (generate_paths demo_ext demo_scene 1 (dev_paths demo_start) ! 1) = 1
   \<and> color (generate_paths demo_ext demo_scene 1 (dev_paths demo_start) ! 1) = Vec3 1 1 1
   \<and> remainingBounces (generate_paths demo_ext demo_scene 1 (dev_paths demo_start) ! 1) = 2
   \<and> direction (ray (generate_paths demo_ext demo_scene 1 (dev_paths demo_start) ! 1)) =
       normalize_vec (Vec3 0 (1 / 2) 1)
   \<and> dot (direction (ray (generate_paths demo_ext demo_scene 1 (dev_paths demo_start) ! 1)))
         (direction (ray (generate_paths demo_ext demo_scene 1 (dev_paths demo_start) ! 1))) = 1
   \<and> uniform_real_distribution demo_ext (- 0.5) 0.5 (generateRay_rng demo_ext 1 1 0) = 0
   \<and> seed (generateRay_rng demo_ext 1 1 0) = 2147483648"
proof -
  have len: "length (dev_paths demo_start) = pixelcount demo_scene"
    by (simp add: demo_start_def demo_pixelcount)
  note t = generateRayFromCamera_paths[OF len demo_uniform_contract, of 1]
  have l2: "length (generate_paths demo_ext demo_scene 1 (dev_paths demo_start)) = 2"
    using t by (simp add: demo_pixelcount)
  have x: "(1::nat) < resolution_x (camera demo_scene)" "(0::nat) < resolution_y (camera demo_scene)"
    by (simp_all add: demo_scene_sel demo_camera_sel)
  have "\<forall>x < resolution_x (camera demo_scene). \<forall>y < resolution_y (camera demo_scene).
          (let cam = camera demo_scene;
               index = x + y * resolution_x cam;
               p = generate_paths demo_ext demo_scene 1 (dev_paths demo_start) ! index;
               g = generateRay_rng demo_ext 1 x y;
               xOffset = uniform_real_distribution demo_ext (- 0.5) 0.5 g;
               yOffset = uniform_real_distribution demo_ext (- 0.5) 0.5 (g\<lparr>drawn := 1\<rparr>);
               w = vsub
                     (vsub (view cam)
                        (smul (smul (right cam) (pixelLength_x cam))
                           (real x + xOffset - real (resolution_x cam) * 0.5)))
                     (smul (smul (up cam) (pixelLength_y cam))
                        (real y + yOffset - real (resolution_y cam) * 0.5))
           in index < pixelcount demo_scene
            \<and> pixelIndex p = index
            \<and> color p = Vec3 1 1 1
            \<and> remainingBounces p = traceDepth demo_scene
            \<and> origin (ray p) = position cam
            \<and> direction (ray p) = normalize_vec w
            \<and> (w \<noteq> Vec3 0 0 0 \<longrightarrow> dot (direction (ray p)) (direction (ray p)) = 1)
            \<and> - 0.5 \<le> xOffset \<and> xOffset < 0.5 \<and> - 0.5 \<le> yOffset \<and> yOffset < 0.5
            \<and> g = makeSeededRandomEngine demo_ext 1 (int x) (int y)
            \<and> seed g = utilhash demo_ext (push_bit 31 1 OR push_bit 22 (word_of_int (int y)) OR word_of_int 1)
                         XOR utilhash demo_ext (word_of_int (int x))
            \<and> drawn g = 0)"
    using t by (elim conjE)
  note r = this[rule_format, OF x, unfolded Let_def]
  let ?P = "generate_paths demo_ext demo_scene 1 (dev_paths demo_start) ! 1"
  have f: "pixelIndex ?P = 1" "color ?P = Vec3 1 1 1" "remainingBounces ?P = 2"
    using r by (simp_all add: demo_scene_sel demo_camera_sel)
  have d: "direction (ray ?P) = normalize_vec (Vec3 0 (1 / 2) 1)"
    using r by (simp add: demo_scene_sel demo_camera_def demo_ext_sel)
  have "dot (normalize_vec (Vec3 0 (1 / 2) 1)) (normalize_vec (Vec3 0 (1 / 2) 1)) = 1"
    by (rule normalize_vec_unit) simp
  then have u: "dot (direction (ray ?P)) (direction (ray ?P)) = 1" by (simp only: d)
  have o: "uniform_real_distribution demo_ext (- 0.5) 0.5 (generateRay_rng demo_ext 1 1 0) = 0"
    by (simp add: demo_ext_sel)
  have sd: "seed (generateRay_rng demo_ext 1 1 0) = 2147483648"
    by (simp add: generateRay_rng_def makeSeededRandomEngine_def demo_ext_sel)
  show ?thesis
    using len demo_uniform_contract l2 f d u o sd by (intro conjI) assumption+
qed

text \<open>
  C8 as stated has the offsets drawn from the Random Stream of the pixel at bounce depth 0. For
  the pixel \<open>(0, 1)\<close> of an image two pixels wide, in iteration 1, the engine of the source is
  not that stream: with the scripted hash their seeds are 2151677953 and 2147483651.
\<close>

theorem generateRay_rng_counterexample:
  "generateRay_rng demo_ext 1 0 1 \<noteq> spec_generateRay_rng demo_ext (demo_camera\<lparr>resolution_y := 2\<rparr>) 1 0 1
   \<and> seed (generateRay_rng demo_ext 1 0 1) = 2151677953
   \<and> seed (spec_generateRay_rng demo_ext (demo_camera\<lparr>resolution_y := 2\<rparr>) 1 0 1) = 2147483651"
  by (simp add: generateRay_rng_def spec_generateRay_rng_def makeSeededRandomEngine_def
      demo_ext_sel demo_camera_def)

text \<open>
  C9. For a fixed camera, iteration and trace depth, two runs of the ray generator give every
  pixel the same origin, direction, colour, pixel index and counter, whatever the path buffer
  held before each run: each thread builds its own engine from \<open>(iter, x, y)\<close> and reads no
  state but its arguments. (The field \<^verbatim>\<open>ray.intersect\<close>, which the claim does not list, is
  the one the generator leaves as it finds it.)
\<close>

theorem generateRayFromCamera_deterministic:
  assumes "length ps = pixelcount scene" and "length ps' = pixelcount scene"
      and "j < pixelcount scene"
  shows
    "(let p = generate_paths E scene iter ps ! j; p' = generate_paths E scene iter ps' ! j
      in origin (ray p) = origin (ray p') \<and> direction (ray p) = direction (ray p')
       \<and> color p = color p' \<and> pixelIndex p = pixelIndex p'
       \<and> remainingBounces p = remainingBounces p'
       \<and> intersect (ray p) = intersect (ray (ps ! j))
       \<and> intersect (ray p') = intersect (ray (ps' ! j)))"
  by (simp add: Let_def generate_paths_nth[OF assms(1,3)] generate_paths_nth[OF assms(2,3)]
      generateRay_segment_fields)

theorem generateRayFromCamera_deterministic_witness:
  "length (dev_paths demo_start) = pixelcount demo_scene
   \<and> length [demo_lit, demo_done 1] = pixelcount demo_scene
   \<and> (0::nat) < pixelcount demo_scene
   \<and> dev_paths demo_start \<noteq> [demo_lit, demo_done 1]
   \<and> direction (ray (generate_paths demo_ext demo_scene 1 (dev_paths demo_start) ! 0)) =
       direction (ray (generate_paths demo_ext demo_scene 1 [demo_lit, demo_done 1] ! 0))
   \<and> color (generate_paths demo_ext demo_scene 1 (dev_paths demo_start) ! 0) =
       color (generate_paths demo_ext demo_scene 1 [demo_lit, demo_done 1] ! 0)
   \<and> intersect (ray (generate_paths demo_ext demo_scene 1 (dev_paths demo_start) ! 0)) = Vec3 0 0 2
   \<and> intersect (ray (generate_paths demo_ext demo_scene 1 [demo_lit, demo_done 1] ! 0)) = Vec3 0 0 3"
proof -
  have l1: "length (dev_paths demo_start) = pixelcount demo_scene"
    and l2: "length [demo_lit, demo_done 1] = pixelcount demo_scene"
    and j: "(0::nat) < pixelcount demo_scene"
    by (simp_all add: demo_start_def demo_pixelcount)
  have ne: "dev_paths demo_start \<noteq> [demo_lit, demo_done 1]"
    by (simp add: demo_start_def demo_path_def demo_lit_def)
  from generateRayFromCamera_deterministic[OF l1 l2 j, of demo_ext 1]
  show ?thesis
    using l1 l2 j ne
    by (simp add: Let_def demo_start_def demo_path_def demo_ray_def demo_lit_def)
qed

text \<open>
  C10. A path that enters \<^verbatim>\<open>shadeMaterial\<close> with \<open>remainingBounces \<le> 0\<close> leaves it
  unchanged, since both writing branches ask for \<open>remainingBounces > 0\<close>; the compaction
  permutes the paths and leaves only paths that still bounce in the active range. So for a path
  found terminated after any number of passes of an iteration, the buffer at the accumulation
  holds a path with the same pixel, colour and counter, and the accumulation adds exactly that
  colour to the image at that pixel.
\<close>

theorem terminated_paths_frozen:
  assumes "partition_contract (thrust_partition E)"
      and "scatter_keeps_identity (scatterRay E)"
      and "wf_device scene d"
      and "wf_device scene s"
  shows
    "(remainingBounces p \<le> 0 \<longrightarrow> shadeMaterial_path E iter i x mats dep p = p)
     \<and> (\<forall>q \<in> set (take (num_paths (stage_compact E s)) (dev_paths (stage_compact E s))).
           0 < remainingBounces q)
     \<and> mset (dev_paths (stage_compact E s)) = mset (dev_paths s)
     \<and> (\<exists>n d'. pathtrace E scene iter d = Some d'
            \<and> dev_paths d' = dev_paths (passes E scene iter (Suc n) d)
            \<and> (\<forall>k \<le> Suc n. \<forall>q \<in> set (dev_paths (passes E scene iter k d)).
                  remainingBounces q \<le> 0 \<longrightarrow>
                    (\<exists>j < pixelcount scene. carried (dev_paths d' ! j) = carried q)
                    \<and> dev_image d' ! pixelIndex q =
                        vadd (dev_image d ! pixelIndex q) (color q)))"
proof (intro conjI)
  show "remainingBounces p \<le> 0 \<longrightarrow> shadeMaterial_path E iter i x mats dep p = p"
    by (simp add: shade_terminated)
  have ls: "num_paths s \<le> length (dev_paths s)" using assms(4) by (simp add: wf_device_def)
  show "\<forall>q \<in> set (take (num_paths (stage_compact E s)) (dev_paths (stage_compact E s))).
           0 < remainingBounces q"
    by (rule stage_compact_facts(4)[OF assms(1) ls])
  show "mset (dev_paths (stage_compact E s)) = mset (dev_paths s)"
    by (rule stage_compact_facts(2)[OF assms(1) ls])
  obtain n d' where r:
    "pathtrace E scene iter d = Some d'"
    "dev_paths d' = dev_paths (passes E scene iter (Suc n) d)"
    "length (dev_paths d') = pixelcount scene"
    "\<forall>j < pixelcount scene.
        dev_image d' ! pixelIndex (dev_paths d' ! j) =
        vadd (dev_image d ! pixelIndex (dev_paths d' ! j)) (color (dev_paths d' ! j))"
    using pathtrace_gathers[OF assms(1,2,3), of iter] by blast
  have fr: "(\<exists>j < pixelcount scene. carried (dev_paths d' ! j) = carried q)
        \<and> dev_image d' ! pixelIndex q = vadd (dev_image d ! pixelIndex q) (color q)"
    if k: "k \<le> Suc n" and q: "q \<in> set (dev_paths (passes E scene iter k d))"
      and t: "remainingBounces q \<le> 0" for k q
  proof -
    have "carried q \<in># settled (passes E scene iter k d)"
      using q t by (simp add: settled_def carried_def)
    then have "carried q \<in># settled (passes E scene iter (Suc n) d)"
      using passes_settled[OF assms(1,3) k, of iter] by (rule mset_subset_eqD[rotated])
    then have "carried q \<in> set (map carried (dev_paths d'))"
      by (simp add: settled_def r(2))
    then obtain j where j: "j < length (dev_paths d')" "carried (dev_paths d' ! j) = carried q"
      by (auto simp: in_set_conv_nth)
    then have jp: "j < pixelcount scene" using r(3) by simp
    have "pixelIndex (dev_paths d' ! j) = pixelIndex q" "color (dev_paths d' ! j) = color q"
      using j(2) by (simp_all add: carried_def)
    then have "dev_image d' ! pixelIndex q = vadd (dev_image d ! pixelIndex q) (color q)"
      using r(4) jp by metis
    then show ?thesis using j(2) jp by blast
  qed
  show "\<exists>n d'. pathtrace E scene iter d = Some d'
            \<and> dev_paths d' = dev_paths (passes E scene iter (Suc n) d)
            \<and> (\<forall>k \<le> Suc n. \<forall>q \<in> set (dev_paths (passes E scene iter k d)).
                  remainingBounces q \<le> 0 \<longrightarrow>
                    (\<exists>j < pixelcount scene. carried (dev_paths d' ! j) = carried q)
                    \<and> dev_image d' ! pixelIndex q =
                        vadd (dev_image d ! pixelIndex q) (color q))"
    using r(1,2) fr by (intro exI[of _ n] exI[of _ d']) blast
qed

theorem terminated_paths_frozen_witness:
  "partition_contract (thrust_partition demo_ext) \<and> scatter_keeps_identity (scatterRay demo_ext)
   \<and> wf_device demo_scene demo_start \<and> wf_device demo_scene demo_intersected1
   \<and> demo_lit \<in> set (dev_paths (passes demo_ext demo_scene 1 1 demo_start))
   \<and> remainingBounces demo_lit \<le> 0
   \<and> shadeMaterial_path demo_ext 1 0 (demo_hit 4 1) demo_materials 2 demo_lit = demo_lit
   \<and> map_option (\<lambda>d'. dev_image d' ! pixelIndex demo_lit) (pathtrace demo_ext demo_scene 1 demo_start) =
       Some (Vec3 (Finite 5) (Finite 5) (Finite 5))"
proof -
  note t = terminated_paths_frozen[OF demo_contracts(1,2) demo_start_wf demo_intersected1_wf,
      of demo_lit 1 0 "demo_hit 4 1" demo_materials 2]
  have lit: "demo_lit \<in> set (dev_paths (passes demo_ext demo_scene 1 1 demo_start))"
    unfolding demo_passes by (simp add: demo_pass1_def)
  have rb: "remainingBounces demo_lit \<le> 0" by (simp add: demo_lit_def)
  have sh: "shadeMaterial_path demo_ext 1 0 (demo_hit 4 1) demo_materials 2 demo_lit = demo_lit"
    using t rb by blast
  obtain n d' where r: "pathtrace demo_ext demo_scene 1 demo_start = Some d'"
    "\<forall>k \<le> Suc n. \<forall>q \<in> set (dev_paths (passes demo_ext demo_scene 1 k demo_start)).
        remainingBounces q \<le> 0 \<longrightarrow>
          (\<exists>j < pixelcount demo_scene. carried (dev_paths d' ! j) = carried q)
          \<and> dev_image d' ! pixelIndex q = vadd (dev_image demo_start ! pixelIndex q) (color q)"
    using t by blast
  have "(1::nat) \<le> Suc n" by simp
  with r(2) lit rb have "dev_image d' ! pixelIndex demo_lit =
      vadd (dev_image demo_start ! pixelIndex demo_lit) (color demo_lit)"
    by blast
  then have "dev_image d' ! pixelIndex demo_lit = Vec3 (Finite 5) (Finite 5) (Finite 5)"
    by (simp add: demo_lit_def demo_start_def float_eval)
  then show ?thesis
    using demo_contracts(1,2) demo_start_wf demo_intersected1_wf lit rb sh by (simp add: r(1))
qed

end
